(* ===== verification/Fm_Prelude.thy ===== *)
theory Fm_Prelude
  imports Main "HOL-Library.AList" "HOL-Library.List_Lexorder" "HOL-Library.Char_ord"
begin

text \<open>
  Shared vocabulary of the development: the lemma collections, the early-return loop of Go,
  association lists as Go maps that the code ranges over, saturating time arithmetic and the
  white-space trimming of package \<open>strings\<close>. Nothing here is about fmlocal itself.
\<close>

section \<open>Lemma collection\<close>

named_theorems ticket_defs \<open>definitions of the ticket's mutators\<close>

section \<open>Results\<close>

text \<open>A Go function that returns \<open>(value, error)\<close> is a sum: \<open>Inl\<close> the error, \<open>Inr\<close> the value.\<close>

fun is_ok :: "'e + 'a \<Rightarrow> bool" where
  "is_ok (Inl e) = False"
| "is_ok (Inr x) = True"

lemma is_ok_iff: "is_ok r \<longleftrightarrow> (\<exists>x. r = Inr x)"
  by (cases r) auto

section \<open>The loop with early return\<close>

text \<open>
  \<open>for _, x := range xs { if err := f(x); err != nil { return err } }\<close>: the body changes the
  state and may report an error, which ends the loop with the state reached so far.
\<close>

fun foreach :: "('a \<Rightarrow> 's \<Rightarrow> 'err option \<times> 's) \<Rightarrow> 'a list \<Rightarrow> 's \<Rightarrow> 'err option \<times> 's" where
  "foreach f [] s = (None, s)"
| "foreach f (x # xs) s =
     (case f x s of
        (None, s') \<Rightarrow> foreach f xs s'
      | (Some e, s') \<Rightarrow> (Some e, s'))"

text \<open>The loop rule: the invariant speaks of the elements that are still to come.\<close>

lemma foreach_remaining:
  assumes "I xs s"
    and "\<And>x ys s. I (x # ys) s \<Longrightarrow> I ys (snd (f x s))"
  shows "\<exists>ys. I ys (snd (foreach f xs s))"
  using assms(1)
proof (induction xs arbitrary: s)
  case Nil
  then show ?case by auto
next
  case (Cons x xs)
  then have step: "I xs (snd (f x s))" by (rule_tac assms(2))
  obtain r s' where fx: "f x s = (r, s')" by fastforce
  show ?case
  proof (cases r)
    case None
    with Cons.IH step fx show ?thesis by simp
  next
    case (Some e)
    with step fx show ?thesis by auto
  qed
qed

lemma foreach_inv:
  assumes "I s" and "\<And>x s. x \<in> set xs \<Longrightarrow> I s \<Longrightarrow> I (snd (f x s))"
  shows "I (snd (foreach f xs s))"
proof -
  have "\<exists>ys. set ys \<subseteq> set xs \<and> I (snd (foreach f xs s))"
    by (rule foreach_remaining [where I = "\<lambda>ys s. set ys \<subseteq> set xs \<and> I s"])
       (use assms in auto)
  then show ?thesis by blast
qed

lemma foreach_append:
  "foreach f (xs @ ys) s =
     (case foreach f xs s of
        (None, s') \<Rightarrow> foreach f ys s'
      | (Some e, s') \<Rightarrow> (Some e, s'))"
  by (induction xs arbitrary: s) (auto split: prod.splits option.splits)

text \<open>
  \<open>and_then f g\<close>: \<open>if err := f(); err != nil { return err }; return g()\<close>.
\<close>

definition and_then ::
  "('s \<Rightarrow> 'err option \<times> 's) \<Rightarrow> ('s \<Rightarrow> 'err option \<times> 's) \<Rightarrow> 's \<Rightarrow> 'err option \<times> 's" where
  "and_then f g s = (case f s of (None, s') \<Rightarrow> g s' | (Some e, s') \<Rightarrow> (Some e, s'))"

text \<open>
  \<open>runs below P f Q E\<close>: from a state with \<open>P\<close>, the code moves up in the order \<open>below\<close> and ends in
  \<open>Q\<close> when it returns no error, in \<open>E\<close> when it returns one.
\<close>

definition reaches :: "('s \<Rightarrow> 's \<Rightarrow> bool) \<Rightarrow> ('s \<Rightarrow> bool) \<Rightarrow> ('s \<Rightarrow> bool) \<Rightarrow> 's \<Rightarrow>
    'err option \<times> 's \<Rightarrow> bool" where
  "reaches below Q E s r \<longleftrightarrow>
     (\<forall>x s'. r = (x, s') \<longrightarrow> below s s' \<and> (case x of None \<Rightarrow> Q s' | Some e \<Rightarrow> E s'))"

definition runs :: "('s \<Rightarrow> 's \<Rightarrow> bool) \<Rightarrow> ('s \<Rightarrow> bool) \<Rightarrow> ('s \<Rightarrow> 'err option \<times> 's) \<Rightarrow>
    ('s \<Rightarrow> bool) \<Rightarrow> ('s \<Rightarrow> bool) \<Rightarrow> bool" where
  "runs below P f Q E \<longleftrightarrow> (\<forall>s. P s \<longrightarrow> reaches below Q E s (f s))"

lemma runs_iff:
  "runs below P f Q E \<longleftrightarrow>
     (\<forall>s x s'. P s \<longrightarrow> f s = (x, s') \<longrightarrow> below s s' \<and> (case x of None \<Rightarrow> Q s' | Some e \<Rightarrow> E s'))"
  unfolding runs_def reaches_def by blast

text \<open>A piece of code is proved at the state it starts in, where its branches are known.\<close>

lemma runs_at: "(\<And>s. P s \<Longrightarrow> reaches below Q E s (f s)) \<Longrightarrow> runs below P f Q E"
  by (simp add: runs_def)

lemma reaches_run: "runs below P f Q E \<Longrightarrow> P s \<Longrightarrow> reaches below Q E s (f s)"
  by (simp add: runs_def)

lemma runsI:
  assumes "\<And>s s'. P s \<Longrightarrow> f s = (None, s') \<Longrightarrow> below s s' \<and> Q s'"
    and "\<And>s s' e. P s \<Longrightarrow> f s = (Some e, s') \<Longrightarrow> below s s' \<and> E s'"
  shows "runs below P f Q E"
  using assms unfolding runs_iff by (auto split: option.split)

lemma runsD:
  assumes "runs below P f Q E" and "P s"
  shows "f s = (x, s') \<Longrightarrow> below s s'" and "f s = (None, s') \<Longrightarrow> Q s'" and "f s = (Some e, s') \<Longrightarrow> E s'"
  using assms unfolding runs_iff by (blast, fastforce+)

lemma runs_conseq:
  assumes "runs below P f Q E" and "\<And>s. P' s \<Longrightarrow> P s" and "\<And>s. Q s \<Longrightarrow> Q' s" and "\<And>s. E s \<Longrightarrow> E' s"
  shows "runs below P' f Q' E'"
  by (rule runsI) (use assms runsD [OF assms(1)] in blast)+

lemma runs_weaken:
  assumes "runs below P f Q E" and "\<And>s t. below s t \<Longrightarrow> below' s t"
  shows "runs below' P f Q E"
  using assms unfolding runs_iff by blast

lemma runs_pre: "runs below P f Q E \<Longrightarrow> (\<And>s. P' s \<Longrightarrow> P s) \<Longrightarrow> runs below P' f Q E"
  by (erule runs_conseq)

lemma runs_snd: "runs below P f P P \<Longrightarrow> P s \<Longrightarrow> below s (snd (f s)) \<and> P (snd (f s))"
  by (cases "f s"; cases "fst (f s)") (auto dest: runsD)

lemma runs_if:
  assumes "runs below (\<lambda>s. P s \<and> c s) f Q E" and "runs below (\<lambda>s. P s \<and> \<not> c s) g Q E"
  shows "runs below P (\<lambda>s. if c s then f s else g s) Q E"
  by (rule runsI) (use runsD [OF assms(1)] runsD [OF assms(2)] in \<open>auto split: if_splits\<close>)

text \<open>A preorder on states that every step of the body respects is respected by the loop.\<close>

locale state_order =
  fixes below :: "'s \<Rightarrow> 's \<Rightarrow> bool"
  assumes below_refl: "below s s"
    and below_trans: "below s t \<Longrightarrow> below t u \<Longrightarrow> below s u"
begin

lemma loop_below:
  assumes "\<And>x s. x \<in> set xs \<Longrightarrow> P s \<Longrightarrow> P (snd (f x s)) \<and> below s (snd (f x s))" and "P s"
  shows "P (snd (foreach f xs s)) \<and> below s (snd (foreach f xs s))"
  by (rule foreach_inv [where I = "\<lambda>t. P t \<and> below s t"])
     (use assms below_refl below_trans in blast)+

lemma runs_return: "runs below P (\<lambda>s. (None, s)) P E"
  by (simp add: runs_iff below_refl)

lemma reaches_return: "Q s \<Longrightarrow> reaches below Q E s (None, s)"
  by (simp add: reaches_def below_refl)

lemma reaches_after:
  assumes "below s t" and "reaches below Q E t r"
  shows "reaches below Q E s r"
  using assms below_trans unfolding reaches_def by blast

lemma runs_and_then:
  assumes "runs below P f Q E" and "runs below Q g R E"
  shows "runs below P (and_then f g) R E"
proof -
  have "below s s' \<and> (case x of None \<Rightarrow> R s' | Some e \<Rightarrow> E s')"
    if "P s" "and_then f g s = (x, s')" for s x s'
  proof (cases "f s")
    case (Pair y t)
    note f = runsD [OF assms(1) \<open>P s\<close>, where s' = t]
    show ?thesis
    proof (cases y)
      case None
      then have g: "g t = (x, s')" and "Q t" and "below s t"
        using that(2) Pair f by (auto simp: and_then_def)
      then show ?thesis using assms(2) below_trans unfolding runs_iff by blast
    next
      case (Some e)
      then show ?thesis using that(2) Pair f by (auto simp: and_then_def)
    qed
  qed
  then show ?thesis unfolding runs_iff by blast
qed

lemma runs_foreach:
  assumes "\<And>x. x \<in> set xs \<Longrightarrow> runs below P (f x) P E"
  shows "runs below P (foreach f xs) P E"
  using assms
proof (induction xs)
  case Nil
  have "foreach f [] = (\<lambda>s. (None, s))" by auto
  then show ?case by (simp add: runs_return)
next
  case (Cons x xs)
  have "foreach f (x # xs) = and_then (f x) (foreach f xs)"
    by (auto simp: and_then_def)
  moreover have "runs below P (f x) P E" "runs below P (foreach f xs) P E"
    using Cons by auto
  ultimately show ?case by (metis runs_and_then)
qed

end

section \<open>Maps the code ranges over\<close>

text \<open>
  A Go map that the code iterates over or counts is an association list with distinct keys;
  \<open>map_of\<close>, \<open>AList.update\<close> and \<open>AList.delete\<close> are the lookup, the assignment and \<open>delete\<close>.
\<close>

lemma map_of_in_set: "distinct (map fst m) \<Longrightarrow> (k, v) \<in> set m \<longleftrightarrow> map_of m k = Some v"
  by (auto dest: map_of_SomeD)

lemma map_of_update_iff: "map_of (AList.update k v m) x = (if x = k then Some v else map_of m x)"
  by (simp add: update_conv')

lemma map_of_delete_iff: "map_of (AList.delete k m) x = (if x = k then None else map_of m x)"
  by (simp add: delete_conv')

lemma distinct_update_keys: "distinct (map fst m) \<Longrightarrow> distinct (map fst (AList.update k v m))"
  by (rule distinct_update)

lemma distinct_delete_keys: "distinct (map fst m) \<Longrightarrow> distinct (map fst (AList.delete k m))"
  by (rule distinct_delete)

lemmas gomap_simps = map_of_update_iff map_of_delete_iff
lemmas gomap_distinct = distinct_update_keys distinct_delete_keys

end
