(* ===== verification/Go_Lib.thy ===== *)
theory Go_Lib
  imports Fm_Prelude
begin

text \<open>
  What the program uses of Go's standard library: \<open>time.Time\<close> and \<open>time.Duration\<close>
  (instants and saturating differences), the ISO-8601 layout of the event timestamps,
  \<open>strings.TrimSpace\<close> and \<open>strings.Join\<close>.
\<close>

section \<open>Instants and durations\<close>

text \<open>
  An instant is the number of nanoseconds since Go's zero time (0001-01-01 UTC), so that
  \<open>IsZero\<close> is \<open>= 0\<close>; a duration is a signed 64-bit number of nanoseconds.
\<close>

type_synonym gotime = int
type_synonym duration = int

definition second :: duration where "second = 1000000000"
definition minute :: duration where "minute = 60 * second"
definition hour :: duration where "hour = 60 * minute"

definition max_duration :: duration where "max_duration = 2 ^ 63 - 1"
definition min_duration :: duration where "min_duration = - (2 ^ 63)"

text \<open>\<open>t.Sub(u)\<close> saturates at the ends of the duration range.\<close>

definition time_sub :: "gotime \<Rightarrow> gotime \<Rightarrow> duration" where
  "time_sub t u = max min_duration (min max_duration (t - u))"

definition is_zero_time :: "gotime \<Rightarrow> bool" where
  "is_zero_time t \<longleftrightarrow> t = 0"

text \<open>\<open>time.Duration(n) * time.Second\<close> is a 64-bit product: it wraps around.\<close>

definition wrap64 :: "int \<Rightarrow> int" where
  "wrap64 n = (n + 2 ^ 63) mod 2 ^ 64 - 2 ^ 63"

definition seconds_duration :: "int \<Rightarrow> duration" where
  "seconds_duration n = wrap64 (n * second)"

lemma wrap64_id: "min_duration \<le> n \<Longrightarrow> n \<le> max_duration \<Longrightarrow> wrap64 n = n"
  by (simp add: wrap64_def min_duration_def max_duration_def)

lemma time_sub_exact:
  "min_duration \<le> t - u \<Longrightarrow> t - u \<le> max_duration \<Longrightarrow> time_sub t u = t - u"
  by (simp add: time_sub_def)

lemma time_sub_mono: "t \<le> t' \<Longrightarrow> time_sub t u \<le> time_sub t' u"
  by (auto simp: time_sub_def)

lemma time_sub_ge_iff:
  "min_duration < d \<Longrightarrow> d \<le> max_duration \<Longrightarrow> d \<le> time_sub t u \<longleftrightarrow> u + d \<le> t"
  by (auto simp: time_sub_def)

section \<open>Timestamps\<close>

text \<open>
  \<open>t.UTC().Format("2006-01-02T15:04:05.000Z07:00")\<close>: the proleptic Gregorian date of the
  instant, the time of day and the milliseconds, truncated. The date is found as the package
  does: 400-year, 100-year, 4-year and 1-year cycles.
\<close>

fun digit :: "nat \<Rightarrow> char" where
  "digit n = char_of (48 + n mod 10)"

fun padded :: "nat \<Rightarrow> nat \<Rightarrow> string" where
  "padded 0 n = []"
| "padded (Suc w) n = padded w (n div 10) @ [digit n]"

fun nat_digits :: "nat \<Rightarrow> string" where
  "nat_digits n = (if n < 10 then [digit n] else nat_digits (n div 10) @ [digit n])"

declare nat_digits.simps [simp del]

definition int_digits :: "int \<Rightarrow> nat \<Rightarrow> string" where
  "int_digits n w =
     (if n < 0 then ''-'' else '''') @
     (let m = nat \<bar>n\<bar> in if m < 10 ^ w then padded w m else nat_digits m)"

definition is_leap :: "int \<Rightarrow> bool" where
  "is_leap y \<longleftrightarrow> y mod 4 = 0 \<and> (y mod 100 \<noteq> 0 \<or> y mod 400 = 0)"

definition year_yday :: "int \<Rightarrow> int \<times> int" where
  "year_yday days =
     (let n400 = days div 146097; d = days mod 146097;
          n100 = min 3 (d div 36524); d = d - n100 * 36524;
          n4 = d div 1461; d = d mod 1461;
          n1 = min 3 (d div 365); d = d - n1 * 365
      in (400 * n400 + 100 * n100 + 4 * n4 + n1 + 1, d))"

fun month_day :: "int list \<Rightarrow> int \<Rightarrow> int \<Rightarrow> int \<times> int" where
  "month_day [] m d = (m, d + 1)"
| "month_day (len # lens) m d =
     (if d < len then (m, d + 1) else month_day lens (m + 1) (d - len))"

definition month_lengths :: "int \<Rightarrow> int list" where
  "month_lengths y = [31, if is_leap y then 29 else 28, 31, 30, 31, 30, 31, 31, 30, 31, 30]"

definition date_time :: "gotime \<Rightarrow> string" where
  "date_time t =
     (let secs = t div second; days = secs div 86400; sod = secs mod 86400;
          (y, yday) = year_yday days;
          (m, d) = month_day (month_lengths y) 1 yday
      in int_digits y 4 @ ''-'' @ padded 2 (nat m) @ ''-'' @ padded 2 (nat d) @ ''T'' @
         padded 2 (nat (sod div 3600)) @ '':'' @ padded 2 (nat (sod div 60 mod 60)) @ '':'' @
         padded 2 (nat (sod mod 60)))"

definition format_millis :: "gotime \<Rightarrow> string" where
  "format_millis t = date_time t @ ''.'' @ padded 3 (nat (t mod second div 1000000)) @ ''Z''"

text \<open>\<open>time.RFC3339Nano\<close>: the nanoseconds without their trailing zeros.\<close>

definition format_nanos :: "gotime \<Rightarrow> string" where
  "format_nanos t =
     (let nanos = nat (t mod second) in
      date_time t @
      (if nanos = 0 then [] else ''.'' @ rev (dropWhile (\<lambda>c. c = CHR ''0'') (rev (padded 9 nanos)))) @ ''Z'')"

lemma length_padded [simp]: "length (padded w n) = w"
  by (induction w arbitrary: n) auto

section \<open>Strings\<close>

text \<open>
  \<open>strings.TrimSpace\<close> drops the Unicode white space at both ends of a UTF-8 string:
  \<open>space_len s\<close> is the number of bytes of the white-space rune that \<open>s\<close> starts with,
  0 if it starts with none.
\<close>

definition ascii_space :: "nat \<Rightarrow> bool" where
  "ascii_space c \<longleftrightarrow> c = 32 \<or> 9 \<le> c \<and> c \<le> 13"

fun space_len :: "nat list \<Rightarrow> nat" where
  "space_len (a # b # c # _) =
     (if ascii_space a then 1
      else if a = 194 \<and> (b = 133 \<or> b = 160) then 2
      else if a = 225 \<and> b = 154 \<and> c = 128 \<or>
              a = 226 \<and> b = 128 \<and> (128 \<le> c \<and> c \<le> 138 \<or> c = 168 \<or> c = 169 \<or> c = 175) \<or>
              a = 226 \<and> b = 129 \<and> c = 159 \<or>
              a = 227 \<and> b = 128 \<and> c = 128 then 3
      else 0)"
| "space_len [a, b] =
     (if ascii_space a then 1 else if a = 194 \<and> (b = 133 \<or> b = 160) then 2 else 0)"
| "space_len [a] = (if ascii_space a then 1 else 0)"
| "space_len [] = 0"

lemma space_len_bound: "space_len s \<le> length s"
  by (induction s rule: space_len.induct) auto

function trim_left :: "string \<Rightarrow> string" where
  "trim_left s =
     (let n = space_len (map of_char s) in if n = 0 then s else trim_left (drop n s))"
  by pat_completeness auto
termination
proof (relation "measure length", goal_cases)
  case (2 s n)
  then show ?case
    using space_len_bound [of "map of_char s :: nat list"] by (cases s) auto
qed simp

declare trim_left.simps [simp del]

fun trim_right :: "string \<Rightarrow> string" where
  "trim_right [] = []"
| "trim_right (c # cs) = (if trim_left (c # cs) = [] then [] else c # trim_right cs)"

definition TrimSpace :: "string \<Rightarrow> string" where
  "TrimSpace s = trim_right (trim_left s)"

lemma trim_left_idem: "trim_left (trim_left s) = trim_left s"
proof (induction s rule: trim_left.induct)
  case (1 s)
  then show ?case
    by (cases "space_len (map of_char s :: nat list) = 0") (simp_all add: trim_left.simps [of s] Let_def)
qed

lemma TrimSpace_Nil_iff: "TrimSpace s = [] \<longleftrightarrow> trim_left s = []"
proof (cases "trim_left s")
  case (Cons c cs)
  then have "trim_left (c # cs) = c # cs" using trim_left_idem [of s] by simp
  with Cons show ?thesis by (simp add: TrimSpace_def)
qed (simp add: TrimSpace_def)

text \<open>\<open>strings.Join\<close>.\<close>

fun join :: "string \<Rightarrow> string list \<Rightarrow> string" where
  "join sep [] = []"
| "join sep [x] = x"
| "join sep (x # y # zs) = x @ sep @ join sep (y # zs)"

text \<open>
  Joining with a separator byte that no part contains can be undone: the first part ends at the
  first separator.
\<close>

lemma takeWhile_join:
  assumes "c \<notin> set x"
  shows "takeWhile (\<lambda>b. b \<noteq> c) (x @ c # r) = x" and "dropWhile (\<lambda>b. b \<noteq> c) (x @ c # r) = c # r"
  using assms by (induction x) auto

lemma join_Cons: "ys \<noteq> [] \<Longrightarrow> join sep (x # ys) = x @ sep @ join sep ys"
  by (cases ys) auto

lemma sep_in_join: "2 \<le> length xs \<Longrightarrow> c \<in> set (join [c] xs)"
  by (cases xs; cases "tl xs") auto

lemma join_inj:
  assumes "\<forall>x\<in>set xs. c \<notin> set x" and "\<forall>y\<in>set ys. c \<notin> set y"
    and "xs \<noteq> []" and "ys \<noteq> []" and "join [c] xs = join [c] ys"
  shows "xs = ys"
  using assms
proof (induction xs arbitrary: ys)
  case Nil
  then show ?case by simp
next
  case (Cons x xs)
  then obtain y ys' where ys: "ys = y # ys'" by (cases ys) auto
  show ?case
  proof (cases "xs = []")
    case True
    then have "c \<notin> set (join [c] ys)" using Cons.prems by auto
    then have "ys' = []" using sep_in_join [of ys c] ys by (cases ys') auto
    with True Cons.prems ys show ?thesis by simp
  next
    case False
    then have "2 \<le> length (x # xs)" by (cases xs) auto
    then have "c \<in> set (join [c] ys)" using sep_in_join Cons.prems(5) by metis
    then have ne: "ys' \<noteq> []" using Cons.prems(2) ys by auto
    have eq: "x @ c # join [c] xs = y @ c # join [c] ys'"
      using Cons.prems(5) False ne ys by (simp add: join_Cons)
    have "c \<notin> set x" "c \<notin> set y" using Cons.prems ys by auto
    then have "x = y" "join [c] xs = join [c] ys'"
      using eq takeWhile_join [of c x "join [c] xs"] takeWhile_join [of c y "join [c] ys'"] by auto
    moreover have "xs = ys'"
      using Cons.IH [of ys'] Cons.prems False ne ys \<open>join [c] xs = join [c] ys'\<close> by auto
    ultimately show ?thesis using ys by simp
  qed
qed

end
