(* ===== verification/Go_Float.thy ===== *)
theory Go_Float
  imports Go_Lib "HOL-Library.Log_Nat"
begin

text \<open>
  The floating point arithmetic the program does on times: a finite \<open>float64\<close> is the rational
  number it stands for, and every operation rounds its exact result to 53 significant bits, ties
  to even. Nothing here comes near the ends of the exponent range.
\<close>

section \<open>Rounding\<close>

definition pow2 :: "int \<Rightarrow> rat" where
  "pow2 k = (if 0 \<le> k then 2 ^ nat k else 1 / 2 ^ nat (- k))"

text \<open>The binary exponent of a positive rational.\<close>

definition exponent :: "rat \<Rightarrow> int" where
  "exponent x =
     (let (p, q) = quotient_of x; e = bitlen p - bitlen q in if x < pow2 e then e - 1 else e)"

definition round_even :: "rat \<Rightarrow> int" where
  "round_even m =
     (let f = \<lfloor>m\<rfloor>; r = m - of_int f in
      if r < 1 / 2 then f else if 1 / 2 < r then f + 1 else if even f then f else f + 1)"

definition f64_pos :: "rat \<Rightarrow> rat" where
  "f64_pos x = (let e = exponent x in of_int (round_even (x * pow2 (52 - e))) * pow2 (e - 52))"

definition f64 :: "rat \<Rightarrow> rat" where
  "f64 x = (if x = 0 then 0 else if 0 < x then f64_pos x else - f64_pos (- x))"

text \<open>\<open>float64(n)\<close>, \<open>x / y\<close>, \<open>x + y\<close> and \<open>int(x)\<close>.\<close>

definition f64_of_int :: "int \<Rightarrow> rat" where
  "f64_of_int n = f64 (of_int n)"

definition f64_div :: "rat \<Rightarrow> rat \<Rightarrow> rat" where
  "f64_div x y = f64 (x / y)"

definition f64_add :: "rat \<Rightarrow> rat \<Rightarrow> rat" where
  "f64_add x y = f64 (x + y)"

definition int_of_f64 :: "rat \<Rightarrow> int" where
  "int_of_f64 x = (if 0 \<le> x then \<lfloor>x\<rfloor> else \<lceil>x\<rceil>)"

text \<open>A \<open>float64\<close> that a client sends can also be one of the values that are no number.\<close>

datatype float64 = Num rat | NegZero | PosInf | NegInf | NaN

definition is_finite :: "float64 \<Rightarrow> bool" where
  "is_finite f \<longleftrightarrow> (case f of Num x \<Rightarrow> True | NegZero \<Rightarrow> True | _ \<Rightarrow> False)"

definition is_zero :: "float64 \<Rightarrow> bool" where
  "is_zero f \<longleftrightarrow> f = Num 0 \<or> f = NegZero"

section \<open>Integers are exact\<close>

lemma pow2_add: "0 \<le> a \<Longrightarrow> 0 \<le> b \<Longrightarrow> pow2 (a + b) = pow2 a * pow2 b"
  by (simp add: pow2_def nat_add_distrib power_add)

lemma pow2_neg: "pow2 (- k) = 1 / pow2 k"
  by (auto simp: pow2_def)

lemma pow2_pos [simp]: "0 < pow2 k"
  by (simp add: pow2_def)

lemma round_even_int [simp]: "round_even (of_int n) = n"
  by (simp add: round_even_def Let_def)

lemma bitlen_pos: "0 < bitlen n \<longleftrightarrow> 0 < n"
  using bitlen_nonneg [of n] bitlen_eq_zero_iff [of n] by linarith

lemma exponent_int:
  assumes "0 < n"
  shows "exponent (of_int n) = bitlen n - 1"
proof -
  have b: "2 ^ nat (bitlen n - 1) \<le> n" and pos: "0 < bitlen n"
    using bitlen_bounds [OF assms] assms by (auto simp: bitlen_pos)
  have "pow2 (bitlen n - 1) = of_int (2 ^ nat (bitlen n - 1))" using pos by (simp add: pow2_def)
  also have "\<dots> \<le> of_int n" using b of_int_le_iff [where 'a = rat] by blast
  finally have "\<not> of_int n < pow2 (bitlen n - 1)" by simp
  moreover have "bitlen 1 = 1" by (simp add: bitlen_def floorlog_def)
  ultimately show ?thesis by (simp add: exponent_def Let_def)
qed

lemma f64_pos_int:
  assumes "0 < n" and "n < 2 ^ 53"
  shows "f64_pos (of_int n) = of_int n"
proof -
  let ?e = "bitlen n - 1"
  have "bitlen n \<le> 53" using assms bitlen_le_iff_power [of n 53] by simp
  moreover have "0 < bitlen n" using assms by (simp add: bitlen_pos)
  ultimately have e: "0 \<le> ?e" "0 \<le> 52 - ?e" by simp_all
  let ?k = "2 ^ nat (52 - ?e) :: int"
  have k: "pow2 (52 - ?e) = of_int ?k" using e by (simp add: pow2_def)
  have "of_int n * pow2 (52 - ?e) = of_int (n * ?k)" by (simp only: k of_int_mult)
  then have "round_even (of_int n * pow2 (52 - ?e)) = n * ?k" by (metis round_even_int)
  moreover have "?e - 52 = - (52 - ?e)" by simp
  then have "pow2 (?e - 52) = 1 / of_int ?k" by (simp only: pow2_neg k)
  ultimately have "f64_pos (of_int n) = of_int (n * ?k) * (1 / of_int ?k)"
    unfolding f64_pos_def exponent_int [OF assms(1)] Let_def by (simp only:)
  then show ?thesis by simp
qed

lemma f64_int:
  assumes "\<bar>n\<bar> < 2 ^ 53"
  shows "f64 (of_int n) = of_int n"
proof (cases "n < 0")
  case True
  then have "f64_pos (of_int (- n)) = of_int (- n)" using assms by (intro f64_pos_int) auto
  with True show ?thesis by (simp add: f64_def)
next
  case False
  then show ?thesis using assms f64_pos_int [of n] by (simp add: f64_def)
qed

lemma f64_zero: "f64 0 = 0"
  by (simp add: f64_def)

section \<open>Durations in seconds\<close>

text \<open>
  \<open>d.Seconds()\<close> adds the float of the whole seconds and the fraction; both are truncated towards
  zero, like Go's \<open>/\<close> and \<open>%\<close>.
\<close>

definition Seconds :: "duration \<Rightarrow> rat" where
  "Seconds d =
     (let s = (if 0 \<le> d then d div second else - ((- d) div second)); n = d - s * second
      in f64_add (f64_of_int s) (f64_div (f64_of_int n) 1000000000))"

text \<open>\<open>int(d.Seconds())\<close>.\<close>

definition int_seconds :: "duration \<Rightarrow> int" where
  "int_seconds d = int_of_f64 (Seconds d)"

lemma int_seconds_whole:
  assumes "\<bar>n\<bar> < 2 ^ 53"
  shows "int_seconds (n * second) = n"
proof -
  have "(if 0 \<le> n * second then n * second div second else - ((- (n * second)) div second)) = n"
    by (simp add: second_def zero_le_mult_iff flip: mult_minus_left)
  then have "Seconds (n * second) = of_int n"
    using f64_int [OF assms] by (simp add: Seconds_def Let_def f64_add_def f64_div_def f64_of_int_def f64_zero)
  then show ?thesis by (simp add: int_seconds_def int_of_f64_def)
qed

lemma int_seconds_configured:
  assumes "\<bar>n\<bar> \<le> 9223372036"
  shows "seconds_duration n = n * second" "int_seconds (seconds_duration n) = n"
proof -
  show *: "seconds_duration n = n * second"
    unfolding seconds_duration_def
    by (rule wrap64_id) (use assms in \<open>auto simp: min_duration_def max_duration_def second_def abs_le_iff\<close>)
  show "int_seconds (seconds_duration n) = n"
    unfolding * by (rule int_seconds_whole) (use assms in simp)
qed

text \<open>\<open>unixSeconds\<close>: nanoseconds since 1970 as a 64-bit integer, then a float, over \<open>1e9\<close>.\<close>

definition unix_epoch :: gotime where
  "unix_epoch = 62135596800 * second"

definition UnixNano :: "gotime \<Rightarrow> int" where
  "UnixNano t = wrap64 (t - unix_epoch)"

definition unixSeconds :: "gotime \<Rightarrow> rat" where
  "unixSeconds t = f64_div (f64_of_int (UnixNano t)) 1000000000"

end
