(* ===== verification/Ticket_Domain.thy ===== *)
theory Ticket_Domain
  imports Go_Float
begin

text \<open>
  The domain layer, \<open>internal/domain/matchmaking\<close>: identifiers, statuses and their
  transition table, errors, configurations and rule sets, the domain events, and the
  \<open>Ticket\<close> aggregate with one function per method. A method that returns an error is a
  function into \<open>err + ticket\<close>; the ticket's lock is not modelled, each method is one step.
\<close>

section \<open>Identifiers, errors, players\<close>

type_synonym ticket_id = string
type_synonym player_id = string
type_synonym match_id = string
type_synonym config_name = string
type_synonym ruleset_name = string

text \<open>
  The sentinel errors. A wrapped error (\<open>fmt.Errorf("%w: ...", e)\<close>) is its sentinel: the code
  only ever asks \<open>errors.Is\<close>. \<open>ErrEngine\<close> wraps an error of the engine, \<open>ErrJoin\<close> is
  \<open>errors.Join\<close>, \<open>ErrContext\<close> is a cancelled or expired context.
\<close>

datatype flexi_err =
    FxUnknownTicket | FxDuplicateTicket | FxInvalidTicket | FxUnknownProposal
  | FxUnknownPlayer | FxInvalidRuleSet | FxOther string

datatype err =
    ErrTicketNotFound | ErrInvalidRequest | ErrTicketAlreadyExists | ErrConfigurationNotFound
  | ErrRuleSetNotFound | ErrInvalidTransition | ErrInvalidRuleSet | ErrProposalNotFound
  | ErrPlayerNotInTicket | ErrBackfillInProgress | ErrInvalidCommand
  | ErrTicketIDRequired | ErrTicketNeedsPlayer | ErrTicketIDEmpty | ErrNilTicket
  | ErrContext | ErrEngine flexi_err | ErrJoin err err

definition NewTicketID :: "string \<Rightarrow> err + ticket_id" where
  "NewTicketID v = (if TrimSpace v = [] then Inl ErrTicketIDEmpty else Inr v)"

text \<open>
  Players are the engine's type; the program reads the identifier, the team and which
  attributes are present, and converts attribute values.
\<close>

datatype attribute =
    AttrString string
  | AttrNumber float64
  | AttrStringList "string list"
  | AttrStringNumberMap "(string \<times> float64) list"
  | AttrUnknown

record player =
  pl_ID :: player_id
  pl_Team :: string
  pl_Attributes :: "(string \<times> attribute) list"
  pl_Latencies :: "(string \<times> int) list"

section \<open>Statuses\<close>

text \<open>
  \<open>TicketStatus\<close> is a string type with eight declared values; \<open>StatusOther\<close> is any other
  string, which a cast from the engine's status could carry.
\<close>

datatype ticket_status =
    StatusQueued | StatusSearching | StatusRequiresAcceptance | StatusPlacing
  | StatusCompleted | StatusFailed | StatusCancelled | StatusTimedOut
  | StatusOther string

fun status_string :: "ticket_status \<Rightarrow> string" where
  "status_string StatusQueued = ''QUEUED''"
| "status_string StatusSearching = ''SEARCHING''"
| "status_string StatusRequiresAcceptance = ''REQUIRES_ACCEPTANCE''"
| "status_string StatusPlacing = ''PLACING''"
| "status_string StatusCompleted = ''COMPLETED''"
| "status_string StatusFailed = ''FAILED''"
| "status_string StatusCancelled = ''CANCELLED''"
| "status_string StatusTimedOut = ''TIMED_OUT''"
| "status_string (StatusOther s) = s"

fun IsTerminal :: "ticket_status \<Rightarrow> bool" where
  "IsTerminal StatusCompleted = True"
| "IsTerminal StatusFailed = True"
| "IsTerminal StatusCancelled = True"
| "IsTerminal StatusTimedOut = True"
| "IsTerminal _ = False"

definition IsActive :: "ticket_status \<Rightarrow> bool" where
  "IsActive s \<longleftrightarrow> \<not> IsTerminal s"

fun allowedTransitions :: "ticket_status \<Rightarrow> ticket_status list" where
  "allowedTransitions StatusQueued =
     [StatusSearching, StatusRequiresAcceptance, StatusPlacing, StatusCancelled, StatusTimedOut]"
| "allowedTransitions StatusSearching =
     [StatusRequiresAcceptance, StatusPlacing, StatusCancelled, StatusTimedOut]"
| "allowedTransitions StatusRequiresAcceptance =
     [StatusSearching, StatusPlacing, StatusCancelled, StatusTimedOut, StatusFailed]"
| "allowedTransitions StatusPlacing = [StatusCompleted, StatusFailed]"
| "allowedTransitions _ = []"

definition canTransitionTo :: "ticket_status \<Rightarrow> ticket_status \<Rightarrow> bool" where
  "canTransitionTo s nxt \<longleftrightarrow> s = nxt \<or> nxt \<in> set (allowedTransitions s)"

section \<open>Configurations, rule sets, events\<close>

record configuration =
  cfg_Name :: config_name
  cfg_ARN :: string
  cfg_RuleSetName :: ruleset_name
  cfg_RuleSetARN :: string
  cfg_RequestTimeout :: duration
  cfg_AcceptanceRequired :: bool
  cfg_AcceptanceTimeout :: duration
  cfg_BackfillMode :: string
  cfg_FlexMatchMode :: string
  cfg_NotificationTargetIDs :: "string list"

record ruleset =
  rs_Name :: ruleset_name
  rs_ARN :: string
  rs_Body :: string

datatype acceptance_outcome = AcceptanceAccepted | AcceptanceRejected | AcceptanceTimedOut

fun outcome_string :: "acceptance_outcome \<Rightarrow> string" where
  "outcome_string AcceptanceAccepted = ''Accepted''"
| "outcome_string AcceptanceRejected = ''Rejected''"
| "outcome_string AcceptanceTimedOut = ''TimedOut''"

record rule_metric =
  rm_RuleName :: string
  rm_PassedCount :: int
  rm_FailedCount :: int

record base_event =
  ev_configName :: config_name
  ev_occurredAt :: gotime

text \<open>The eight event types; the last three carry the ticket's terminal status text.\<close>

datatype event =
    EventTicketSearchingStarted base_event ticket_id
  | EventTicketAssignedToProposal base_event match_id "ticket_id list" "rule_metric list" bool duration
  | EventPlayerAcceptanceRecorded base_event match_id "ticket_id list" "player_id \<rightharpoonup> bool"
  | EventAcceptanceCompleted base_event match_id "ticket_id list" acceptance_outcome
  | EventMatchmakingSucceeded base_event match_id "ticket_id list"
  | EventMatchmakingFailed base_event ticket_id match_id string string "rule_metric list"
  | EventMatchmakingTimedOut base_event ticket_id match_id string string "rule_metric list"
  | EventMatchmakingCancelled base_event ticket_id match_id string string "rule_metric list"

fun EventName :: "event \<Rightarrow> string" where
  "EventName (EventTicketSearchingStarted _ _) = ''MatchmakingSearching''"
| "EventName (EventTicketAssignedToProposal _ _ _ _ _ _) = ''PotentialMatchCreated''"
| "EventName (EventPlayerAcceptanceRecorded _ _ _ _) = ''AcceptMatch''"
| "EventName (EventAcceptanceCompleted _ _ _ _) = ''AcceptMatchCompleted''"
| "EventName (EventMatchmakingSucceeded _ _ _) = ''MatchmakingSucceeded''"
| "EventName (EventMatchmakingFailed _ _ _ _ _ _) = ''MatchmakingFailed''"
| "EventName (EventMatchmakingTimedOut _ _ _ _ _ _) = ''MatchmakingTimedOut''"
| "EventName (EventMatchmakingCancelled _ _ _ _ _ _) = ''MatchmakingCancelled''"

definition KnownEventNames :: "string list" where
  "KnownEventNames =
     [''MatchmakingSearching'', ''PotentialMatchCreated'', ''AcceptMatch'', ''AcceptMatchCompleted'',
      ''MatchmakingSucceeded'', ''MatchmakingFailed'', ''MatchmakingTimedOut'',
      ''MatchmakingCancelled'']"

fun event_base :: "event \<Rightarrow> base_event" where
  "event_base (EventTicketSearchingStarted b _) = b"
| "event_base (EventTicketAssignedToProposal b _ _ _ _ _) = b"
| "event_base (EventPlayerAcceptanceRecorded b _ _ _) = b"
| "event_base (EventAcceptanceCompleted b _ _ _) = b"
| "event_base (EventMatchmakingSucceeded b _ _) = b"
| "event_base (EventMatchmakingFailed b _ _ _ _ _) = b"
| "event_base (EventMatchmakingTimedOut b _ _ _ _ _) = b"
| "event_base (EventMatchmakingCancelled b _ _ _ _ _) = b"

text \<open>The tickets an event is about: \<open>TicketIDs()\<close> of a match event, \<open>TicketID()\<close> of a ticket's.\<close>

fun event_tickets :: "event \<Rightarrow> ticket_id list" where
  "event_tickets (EventTicketSearchingStarted _ i) = [i]"
| "event_tickets (EventTicketAssignedToProposal _ _ ids _ _ _) = ids"
| "event_tickets (EventPlayerAcceptanceRecorded _ _ ids _) = ids"
| "event_tickets (EventAcceptanceCompleted _ _ ids _) = ids"
| "event_tickets (EventMatchmakingSucceeded _ _ ids) = ids"
| "event_tickets (EventMatchmakingFailed _ i _ _ _ _) = [i]"
| "event_tickets (EventMatchmakingTimedOut _ i _ _ _ _) = [i]"
| "event_tickets (EventMatchmakingCancelled _ i _ _ _ _) = [i]"

definition NewPotentialMatchCreated ::
  "config_name \<Rightarrow> match_id \<Rightarrow> ticket_id list \<Rightarrow> rule_metric list \<Rightarrow> bool \<Rightarrow> duration \<Rightarrow> gotime \<Rightarrow> event" where
  "NewPotentialMatchCreated cfg m ids metrics required timeout now =
     EventTicketAssignedToProposal \<lparr>ev_configName = cfg, ev_occurredAt = now\<rparr> m ids metrics required timeout"

definition NewAcceptMatch ::
  "config_name \<Rightarrow> match_id \<Rightarrow> ticket_id list \<Rightarrow> (player_id \<rightharpoonup> bool) \<Rightarrow> gotime \<Rightarrow> event" where
  "NewAcceptMatch cfg m ids acceptances now =
     EventPlayerAcceptanceRecorded \<lparr>ev_configName = cfg, ev_occurredAt = now\<rparr> m ids acceptances"

definition NewAcceptMatchCompleted ::
  "config_name \<Rightarrow> match_id \<Rightarrow> ticket_id list \<Rightarrow> acceptance_outcome \<Rightarrow> gotime \<Rightarrow> event" where
  "NewAcceptMatchCompleted cfg m ids outcome now =
     EventAcceptanceCompleted \<lparr>ev_configName = cfg, ev_occurredAt = now\<rparr> m ids outcome"

definition NewMatchmakingSucceeded ::
  "config_name \<Rightarrow> match_id \<Rightarrow> ticket_id list \<Rightarrow> gotime \<Rightarrow> event" where
  "NewMatchmakingSucceeded cfg m ids now =
     EventMatchmakingSucceeded \<lparr>ev_configName = cfg, ev_occurredAt = now\<rparr> m ids"

end
