(* ===== verification/Ticket_Aggregate.thy ===== *)
theory Ticket_Aggregate
  imports Ticket_Domain
begin

text \<open>
  The \<open>Ticket\<close> aggregate of \<open>ticket.go\<close>: its fields, its constructors and its mutators,
  the operations as a datatype with one step each, and what every step keeps.
\<close>

section \<open>State\<close>

text \<open>
  A nil map is the empty map, the empty match id and the empty strings are as in the code, the
  zero instant is "no end time yet". \<open>tk_playerAcceptances\<close> is ranged over by the service, so
  it is an association list.
\<close>

record ticket =
  tk_id :: ticket_id
  tk_configurationName :: config_name
  tk_configurationARN :: string
  tk_players :: "player list"
  tk_isBackfill :: bool
  tk_gameSessionARN :: string
  tk_status :: ticket_status
  tk_statusReason :: string
  tk_statusMessage :: string
  tk_startTime :: gotime
  tk_endTime :: gotime
  tk_matchID :: match_id
  tk_cancelByAPI :: bool
  tk_playerTeams :: "player_id \<rightharpoonup> string"
  tk_playerAcceptances :: "(player_id \<times> bool) list"
  tk_ruleMetrics :: "rule_metric list"
  tk_events :: "event list"

section \<open>Operations\<close>

definition recordEvent :: "event \<Rightarrow> ticket \<Rightarrow> ticket" where
  [ticket_defs]: "recordEvent e t = t\<lparr>tk_events := tk_events t @ [e]\<rparr>"

definition base_of :: "ticket \<Rightarrow> gotime \<Rightarrow> base_event" where
  [ticket_defs]: "base_of t now = \<lparr>ev_configName = tk_configurationName t, ev_occurredAt = now\<rparr>"

definition newTicket ::
  "ticket_id \<Rightarrow> configuration \<Rightarrow> player list \<Rightarrow> gotime \<Rightarrow> err + ticket" where
  "newTicket i cfg players now =
     (if i = [] then Inl ErrTicketIDRequired
      else if players = [] then Inl ErrTicketNeedsPlayer
      else Inr (recordEvent
        (EventTicketSearchingStarted \<lparr>ev_configName = cfg_Name cfg, ev_occurredAt = now\<rparr> i)
        \<lparr>tk_id = i, tk_configurationName = cfg_Name cfg, tk_configurationARN = cfg_ARN cfg,
         tk_players = players, tk_isBackfill = False, tk_gameSessionARN = [],
         tk_status = StatusQueued, tk_statusReason = [], tk_statusMessage = [],
         tk_startTime = now, tk_endTime = 0, tk_matchID = [], tk_cancelByAPI = False,
         tk_playerTeams = Map.empty, tk_playerAcceptances = [], tk_ruleMetrics = [],
         tk_events = []\<rparr>))"

definition NewTicket ::
  "ticket_id \<Rightarrow> configuration \<Rightarrow> player list \<Rightarrow> gotime \<Rightarrow> err + ticket" where
  "NewTicket i cfg players now = newTicket i cfg players now"

fun requested_teams :: "player list \<Rightarrow> (player_id \<rightharpoonup> string) \<Rightarrow> (player_id \<rightharpoonup> string)" where
  "requested_teams [] m = m"
| "requested_teams (p # ps) m = requested_teams ps (m(pl_ID p \<mapsto> pl_Team p))"

definition NewBackfillTicket ::
  "ticket_id \<Rightarrow> configuration \<Rightarrow> player list \<Rightarrow> string \<Rightarrow> gotime \<Rightarrow> err + ticket" where
  "NewBackfillTicket i cfg players arn now =
     (case newTicket i cfg players now of
        Inl e \<Rightarrow> Inl e
      | Inr t \<Rightarrow> Inr (t\<lparr>tk_isBackfill := True, tk_gameSessionARN := arn,
                        tk_playerTeams := requested_teams players Map.empty\<rparr>))"

definition PlayerTeam :: "ticket \<Rightarrow> player_id \<Rightarrow> string" where
  "PlayerTeam t p = (case tk_playerTeams t p of None \<Rightarrow> [] | Some team \<Rightarrow> team)"

fun keep_own_teams ::
  "(player_id \<times> string) list \<Rightarrow> player list \<Rightarrow> (player_id \<rightharpoonup> string) \<Rightarrow> (player_id \<rightharpoonup> string)" where
  "keep_own_teams teams [] m = m"
| "keep_own_teams teams (p # ps) m =
     keep_own_teams teams ps
       (case map_of teams (pl_ID p) of None \<Rightarrow> m | Some team \<Rightarrow> m(pl_ID p \<mapsto> team))"

definition SetPlayerTeams :: "(player_id \<times> string) list \<Rightarrow> ticket \<Rightarrow> ticket" where
  [ticket_defs]: "SetPlayerTeams teams t =
     (if teams = [] then t
      else t\<lparr>tk_playerTeams := keep_own_teams teams (tk_players t) (tk_playerTeams t)\<rparr>)"

definition SetRuleMetrics :: "rule_metric list \<Rightarrow> ticket \<Rightarrow> ticket" where
  [ticket_defs]: "SetRuleMetrics metrics t = t\<lparr>tk_ruleMetrics := metrics\<rparr>"

definition PullEvents :: "ticket \<Rightarrow> event list \<times> ticket" where
  [ticket_defs]: "PullEvents t = (tk_events t, t\<lparr>tk_events := []\<rparr>)"

definition hasPlayer :: "ticket \<Rightarrow> player_id \<Rightarrow> bool" where
  "hasPlayer t p \<longleftrightarrow> p \<in> pl_ID ` set (tk_players t)"

definition transition :: "ticket_status \<Rightarrow> ticket \<Rightarrow> err + ticket" where
  [ticket_defs]: "transition nxt t =
     (if canTransitionTo (tk_status t) nxt then Inr (t\<lparr>tk_status := nxt\<rparr>)
      else Inl ErrInvalidTransition)"

definition AssignToProposal :: "match_id \<Rightarrow> gotime \<Rightarrow> ticket \<Rightarrow> err + ticket" where
  [ticket_defs]: "AssignToProposal m now t =
     (case transition StatusRequiresAcceptance t of
        Inl e \<Rightarrow> Inl e
      | Inr t \<Rightarrow> Inr (t\<lparr>tk_matchID := m, tk_statusReason := []\<rparr>))"

definition RecordPlayerAcceptance :: "player_id \<Rightarrow> bool \<Rightarrow> gotime \<Rightarrow> ticket \<Rightarrow> err + ticket" where
  [ticket_defs]: "RecordPlayerAcceptance p accepted now t =
     (if tk_status t \<noteq> StatusRequiresAcceptance then Inl ErrInvalidTransition
      else if \<not> hasPlayer t p then Inl ErrPlayerNotInTicket
      else Inr (t\<lparr>tk_playerAcceptances := AList.update p accepted (tk_playerAcceptances t)\<rparr>))"

definition ValidatePlayerAcceptances :: "player_id list \<Rightarrow> ticket \<Rightarrow> err option" where
  "ValidatePlayerAcceptances ids t =
     (if tk_status t \<noteq> StatusRequiresAcceptance then Some ErrInvalidTransition
      else if ids = [] then Some ErrInvalidRequest
      else if list_all (hasPlayer t) ids then None
      else Some ErrPlayerNotInTicket)"

fun record_all :: "player_id list \<Rightarrow> bool \<Rightarrow> (player_id \<times> bool) list \<Rightarrow> (player_id \<times> bool) list" where
  "record_all [] b m = m"
| "record_all (p # ps) b m = record_all ps b (AList.update p b m)"

definition RecordPlayerAcceptances :: "player_id list \<Rightarrow> bool \<Rightarrow> ticket \<Rightarrow> ticket" where
  [ticket_defs]: "RecordPlayerAcceptances ids accepted t =
     t\<lparr>tk_playerAcceptances := record_all ids accepted (tk_playerAcceptances t)\<rparr>"

definition MoveToPlacing :: "match_id \<Rightarrow> gotime \<Rightarrow> ticket \<Rightarrow> err + ticket" where
  [ticket_defs]: "MoveToPlacing m now t =
     (case transition StatusPlacing t of
        Inl e \<Rightarrow> Inl e
      | Inr t \<Rightarrow> Inr (if m \<noteq> [] then t\<lparr>tk_matchID := m\<rparr> else t))"

definition Complete :: "gotime \<Rightarrow> ticket \<Rightarrow> err + ticket" where
  [ticket_defs]: "Complete now t =
     (case transition StatusCompleted t of
        Inl e \<Rightarrow> Inl e
      | Inr t \<Rightarrow> Inr (t\<lparr>tk_endTime := now\<rparr>))"

definition MarkFailed :: "string \<Rightarrow> string \<Rightarrow> gotime \<Rightarrow> ticket \<Rightarrow> err + ticket" where
  [ticket_defs]: "MarkFailed reason message now t =
     (case transition StatusFailed t of
        Inl e \<Rightarrow> Inl e
      | Inr t \<Rightarrow> Inr (recordEvent
          (EventMatchmakingFailed (base_of t now) (tk_id t) (tk_matchID t) reason message (tk_ruleMetrics t))
          (t\<lparr>tk_endTime := now, tk_statusReason := reason, tk_statusMessage := message\<rparr>)))"

definition MarkTimedOut :: "string \<Rightarrow> string \<Rightarrow> gotime \<Rightarrow> ticket \<Rightarrow> err + ticket" where
  [ticket_defs]: "MarkTimedOut reason message now t =
     (case transition StatusTimedOut t of
        Inl e \<Rightarrow> Inl e
      | Inr t \<Rightarrow> Inr (recordEvent
          (EventMatchmakingTimedOut (base_of t now) (tk_id t) (tk_matchID t) reason message (tk_ruleMetrics t))
          (t\<lparr>tk_endTime := now, tk_statusReason := reason, tk_statusMessage := message\<rparr>)))"

text \<open>The three cancellations differ only in the status message.\<close>

definition mark_cancelled :: "string \<Rightarrow> gotime \<Rightarrow> ticket \<Rightarrow> err + ticket" where
  [ticket_defs]: "mark_cancelled message now t =
     (case transition StatusCancelled t of
        Inl e \<Rightarrow> Inl e
      | Inr t \<Rightarrow> Inr (recordEvent
          (EventMatchmakingCancelled (base_of t now) (tk_id t) (tk_matchID t) ''Cancelled'' message (tk_ruleMetrics t))
          (t\<lparr>tk_endTime := now, tk_statusReason := ''Cancelled'', tk_statusMessage := message\<rparr>)))"

definition MarkCancelledByAcceptanceFailure :: "gotime \<Rightarrow> ticket \<Rightarrow> err + ticket" where
  [ticket_defs]: "MarkCancelledByAcceptanceFailure =
     mark_cancelled ''A player failed to accept the proposed match''"

definition MarkCancelledBySuperseded :: "gotime \<Rightarrow> ticket \<Rightarrow> err + ticket" where
  [ticket_defs]: "MarkCancelledBySuperseded =
     mark_cancelled ''Superseded by a newer backfill request for the same game session''"

definition MarkCancelledByAPI :: "gotime \<Rightarrow> ticket \<Rightarrow> err + ticket" where
  [ticket_defs]: "MarkCancelledByAPI = mark_cancelled ''Matchmaking stopped by client''"

definition ReturnToSearching :: "string \<Rightarrow> gotime \<Rightarrow> ticket \<Rightarrow> err + ticket" where
  [ticket_defs]: "ReturnToSearching reason now t =
     (case transition StatusSearching t of
        Inl e \<Rightarrow> Inl e
      | Inr t \<Rightarrow> Inr (recordEvent
          (EventTicketSearchingStarted (base_of t now) (tk_id t))
          (t\<lparr>tk_matchID := [], tk_playerAcceptances := [],
             tk_playerTeams :=
               (if tk_isBackfill t then requested_teams (tk_players t) Map.empty else Map.empty),
             tk_statusReason := reason, tk_statusMessage := []\<rparr>)))"

definition RequestCancel :: "ticket \<Rightarrow> ticket" where
  [ticket_defs]: "RequestCancel t = t\<lparr>tk_cancelByAPI := True\<rparr>"

definition ObserveSearching :: "ticket \<Rightarrow> ticket" where
  [ticket_defs]: "ObserveSearching t = t\<lparr>tk_status := StatusSearching\<rparr>"

section \<open>The operations as steps\<close>

datatype ticket_op =
    OpSetPlayerTeams "(player_id \<times> string) list"
  | OpSetRuleMetrics "rule_metric list"
  | OpPullEvents
  | OpAssignToProposal match_id gotime
  | OpRecordPlayerAcceptance player_id bool gotime
  | OpRecordPlayerAcceptances "player_id list" bool
  | OpMoveToPlacing match_id gotime
  | OpComplete gotime
  | OpMarkFailed string string gotime
  | OpMarkTimedOut string string gotime
  | OpMarkCancelledByAcceptanceFailure gotime
  | OpMarkCancelledBySuperseded gotime
  | OpMarkCancelledByAPI gotime
  | OpReturnToSearching string gotime
  | OpRequestCancel
  | OpObserveSearching

fun ticket_step :: "ticket_op \<Rightarrow> ticket \<Rightarrow> err + ticket" where
  "ticket_step (OpSetPlayerTeams teams) t = Inr (SetPlayerTeams teams t)"
| "ticket_step (OpSetRuleMetrics ms) t = Inr (SetRuleMetrics ms t)"
| "ticket_step OpPullEvents t = Inr (snd (PullEvents t))"
| "ticket_step (OpAssignToProposal m now) t = AssignToProposal m now t"
| "ticket_step (OpRecordPlayerAcceptance p b now) t = RecordPlayerAcceptance p b now t"
| "ticket_step (OpRecordPlayerAcceptances ps b) t = Inr (RecordPlayerAcceptances ps b t)"
| "ticket_step (OpMoveToPlacing m now) t = MoveToPlacing m now t"
| "ticket_step (OpComplete now) t = Complete now t"
| "ticket_step (OpMarkFailed r m now) t = MarkFailed r m now t"
| "ticket_step (OpMarkTimedOut r m now) t = MarkTimedOut r m now t"
| "ticket_step (OpMarkCancelledByAcceptanceFailure now) t = MarkCancelledByAcceptanceFailure now t"
| "ticket_step (OpMarkCancelledBySuperseded now) t = MarkCancelledBySuperseded now t"
| "ticket_step (OpMarkCancelledByAPI now) t = MarkCancelledByAPI now t"
| "ticket_step (OpReturnToSearching r now) t = ReturnToSearching r now t"
| "ticket_step OpRequestCancel t = Inr (RequestCancel t)"
| "ticket_step OpObserveSearching t = Inr (ObserveSearching t)"

text \<open>A sequence of method calls: a call that fails leaves the ticket as it was.\<close>

fun run_ops :: "ticket_op list \<Rightarrow> ticket \<Rightarrow> ticket" where
  "run_ops [] t = t"
| "run_ops (op # ops) t =
     (case ticket_step op t of Inl e \<Rightarrow> run_ops ops t | Inr t' \<Rightarrow> run_ops ops t')"

text \<open>A ticket's life: a constructor, then any methods at instants after the zero time.\<close>

fun op_time :: "ticket_op \<Rightarrow> gotime option" where
  "op_time (OpComplete now) = Some now"
| "op_time (OpMarkFailed _ _ now) = Some now"
| "op_time (OpMarkTimedOut _ _ now) = Some now"
| "op_time (OpMarkCancelledByAcceptanceFailure now) = Some now"
| "op_time (OpMarkCancelledBySuperseded now) = Some now"
| "op_time (OpMarkCancelledByAPI now) = Some now"
| "op_time _ = None"

inductive ticket_reachable :: "ticket \<Rightarrow> bool" where
  made: "NewTicket i cfg ps now = Inr t \<Longrightarrow> ticket_reachable t"
| made_backfill: "NewBackfillTicket i cfg ps arn now = Inr t \<Longrightarrow> ticket_reachable t"
| stepped: "ticket_reachable t \<Longrightarrow> ticket_step op t = Inr t' \<Longrightarrow> op_time op \<noteq> Some 0 \<Longrightarrow>
     ticket_reachable t'"

end
