(* ===== verification/Ticket_Laws.thy ===== *)
theory Ticket_Laws
  imports Ticket_Aggregate
begin

text \<open>
  What every method of the ticket keeps: the transition table, the fields fixed at construction,
  the roster bounds of the team map, the end time of a terminal ticket, and which events a
  transition records.
\<close>

section \<open>The transition table\<close>

lemma canTransitionTo_refl [simp]: "canTransitionTo s s"
  by (simp add: canTransitionTo_def)

lemma terminal_no_exit: "IsTerminal s \<Longrightarrow> canTransitionTo s s' \<longleftrightarrow> s' = s"
  by (cases s) (auto simp: canTransitionTo_def)

lemma transition_Inr:
  "transition nxt t = Inr t' \<longleftrightarrow> canTransitionTo (tk_status t) nxt \<and> t' = t\<lparr>tk_status := nxt\<rparr>"
  by (auto simp: transition_def)

lemma transition_Inl:
  "transition nxt t = Inl e \<longleftrightarrow> \<not> canTransitionTo (tk_status t) nxt \<and> e = ErrInvalidTransition"
  by (auto simp: transition_def)

lemmas transition_iff = transition_Inr transition_Inl

section \<open>Fields fixed at construction\<close>

definition same_ident :: "ticket \<Rightarrow> ticket \<Rightarrow> bool" where
  "same_ident t t' \<longleftrightarrow>
     tk_id t' = tk_id t \<and> tk_configurationName t' = tk_configurationName t \<and>
     tk_configurationARN t' = tk_configurationARN t \<and> tk_players t' = tk_players t \<and>
     tk_isBackfill t' = tk_isBackfill t \<and> tk_gameSessionARN t' = tk_gameSessionARN t \<and>
     tk_startTime t' = tk_startTime t"

lemma same_ident_refl [simp]: "same_ident t t"
  by (simp add: same_ident_def)

lemma same_ident_trans: "same_ident t u \<Longrightarrow> same_ident u v \<Longrightarrow> same_ident t v"
  by (simp add: same_ident_def)

lemma same_identD:
  assumes "same_ident t t'"
  shows "tk_id t' = tk_id t" "tk_configurationName t' = tk_configurationName t"
    "tk_players t' = tk_players t" "tk_isBackfill t' = tk_isBackfill t"
    "tk_gameSessionARN t' = tk_gameSessionARN t"
  using assms by (simp_all add: same_ident_def)

lemma ticket_step_ident: "ticket_step op t = Inr t' \<Longrightarrow> same_ident t t'"
  by (cases op) (auto simp: ticket_defs same_ident_def split: sum.splits if_splits)

section \<open>Status after a step\<close>

text \<open>The status a method leads to, \<open>None\<close> for one that does not touch it.\<close>

fun op_status :: "ticket_op \<Rightarrow> ticket_status option" where
  "op_status (OpAssignToProposal _ _) = Some StatusRequiresAcceptance"
| "op_status (OpMoveToPlacing _ _) = Some StatusPlacing"
| "op_status (OpComplete _) = Some StatusCompleted"
| "op_status (OpMarkFailed _ _ _) = Some StatusFailed"
| "op_status (OpMarkTimedOut _ _ _) = Some StatusTimedOut"
| "op_status (OpMarkCancelledByAcceptanceFailure _) = Some StatusCancelled"
| "op_status (OpMarkCancelledBySuperseded _) = Some StatusCancelled"
| "op_status (OpMarkCancelledByAPI _) = Some StatusCancelled"
| "op_status (OpReturnToSearching _ _) = Some StatusSearching"
| "op_status OpObserveSearching = Some StatusSearching"
| "op_status _ = None"

lemma ticket_step_status:
  assumes "ticket_step op t = Inr t'"
  shows "tk_status t' = (case op_status op of None \<Rightarrow> tk_status t | Some s \<Rightarrow> s)"
  using assms by (cases op) (auto simp: ticket_defs split: sum.splits if_splits)

lemma ticket_step_guard:
  assumes "ticket_step op t = Inr t'" and "op \<noteq> OpObserveSearching"
  shows "canTransitionTo (tk_status t) (tk_status t')"
  using assms by (cases op) (auto simp: ticket_defs split: sum.splits if_splits)

lemma ticket_step_ok_iff:
  assumes "op_status op = Some s" and "op \<noteq> OpObserveSearching"
  shows "is_ok (ticket_step op t) \<longleftrightarrow> canTransitionTo (tk_status t) s"
  using assms by (cases op) (auto simp: ticket_defs split: sum.splits)

lemma ticket_step_error:
  assumes "ticket_step op t = Inl e" and "op_status op = Some s"
  shows "e = ErrInvalidTransition"
  using assms by (cases op) (auto simp: ticket_defs split: sum.splits if_splits)

section \<open>Team maps\<close>

abbreviation roster :: "ticket \<Rightarrow> player_id set" where
  "roster t \<equiv> pl_ID ` set (tk_players t)"

lemma dom_requested_teams: "dom (requested_teams ps m) = dom m \<union> pl_ID ` set ps"
  by (induction ps arbitrary: m) auto

lemma dom_keep_own_teams: "dom (keep_own_teams teams ps m) \<subseteq> dom m \<union> pl_ID ` set ps"
proof (induction ps arbitrary: m)
  case (Cons p ps)
  show ?case
    using Cons.IH [of "case map_of teams (pl_ID p) of None \<Rightarrow> m | Some team \<Rightarrow> m(pl_ID p \<mapsto> team)"]
    by (auto split: option.splits)
qed simp

lemma keep_own_teams_apply:
  "keep_own_teams teams ps m p =
     (if p \<in> pl_ID ` set ps \<and> map_of teams p \<noteq> None then map_of teams p else m p)"
proof (induction ps arbitrary: m)
  case (Cons q ps)
  then show ?case by (auto split: option.splits)
qed simp

section \<open>Events\<close>

text \<open>The status an event announces.\<close>

fun announces :: "event \<Rightarrow> ticket_status \<Rightarrow> bool" where
  "announces (EventTicketSearchingStarted _ _) s \<longleftrightarrow> s = StatusSearching"
| "announces (EventMatchmakingFailed _ _ _ _ _ _) s \<longleftrightarrow> s = StatusFailed"
| "announces (EventMatchmakingTimedOut _ _ _ _ _ _) s \<longleftrightarrow> s = StatusTimedOut"
| "announces (EventMatchmakingCancelled _ _ _ _ _ _) s \<longleftrightarrow> s = StatusCancelled"
| "announces _ s \<longleftrightarrow> False"

text \<open>The methods that record an event.\<close>

fun op_records :: "ticket_op \<Rightarrow> bool" where
  "op_records (OpMarkFailed _ _ _) = True"
| "op_records (OpMarkTimedOut _ _ _) = True"
| "op_records (OpMarkCancelledByAcceptanceFailure _) = True"
| "op_records (OpMarkCancelledBySuperseded _) = True"
| "op_records (OpMarkCancelledByAPI _) = True"
| "op_records (OpReturnToSearching _ _) = True"
| "op_records _ = False"

lemma ticket_step_events:
  assumes "ticket_step op t = Inr t'" and "op \<noteq> OpPullEvents"
  shows "\<exists>es. tk_events t' = tk_events t @ es \<and> length es = (if op_records op then 1 else 0) \<and>
    (\<forall>e\<in>set es. announces e (tk_status t') \<and> event_tickets e = [tk_id t] \<and>
       ev_configName (event_base e) = tk_configurationName t)"
  using assms by (cases op) (auto simp: ticket_defs split: sum.splits if_splits)

section \<open>The invariant of a ticket\<close>

definition ticket_wf :: "ticket \<Rightarrow> bool" where
  "ticket_wf t \<longleftrightarrow>
     tk_id t \<noteq> [] \<and> tk_players t \<noteq> [] \<and> dom (tk_playerTeams t) \<subseteq> roster t \<and>
     (IsTerminal (tk_status t) \<longrightarrow> \<not> is_zero_time (tk_endTime t)) \<and>
     (tk_isBackfill t \<longrightarrow> roster t \<subseteq> dom (tk_playerTeams t))"

lemma ticket_wf_new:
  "NewTicket i cfg ps now = Inr t \<Longrightarrow> ticket_wf t"
  "NewBackfillTicket i cfg ps arn now = Inr t \<Longrightarrow> ticket_wf t"
  by (auto simp: NewTicket_def NewBackfillTicket_def newTicket_def recordEvent_def ticket_wf_def
      dom_requested_teams split: if_splits simp del: dom_eq_empty_conv del: subsetI)

lemma keep_own_teams_dom_ge: "dom m \<subseteq> dom (keep_own_teams teams ps m)"
  by (auto simp: keep_own_teams_apply dom_def)

lemma ticket_wf_teams:
  assumes "ticket_wf t"
  shows "ticket_wf (SetPlayerTeams teams t)"
proof -
  have "dom (keep_own_teams teams (tk_players t) (tk_playerTeams t)) \<subseteq> roster t"
    using assms dom_keep_own_teams [of teams "tk_players t" "tk_playerTeams t"]
    by (auto simp: ticket_wf_def)
  moreover have "dom (tk_playerTeams t) \<subseteq> dom (keep_own_teams teams (tk_players t) (tk_playerTeams t))"
    by (rule keep_own_teams_dom_ge)
  ultimately show ?thesis using assms unfolding SetPlayerTeams_def ticket_wf_def
    by simp (blast intro: subset_trans)
qed

lemma ticket_step_teams:
  assumes "ticket_step op t = Inr t'"
  shows "(\<exists>teams. t' = SetPlayerTeams teams t) \<or> tk_playerTeams t' = tk_playerTeams t \<or>
    tk_playerTeams t' =
      (if tk_isBackfill t then requested_teams (tk_players t) Map.empty else Map.empty)"
proof (cases "\<exists>teams. op = OpSetPlayerTeams teams")
  case False
  with assms have "tk_playerTeams t' = tk_playerTeams t \<or> tk_playerTeams t' =
      (if tk_isBackfill t then requested_teams (tk_players t) Map.empty else Map.empty)"
    by (cases op) (auto simp: ticket_defs split: sum.splits if_splits)
  then show ?thesis by blast
next
  case True
  with assms show ?thesis by (metis ticket_step.simps(1) sum.inject(2))
qed

lemma ticket_step_endTime:
  assumes "ticket_step op t = Inr t'"
  shows "tk_endTime t' = (case op_time op of None \<Rightarrow> tk_endTime t | Some now \<Rightarrow> now)"
  using assms by (cases op) (auto simp: ticket_defs split: sum.splits if_splits)

lemma untimed_not_terminal:
  "op_time op = None \<Longrightarrow> op_status op = Some s \<Longrightarrow> \<not> IsTerminal s"
  by (cases op) auto

lemma ticket_wf_step:
  assumes wf: "ticket_wf t" and step: "ticket_step op t = Inr t'" and time: "op_time op \<noteq> Some 0"
  shows "ticket_wf t'"
proof -
  note same = same_identD [OF ticket_step_ident [OF step]]
  have "dom (tk_playerTeams t') \<subseteq> roster t \<and>
    (tk_isBackfill t \<longrightarrow> roster t \<subseteq> dom (tk_playerTeams t'))"
    using ticket_step_teams [OF step]
  proof (elim disjE exE)
    fix teams assume "t' = SetPlayerTeams teams t"
    with ticket_wf_teams [OF wf, of teams] same show ?thesis by (simp add: ticket_wf_def)
  qed (use wf in \<open>simp_all add: ticket_wf_def dom_requested_teams\<close>)
  moreover have "\<not> is_zero_time (tk_endTime t')" if "IsTerminal (tk_status t')"
    using that wf time ticket_step_status [OF step] ticket_step_endTime [OF step]
      untimed_not_terminal [of op]
    by (auto simp: ticket_wf_def is_zero_time_def split: option.splits)
  ultimately show ?thesis using wf same by (simp add: ticket_wf_def)
qed

lemma ticket_reachable_wf: "ticket_reachable t \<Longrightarrow> ticket_wf t"
  by (induction rule: ticket_reachable.induct) (auto intro: ticket_wf_new ticket_wf_step)

end
