(* ===== verification/Proposal_Tracker.thy ===== *)
theory Proposal_Tracker
  imports Ticket_Domain "HOL-Library.Multiset"
begin

text \<open>
  The proposal tracker of \<open>tick.go\<close>: match identifiers by roster key, rosters by match
  identifier, and when the engine created each proposal. The interface the tick relies on is the
  locale \<open>roster_registry\<close>, interpreted on the code's operations.
\<close>

section \<open>State and operations\<close>

text \<open>
  \<open>byMatch\<close> is ranged over, so it is an association list; a missing entry of \<open>createdAt\<close> reads
  as the zero instant, so the map is a function that is zero almost everywhere.
\<close>

record tracker =
  tr_matchIDs :: "string \<rightharpoonup> match_id"
  tr_byMatch :: "(match_id \<times> ticket_id list) list"
  tr_createdAt :: "match_id \<Rightarrow> gotime"

record tracked_proposal =
  tp_ids :: "ticket_id list"
  tp_createdAt :: gotime

definition newProposalTracker :: tracker where
  "newProposalTracker = \<lparr>tr_matchIDs = Map.empty, tr_byMatch = [], tr_createdAt = (\<lambda>_. 0)\<rparr>"

definition proposalKey :: "ticket_id list \<Rightarrow> string" where
  "proposalKey ids = join ''|'' (sort ids)"

definition known :: "ticket_id list \<Rightarrow> tracker \<Rightarrow> match_id option" where
  "known ids pt = tr_matchIDs pt (proposalKey ids)"

definition assignAt :: "ticket_id list \<Rightarrow> match_id \<Rightarrow> gotime \<Rightarrow> tracker \<Rightarrow> tracker" where
  "assignAt ids m created pt =
     \<lparr>tr_matchIDs = (tr_matchIDs pt)(proposalKey ids \<mapsto> m),
      tr_byMatch = AList.update m ids (tr_byMatch pt),
      tr_createdAt = (tr_createdAt pt)(m := created)\<rparr>"

definition assign :: "ticket_id list \<Rightarrow> match_id \<Rightarrow> tracker \<Rightarrow> tracker" where
  "assign ids m pt = assignAt ids m 0 pt"

definition proposals :: "tracker \<Rightarrow> (match_id \<times> tracked_proposal) list" where
  "proposals pt =
     [(m, \<lparr>tp_ids = ids, tp_createdAt = tr_createdAt pt m\<rparr>).
        (m, ids) \<leftarrow> tr_byMatch pt, \<not> is_zero_time (tr_createdAt pt m)]"

definition ticketsFor :: "match_id \<Rightarrow> tracker \<Rightarrow> ticket_id list option" where
  "ticketsFor m pt = map_of (tr_byMatch pt) m"

definition forget :: "match_id \<Rightarrow> tracker \<Rightarrow> tracker" where
  "forget m pt =
     (case map_of (tr_byMatch pt) m of
        None \<Rightarrow> pt
      | Some ids \<Rightarrow>
          \<lparr>tr_matchIDs = (tr_matchIDs pt)(proposalKey ids := None),
           tr_byMatch = AList.delete m (tr_byMatch pt),
           tr_createdAt = (tr_createdAt pt)(m := 0)\<rparr>)"

section \<open>Roster keys\<close>

text \<open>
  A key identifies a roster up to order, for rosters of identifiers without the separator; the
  wire adapter's identifier pattern excludes it.
\<close>

definition separable :: "ticket_id list \<Rightarrow> bool" where
  "separable ids \<longleftrightarrow> ids \<noteq> [] \<and> (\<forall>i\<in>set ids. CHR ''|'' \<notin> set i)"

lemma sort_eq_iff_mset: "sort xs = sort ys \<longleftrightarrow> mset xs = mset ys" for xs :: "'a::linorder list"
proof
  assume "sort xs = sort ys"
  then have "mset (sort xs) = mset (sort ys)" by simp
  then show "mset xs = mset ys" by simp
next
  assume "mset xs = mset ys"
  then show "sort xs = sort ys" by (intro properties_for_sort) simp_all
qed

lemma proposalKey_cong: "mset ids = mset ids' \<Longrightarrow> proposalKey ids = proposalKey ids'"
  unfolding proposalKey_def by (simp only: sort_eq_iff_mset [symmetric])

lemma proposalKey_iff:
  assumes "separable ids" and "separable ids'"
  shows "proposalKey ids = proposalKey ids' \<longleftrightarrow> mset ids = mset ids'"
proof
  assume eq: "proposalKey ids = proposalKey ids'"
  have ne: "sort xs \<noteq> []" if "xs \<noteq> []" for xs :: "ticket_id list"
    using that by (metis mset_sort mset_zero_iff)
  have "sort ids = sort ids'"
    by (rule join_inj [of _ "CHR ''|''"]) (use assms eq ne in \<open>auto simp: separable_def proposalKey_def\<close>)
  then show "mset ids = mset ids'" by (simp add: sort_eq_iff_mset)
qed (rule proposalKey_cong)

section \<open>Well-formed trackers\<close>

text \<open>
  Every key points at a match whose recorded roster has that key. (The converse can fail: a
  match identifier whose key was taken over by a newer proposal keeps its roster entry.)
\<close>

definition tracker_wf :: "tracker \<Rightarrow> bool" where
  "tracker_wf pt \<longleftrightarrow>
     distinct (map fst (tr_byMatch pt)) \<and>
     (\<forall>k m. tr_matchIDs pt k = Some m \<longrightarrow>
        (\<exists>ids. ticketsFor m pt = Some ids \<and> proposalKey ids = k))"

lemma ticketsFor_assignAt:
  "ticketsFor m' (assignAt ids m created pt) = (if m' = m then Some ids else ticketsFor m' pt)"
  by (simp add: ticketsFor_def assignAt_def gomap_simps)

lemma ticketsFor_forget:
  "ticketsFor m' (forget m pt) = (if m' = m then None else ticketsFor m' pt)"
  by (auto simp: ticketsFor_def forget_def gomap_simps split: option.splits)

lemma known_assignAt:
  "known ids' (assignAt ids m created pt) =
     (if proposalKey ids' = proposalKey ids then Some m else known ids' pt)"
  by (simp add: known_def assignAt_def)

lemma matchIDs_assignAt:
  "tr_matchIDs (assignAt ids m created pt) = (tr_matchIDs pt)(proposalKey ids \<mapsto> m)"
  by (simp add: assignAt_def)

lemma matchIDs_forget:
  "tr_matchIDs (forget m pt) =
     (case ticketsFor m pt of
        None \<Rightarrow> tr_matchIDs pt
      | Some ids \<Rightarrow> (tr_matchIDs pt)(proposalKey ids := None))"
  by (simp add: forget_def ticketsFor_def split: option.splits)

lemma known_forget_eq:
  assumes "ticketsFor m pt = Some ids"
  shows "known ids' (forget m pt) =
    (if proposalKey ids' = proposalKey ids then None else known ids' pt)"
  using assms by (simp add: known_def matchIDs_forget)

lemma distinct_byMatch_ops:
  assumes "distinct (map fst (tr_byMatch pt))"
  shows "distinct (map fst (tr_byMatch (assignAt ids m created pt)))"
    and "distinct (map fst (tr_byMatch (forget m pt)))"
  using assms by (auto simp: assignAt_def forget_def gomap_distinct split: option.splits)

lemma tracker_wf_new: "tracker_wf newProposalTracker"
  by (simp add: tracker_wf_def newProposalTracker_def)

lemma tracker_wf_assignAt:
  assumes "tracker_wf pt" and "ticketsFor m pt = None"
  shows "tracker_wf (assignAt ids m created pt)"
  using assms unfolding tracker_wf_def
  by (force simp: distinct_byMatch_ops ticketsFor_assignAt matchIDs_assignAt)

lemma tracker_wf_forget:
  assumes "tracker_wf pt"
  shows "tracker_wf (forget m pt)"
  using assms unfolding tracker_wf_def
  by (force simp: distinct_byMatch_ops ticketsFor_forget matchIDs_forget split: option.splits if_splits)

lemma known_roster:
  assumes "tracker_wf pt" and "known ids pt = Some m"
  shows "\<exists>ids'. ticketsFor m pt = Some ids' \<and> proposalKey ids' = proposalKey ids"
  using assms by (auto simp: tracker_wf_def known_def)

section \<open>The interface\<close>

text \<open>
  What the tick needs of a registry of rosters: an assigned roster is found again, in any order,
  until its match is forgotten; the other rosters are not disturbed.
\<close>

locale roster_registry =
  fixes new :: 'r
    and enter :: "ticket_id list \<Rightarrow> match_id \<Rightarrow> gotime \<Rightarrow> 'r \<Rightarrow> 'r"
    and drop_match :: "match_id \<Rightarrow> 'r \<Rightarrow> 'r"
    and find_match :: "ticket_id list \<Rightarrow> 'r \<Rightarrow> match_id option"
    and roster_of :: "match_id \<Rightarrow> 'r \<Rightarrow> ticket_id list option"
    and wf :: "'r \<Rightarrow> bool"
  assumes wf_new: "wf new"
    and wf_enter: "wf r \<Longrightarrow> roster_of m r = None \<Longrightarrow> wf (enter ids m c r)"
    and wf_drop: "wf r \<Longrightarrow> wf (drop_match m r)"
    and roster_enter: "roster_of m' (enter ids m c r) = (if m' = m then Some ids else roster_of m' r)"
    and roster_drop: "roster_of m' (drop_match m r) = (if m' = m then None else roster_of m' r)"
    and find_enter: "separable ids \<Longrightarrow> separable ids' \<Longrightarrow>
      find_match ids' (enter ids m c r) = (if mset ids' = mset ids then Some m else find_match ids' r)"
    and find_drop: "wf r \<Longrightarrow> roster_of m r = Some ids \<Longrightarrow> separable ids \<Longrightarrow> separable ids' \<Longrightarrow>
      find_match ids' (drop_match m r) = (if mset ids' = mset ids then None else find_match ids' r)"
begin

lemma found_after_enter:
  assumes "separable ids" and "mset ids' = mset ids"
  shows "find_match ids' (enter ids m c r) = Some m"
proof -
  have "separable ids'" using assms mset_eq_setD [OF assms(2)] by (auto simp: separable_def)
  with assms show ?thesis by (simp add: find_enter)
qed

lemma fresh_after_drop:
  assumes "wf r" and "roster_of m r = None" and "separable ids" and "mset ids' = mset ids"
  shows "find_match ids' (drop_match m (enter ids m c r)) = None"
    and "roster_of m (drop_match m (enter ids m c r)) = None"
proof -
  have "separable ids'" using assms mset_eq_setD [OF assms(4)] by (auto simp: separable_def)
  with assms show "find_match ids' (drop_match m (enter ids m c r)) = None"
    by (simp add: find_drop wf_enter roster_enter)
qed (simp add: roster_drop)

lemma others_undisturbed:
  assumes "wf r" and "roster_of m r = None" and "separable ids" and "separable ids'"
    and "mset ids' \<noteq> mset ids"
  shows "find_match ids' (drop_match m (enter ids m c r)) = find_match ids' r"
  using assms by (simp add: find_drop find_enter wf_enter roster_enter)

end

interpretation pt: roster_registry newProposalTracker assignAt forget known ticketsFor tracker_wf
  by unfold_locales
     (auto simp: tracker_wf_new tracker_wf_assignAt tracker_wf_forget ticketsFor_assignAt
       ticketsFor_forget known_assignAt known_forget_eq proposalKey_iff)

end
