(* ===== verification/Ports.thy ===== *)
theory Ports
  imports Ticket_Aggregate "HOL-Library.Word"
begin

text \<open>
  What the application layer depends on: the matchmaking engine (package flexi, a parameter of
  the model), the identifier generators of \<open>internal/app/defaults/idgen\<close>, and the parameters
  of one call.
\<close>

section \<open>The matchmaking engine\<close>

text \<open>
  The engine is not part of the repository. Its state is the type variable \<open>'e\<close> (the clock it is
  built with is part of that state), its operations are the fields of \<open>'e flexi\<close>: the ones that
  change it return the new state, with an error or \<open>None\<close>. Its status constants are those of the
  domain, which is what the cast \<open>mm.TicketStatus(status)\<close> of the tick relies on.
\<close>

record flexi_ticket =
  ft_ID :: string
  ft_Players :: "player list"

record flexi_match =
  fm_TicketIDs :: "string list"
  fm_Teams :: "(string \<times> player list) list"
  fm_RuleEvaluationMetrics :: "rule_metric list"

record flexi_proposal =
  fp_TicketIDs :: "string list"
  fp_Teams :: "(string \<times> player list) list"
  fp_RuleEvaluationMetrics :: "rule_metric list"
  fp_CreatedAt :: gotime

record 'e flexi =
  fx_Enqueue :: "flexi_ticket \<Rightarrow> 'e \<Rightarrow> flexi_err option \<times> 'e"
  fx_EnqueueBackfill :: "flexi_ticket \<Rightarrow> 'e \<Rightarrow> flexi_err option \<times> 'e"
  fx_Cancel :: "string \<Rightarrow> 'e \<Rightarrow> flexi_err option \<times> 'e"
  fx_Evict :: "string \<Rightarrow> 'e \<Rightarrow> flexi_err option \<times> 'e"
  fx_Accept :: "string \<Rightarrow> string \<Rightarrow> 'e \<Rightarrow> flexi_err option \<times> 'e"
  fx_Reject :: "string \<Rightarrow> string \<Rightarrow> 'e \<Rightarrow> flexi_err option \<times> 'e"
  fx_MarkCompleted :: "string \<Rightarrow> 'e \<Rightarrow> flexi_err option \<times> 'e"
  fx_Tick :: "'e \<Rightarrow> (flexi_err + flexi_match list) \<times> 'e"
  fx_PendingAcceptances :: "'e \<Rightarrow> flexi_proposal list"
  fx_Status :: "string \<Rightarrow> 'e \<Rightarrow> flexi_err + ticket_status"
  fx_StatusReason :: "string \<Rightarrow> 'e \<Rightarrow> string option"
  fx_RuleMetrics :: "string \<Rightarrow> 'e \<Rightarrow> rule_metric list option"

text \<open>
  The other inputs the code does not determine: \<open>js_PlayerAttributes\<close> is what
  \<open>encoding/json\<close> decodes of a rule set body, the name and the raw default of each entry of
  \<open>playerAttributes\<close>, or \<open>None\<close> for a body it refuses; \<open>go_range_proposals\<close> and
  \<open>go_range_tickets\<close> give the order in which \<open>range\<close> visits the keys of a map, which Go
  leaves open.
\<close>

record 'e deps = "'e flexi" +
  js_PlayerAttributes :: "string \<Rightarrow> (string \<times> string) list option"
  go_range_proposals :: "match_id list \<Rightarrow> match_id list"
  go_range_tickets :: "ticket_id list \<Rightarrow> ticket_id list"

text \<open>What Go promises of \<open>range\<close>: every key once.\<close>

definition range_ok :: "'e deps \<Rightarrow> bool" where
  "range_ok d \<longleftrightarrow>
     (\<forall>xs. set (go_range_proposals d xs) = set xs \<and> distinct (go_range_proposals d xs) = distinct xs) \<and>
     (\<forall>xs. set (go_range_tickets d xs) = set xs \<and> distinct (go_range_tickets d xs) = distinct xs)"

section \<open>Identifier generators\<close>

text \<open>
  A generator is its sequence of identifiers and the number of calls so far. \<open>sequence\<close> is
  \<open>idgen.NewSequence\<close>: a prefix and a 64-bit counter, incremented before use, in decimal.
\<close>

record idgen =
  ig_seq :: "nat \<Rightarrow> string"
  ig_calls :: nat

definition NewID :: "idgen \<Rightarrow> string \<times> idgen" where
  "NewID g = (ig_seq g (ig_calls g), g\<lparr>ig_calls := Suc (ig_calls g)\<rparr>)"

definition sequence_id :: "string \<Rightarrow> nat \<Rightarrow> string" where
  "sequence_id prefix n = prefix @ nat_digits (unat (of_nat (Suc n) :: 64 word))"

definition NewSequence :: "string \<Rightarrow> idgen" where
  "NewSequence prefix = \<lparr>ig_seq = sequence_id prefix, ig_calls = 0\<rparr>"

fun new_ids :: "nat \<Rightarrow> idgen \<Rightarrow> string list \<times> idgen" where
  "new_ids 0 g = ([], g)"
| "new_ids (Suc k) g =
     (let (i, g) = NewID g; (rest, g) = new_ids k g in (i # rest, g))"

text \<open>The interface: successive identifiers are pairwise distinct as long as the supply lasts.\<close>

locale id_supply =
  fixes ids :: "nat \<Rightarrow> string" and amount :: nat
  assumes distinct_ids: "i < amount \<Longrightarrow> j < amount \<Longrightarrow> ids i = ids j \<Longrightarrow> i = j"
begin

lemma new_ids_distinct:
  assumes "ig_seq g = ids" and "ig_calls g + k \<le> amount"
  shows "distinct (fst (new_ids k g)) \<and>
    set (fst (new_ids k g)) = ids ` {ig_calls g ..< ig_calls g + k}"
  using assms
proof (induction k arbitrary: g)
  case (Suc k)
  let ?g = "g\<lparr>ig_calls := Suc (ig_calls g)\<rparr>"
  have IH: "distinct (fst (new_ids k ?g))"
    "set (fst (new_ids k ?g)) = ids ` {Suc (ig_calls g) ..< Suc (ig_calls g + k)}"
    using Suc.IH [of ?g] Suc.prems by auto
  have "ids (ig_calls g) \<notin> ids ` {Suc (ig_calls g) ..< Suc (ig_calls g + k)}"
  proof
    assume "ids (ig_calls g) \<in> ids ` {Suc (ig_calls g) ..< Suc (ig_calls g + k)}"
    then obtain j where "ids (ig_calls g) = ids j" "ig_calls g < j" "j < ig_calls g + Suc k" by auto
    with Suc.prems distinct_ids [of "ig_calls g" j] show False by simp
  qed
  moreover have "{ig_calls g ..< ig_calls g + Suc k} =
      insert (ig_calls g) {Suc (ig_calls g) ..< Suc (ig_calls g + k)}"
    by auto
  ultimately show ?case
    using IH Suc.prems by (cases "new_ids k ?g") (simp add: NewID_def)
qed simp

end

lemma digit_inj: "digit m = digit n \<longleftrightarrow> m mod 10 = n mod 10"
proof
  assume "digit m = digit n"
  then have "of_char (digit m) = (of_char (digit n) :: nat)" by simp
  then show "m mod 10 = n mod 10" by simp
qed simp

lemma nat_digits_nonempty: "nat_digits n \<noteq> []" "[] \<noteq> nat_digits n"
  by (subst nat_digits.simps, simp)+

lemma nat_digits_inj: "nat_digits m = nat_digits n \<Longrightarrow> m = n"
proof (induction m arbitrary: n rule: nat_digits.induct)
  case (1 m)
  have dm: "nat_digits m = (if m < 10 then [digit m] else nat_digits (m div 10) @ [digit m])"
    and dn: "nat_digits n = (if n < 10 then [digit n] else nat_digits (n div 10) @ [digit n])"
    by (subst nat_digits.simps, simp)+
  have last: "m mod 10 = n mod 10"
    using 1(2) unfolding dm dn digit_inj [symmetric] by (auto split: if_splits)
  have "m div 10 = n div 10"
    using 1 nat_digits_nonempty unfolding dm dn by (auto split: if_splits)
  with last show ?case by (metis div_mult_mod_eq)
qed

lemma sequence_id_inj:
  assumes "i < 2 ^ 64 - 1" and "j < 2 ^ 64 - 1" and "sequence_id p i = sequence_id p j"
  shows "i = j"
proof -
  have "unat (of_nat (Suc k) :: 64 word) = Suc k" if "k < 2 ^ 64 - 1" for k
    using that by (simp only: unat_of_nat) simp
  then show ?thesis
    using assms by (auto simp: sequence_id_def dest: nat_digits_inj)
qed

interpretation seq: id_supply "sequence_id p" "2 ^ 64 - 1"
  by unfold_locales (rule sequence_id_inj)

section \<open>One call\<close>

text \<open>
  What a request's context decides: whether \<open>reserveDelivery\<close> refuses it, and whether the
  context is cancelled by the time the configuration lock is held.
\<close>

record call_env =
  ce_reserve :: "err option"
  ce_ctx :: "err option"

record start_cmd =
  sc_ConfigurationName :: config_name
  sc_TicketID :: ticket_id
  sc_Players :: "player list"

record backfill_cmd =
  bc_ConfigurationName :: config_name
  bc_TicketID :: ticket_id
  bc_GameSessionARN :: string
  bc_Players :: "player list"

record accept_cmd =
  ac_TicketID :: ticket_id
  ac_PlayerIDs :: "player_id list"
  ac_Accepted :: bool

end
