(* ===== verification/Ticket_Props.thy ===== *)
theory Ticket_Props
  imports Ticket_Laws Proposal_Tracker Ports
begin

text \<open>
  The properties of the domain layer: the ticket's state machine and its events, the team map,
  identifiers, the roster keys and the proposal tracker.
\<close>

section \<open>A sample ticket\<close>

definition sample_cfg :: configuration where
  "sample_cfg = \<lparr>cfg_Name = ''c'', cfg_ARN = ''arn:c'', cfg_RuleSetName = ''r'', cfg_RuleSetARN = ''arn:r'',
     cfg_RequestTimeout = 0, cfg_AcceptanceRequired = True, cfg_AcceptanceTimeout = 0,
     cfg_BackfillMode = ''MANUAL'', cfg_FlexMatchMode = ''STANDALONE'', cfg_NotificationTargetIDs = []\<rparr>"

definition sample_player :: player where
  "sample_player = \<lparr>pl_ID = ''p'', pl_Team = ''red'', pl_Attributes = [], pl_Latencies = []\<rparr>"

definition sample_ticket :: ticket where
  "sample_ticket = (case NewTicket ''t'' sample_cfg [sample_player] 1 of Inr t \<Rightarrow> t)"

lemmas sample_defs = sample_cfg_def sample_player_def sample_ticket_def NewTicket_def newTicket_def
  recordEvent_def base_of_def

lemma sample_new: "NewTicket ''t'' sample_cfg [sample_player] 1 = Inr sample_ticket"
  by (simp add: sample_defs)

lemma sample_ticket_fields:
  "tk_status sample_ticket = StatusQueued" "tk_id sample_ticket = ''t''"
  "tk_players sample_ticket = [sample_player]" "tk_isBackfill sample_ticket = False"
  "tk_playerTeams sample_ticket = Map.empty" "tk_endTime sample_ticket = 0"
  "tk_configurationName sample_ticket = ''c''"
  by (simp_all add: sample_defs)

section \<open>The state machine\<close>



text \<open>
  A terminal status is final: no sequence of methods that does not contain ObserveSearching
  takes the ticket out of it.
\<close>

theorem ticket_terminal_final:
  assumes "IsTerminal (tk_status t)" and "OpObserveSearching \<notin> set ops"
  shows "tk_status (run_ops ops t) = tk_status t"
  using assms
proof (induction ops arbitrary: t)
  case (Cons op ops)
  show ?case
  proof (cases "ticket_step op t")
    case (Inr t')
    then have "tk_status t' = tk_status t"
      using ticket_step_guard [OF Inr] Cons.prems terminal_no_exit by auto
    then show ?thesis using Cons Inr by simp
  qed (use Cons in simp)
qed simp

theorem ticket_terminal_final_witness:
  "tk_status (run_ops [OpReturnToSearching ''x'' 3, OpMarkTimedOut ''a'' ''b'' 4]
     (run_ops [OpMarkCancelledByAPI 2] sample_ticket)) = StatusCancelled"
  using ticket_terminal_final [of "run_ops [OpMarkCancelledByAPI 2] sample_ticket"
      "[OpReturnToSearching ''x'' 3, OpMarkTimedOut ''a'' ''b'' 4]"]
  by (simp add: sample_ticket_fields ticket_defs canTransitionTo_def)

text \<open>
  Every ticket a constructor and any successful methods can produce is well formed: it has an
  identifier and players, its team map speaks of its own players only (of all of them for a
  backfill ticket), and a terminal ticket has an end time.
\<close>

theorem ticket_reachable_well_formed: "ticket_reachable t \<Longrightarrow> ticket_wf t"
  by (induction rule: ticket_reachable.induct) (auto intro: ticket_wf_new ticket_wf_step)

theorem ticket_reachable_well_formed_witness:
  "case ticket_step (OpMarkCancelledByAPI 2) sample_ticket of Inl e \<Rightarrow> False
   | Inr t \<Rightarrow> ticket_wf t \<and> tk_status t = StatusCancelled"
proof -
  obtain t where t: "ticket_step (OpMarkCancelledByAPI 2) sample_ticket = Inr t"
    by (simp add: sample_ticket_fields ticket_defs canTransitionTo_def)
  moreover have "ticket_reachable t"
    by (rule ticket_reachable.stepped [OF ticket_reachable.made [OF sample_new] t]) simp
  moreover have "tk_status t = StatusCancelled" using ticket_step_status [OF t] by simp
  ultimately show ?thesis using ticket_reachable_well_formed [of t] by simp
qed

text \<open>
  The identity of a ticket is fixed at construction: no sequence of methods changes its
  identifier, configuration, players, backfill flag, game session or start time. (The commands
  rely on it when they read the configuration before taking its lock.)
\<close>

theorem ticket_identity_fixed: "same_ident t (run_ops ops t)"
proof (induction ops arbitrary: t)
  case (Cons op ops)
  then show ?case
    by (auto dest: ticket_step_ident intro: same_ident_trans split: sum.split)
qed simp

text \<open>
  A successful method other than PullEvents appends at most one event to the ticket's list,
  and exactly one when it fails, times out, cancels or requeues the ticket; that event announces
  the status the ticket now has and names the ticket and its configuration.
\<close>

theorem ticket_events_announce_status:
  assumes "ticket_step op t = Inr t'" and "op \<noteq> OpPullEvents"
  shows "\<exists>es. tk_events t' = tk_events t @ es \<and> length es = (if op_records op then 1 else 0) \<and>
    list_all (\<lambda>e. announces e (tk_status t') \<and> event_tickets e = [tk_id t'] \<and>
       ev_configName (event_base e) = tk_configurationName t') es"
  using ticket_step_events [OF assms] same_identD(1,2) [OF ticket_step_ident [OF assms(1)]]
  by (auto simp: list_all_iff)

theorem ticket_events_announce_status_witness:
  "case ticket_step (OpMarkTimedOut ''a'' ''b'' 4) sample_ticket of Inl e \<Rightarrow> False
   | Inr t \<Rightarrow> \<exists>es. tk_events t = tk_events sample_ticket @ es \<and> length es = 1"
proof -
  obtain t where t: "ticket_step (OpMarkTimedOut ''a'' ''b'' 4) sample_ticket = Inr t"
    by (simp add: sample_ticket_fields ticket_defs canTransitionTo_def)
  then show ?thesis using ticket_events_announce_status [OF t] by auto
qed

text \<open>
  A ticket returned to the pool is clean: searching, without match id, acceptances or status
  message, with the team map a new ticket has (empty, or the seats a backfill request came
  with), and its search is announced.
\<close>

theorem return_to_searching_resets:
  assumes "ReturnToSearching reason now t = Inr t'"
  shows "tk_status t' = StatusSearching \<and> tk_matchID t' = [] \<and> tk_playerAcceptances t' = [] \<and>
    tk_statusMessage t' = [] \<and> tk_statusReason t' = reason \<and>
    tk_playerTeams t' =
      (if tk_isBackfill t then requested_teams (tk_players t) Map.empty else Map.empty) \<and>
    tk_events t' = tk_events t @ [EventTicketSearchingStarted (base_of t now) (tk_id t)]"
  using assms by (auto simp: ticket_defs split: sum.splits if_splits)

theorem return_to_searching_resets_witness:
  "case run_ops [OpAssignToProposal ''m'' 2, OpRecordPlayerAcceptance ''p'' True 2,
                 OpSetPlayerTeams [(''p'', ''blue'')]] sample_ticket of
     t \<Rightarrow> tk_matchID t = ''m'' \<and>
       (case ReturnToSearching ''ACCEPTANCE_FAILED'' 3 t of Inl e \<Rightarrow> False
        | Inr t' \<Rightarrow> tk_matchID t' = [] \<and> tk_playerTeams t' = Map.empty)"
proof -
  let ?t = "run_ops [OpAssignToProposal ''m'' 2, OpRecordPlayerAcceptance ''p'' True 2,
    OpSetPlayerTeams [(''p'', ''blue'')]] sample_ticket"
  have t: "tk_matchID ?t = ''m''" "tk_status ?t = StatusRequiresAcceptance" "\<not> tk_isBackfill ?t"
    by (simp_all add: sample_defs ticket_defs canTransitionTo_def hasPlayer_def)
  then obtain t' where "ReturnToSearching ''ACCEPTANCE_FAILED'' 3 ?t = Inr t'"
    by (auto simp: ticket_defs canTransitionTo_def)
  with return_to_searching_resets [OF this] t show ?thesis by simp
qed

text \<open>
  SetPlayerTeams assigns the teams of the ticket's own players and nothing else: the other
  players of the match are ignored and players without a new team keep theirs.
\<close>

theorem set_player_teams_own_players:
  "PlayerTeam (SetPlayerTeams teams t) p =
     (case map_of teams p of
        Some team \<Rightarrow> if hasPlayer t p then team else PlayerTeam t p
      | None \<Rightarrow> PlayerTeam t p)"
  by (auto simp: PlayerTeam_def SetPlayerTeams_def keep_own_teams_apply hasPlayer_def split: option.split)

lemma record_all_lookup:
  "map_of (record_all ps b m) p = (if p \<in> set ps then Some b else map_of m p)"
  by (induction ps arbitrary: m) (auto simp: gomap_simps)

text \<open>
  Answers are validated before anything is recorded: RecordPlayerAcceptances after a
  successful validation leaves an acceptance for every answering player, all of them players of
  the ticket, and does not touch the answers of the others.
\<close>

theorem acceptances_recorded:
  assumes "ValidatePlayerAcceptances ps t = None"
  shows "set ps \<subseteq> roster t \<and> tk_status t = StatusRequiresAcceptance \<and>
    map_of (tk_playerAcceptances (RecordPlayerAcceptances ps b t)) p =
      (if p \<in> set ps then Some b else map_of (tk_playerAcceptances t) p)"
  using assms
  by (auto simp: ValidatePlayerAcceptances_def RecordPlayerAcceptances_def record_all_lookup
      list_all_iff hasPlayer_def split: if_splits)

theorem acceptances_recorded_witness:
  "case run_ops [OpAssignToProposal ''m'' 2] sample_ticket of
     t \<Rightarrow> map_of (tk_playerAcceptances (RecordPlayerAcceptances [''p''] False t)) ''p'' = Some False"
proof -
  let ?t = "run_ops [OpAssignToProposal ''m'' 2] sample_ticket"
  have "ValidatePlayerAcceptances [''p''] ?t = None"
    by (simp add: sample_defs ticket_defs canTransitionTo_def ValidatePlayerAcceptances_def hasPlayer_def)
  from acceptances_recorded [OF this, of False "''p''"] show ?thesis by simp
qed

section \<open>Two places where the code and its comments part\<close>

text \<open>
  ObserveSearching is the one way around the transition table: it turns any ticket, a
  terminal one included, back into a searching one, keeping its end time.
\<close>

theorem observe_searching_revives:
  "\<exists>t. ticket_reachable t \<and> tk_status t = StatusCancelled \<and> \<not> canTransitionTo (tk_status t) StatusSearching \<and>
     tk_status (run_ops [OpObserveSearching] t) = StatusSearching \<and>
     \<not> is_zero_time (tk_endTime (run_ops [OpObserveSearching] t))"
proof -
  obtain t where t: "ticket_step (OpMarkCancelledByAPI 2) sample_ticket = Inr t"
    by (simp add: sample_ticket_fields ticket_defs canTransitionTo_def)
  have "ticket_reachable t"
    by (rule ticket_reachable.stepped [OF ticket_reachable.made [OF sample_new] t]) simp
  moreover have "tk_status t = StatusCancelled" "tk_endTime t = 2"
    using ticket_step_status [OF t] ticket_step_endTime [OF t] by simp_all
  ultimately show ?thesis
    by (intro exI [of _ t]) (simp add: ObserveSearching_def canTransitionTo_def is_zero_time_def)
qed

text \<open>
  A transition to the same status is not a no-op: cancelling a cancelled ticket moves its
  end time and records a second MatchmakingCancelled event.
\<close>

theorem cancel_twice_records_twice:
  assumes "tk_status t = StatusCancelled"
  shows "\<exists>t' e. MarkCancelledByAPI now t = Inr t' \<and> tk_endTime t' = now \<and> tk_events t' = tk_events t @ [e] \<and>
    EventName e = ''MatchmakingCancelled''"
  using assms by (simp add: ticket_defs)

theorem cancel_twice_records_twice_witness:
  "\<exists>t' e. MarkCancelledByAPI 5 (run_ops [OpMarkCancelledByAPI 2] sample_ticket) = Inr t' \<and>
     tk_endTime t' = 5 \<and> EventName e = ''MatchmakingCancelled'' \<and> e \<in> set (tk_events t')"
  using cancel_twice_records_twice [of "run_ops [OpMarkCancelledByAPI 2] sample_ticket" 5]
  by (fastforce simp: sample_ticket_fields ticket_defs canTransitionTo_def)

section \<open>Identifiers and rosters\<close>

lemma space_len_ascii:
  "(of_char c :: nat) < 128 \<Longrightarrow>
     space_len (map of_char (c # v)) = (if ascii_space (of_char c) then 1 else 0)"
  by (cases v; cases "tl v") auto

lemma trim_left_ascii:
  assumes "\<forall>c\<in>set v. of_char c < (128 :: nat)"
  shows "trim_left v = dropWhile (\<lambda>c. ascii_space (of_char c)) v"
  using assms
proof (induction v)
  case Nil
  then show ?case by (simp add: trim_left.simps)
next
  case (Cons c v)
  have "space_len (map of_char (c # v)) = (if ascii_space (of_char c) then 1 else 0)"
    using space_len_ascii Cons.prems by simp
  then show ?case using Cons trim_left.simps [of "c # v"] by (simp split: if_splits)
qed

text \<open>
  A ticket identifier in ASCII is refused exactly when every character of it is white space
  (the empty one too), and is otherwise taken over unchanged.
\<close>

theorem NewTicketID_rejects_blank:
  assumes "\<forall>c\<in>set v. of_char c < (128 :: nat)"
  shows "NewTicketID v =
    (if list_all (\<lambda>c. ascii_space (of_char c)) v then Inl ErrTicketIDEmpty else Inr v)"
  by (simp add: NewTicketID_def TrimSpace_Nil_iff trim_left_ascii [OF assms] list_all_iff)

theorem NewTicketID_rejects_blank_witness:
  "NewTicketID '' '' = Inl ErrTicketIDEmpty \<and> NewTicketID ''a b'' = Inr ''a b''"
  using NewTicketID_rejects_blank [of "'' ''"] NewTicketID_rejects_blank [of "''a b''"]
  by (simp add: ascii_space_def)

text \<open>
  The key of a proposal determines its tickets up to order, as long as no identifier contains
  the separator (the wire adapter only lets identifiers through that do not).
\<close>

theorem proposal_key_identifies_roster:
  assumes "separable ids" and "separable ids'"
  shows "proposalKey ids = proposalKey ids' \<longleftrightarrow> mset ids = mset ids'"
  using assms by (rule proposalKey_iff)

theorem proposal_key_identifies_roster_witness:
  "proposalKey [''b'', ''a''] = proposalKey [''a'', ''b''] \<and> proposalKey [''a'', ''b''] \<noteq> proposalKey [''ab'']"
  using proposal_key_identifies_roster [of "[''b'', ''a'']" "[''a'', ''b'']"]
    proposal_key_identifies_roster [of "[''a'', ''b'']" "[''ab'']"]
  by (simp add: separable_def)

text \<open>
  A roster entered into the tracker under a new match is found again whatever the order of
  its tickets; once that match is forgotten the same roster is unknown, so a new proposal gets
  a new match identifier, and other rosters are found as before.
\<close>

theorem tracker_enter_forget:
  assumes "tracker_wf pt" and "ticketsFor m pt = None" and "separable ids" and "mset ids' = mset ids"
  shows "known ids' (assignAt ids m created pt) = Some m \<and>
    ticketsFor m (assignAt ids m created pt) = Some ids \<and>
    known ids' (forget m (assignAt ids m created pt)) = None \<and>
    ticketsFor m (forget m (assignAt ids m created pt)) = None \<and>
    (separable other \<longrightarrow> mset other \<noteq> mset ids \<longrightarrow>
       known other (forget m (assignAt ids m created pt)) = known other pt)"
  using pt.found_after_enter [OF assms(3,4)] pt.fresh_after_drop [OF assms]
    pt.others_undisturbed [OF assms(1-3)]
  by (simp add: ticketsFor_assignAt)

theorem tracker_enter_forget_witness:
  "known [''b'', ''a''] (assignAt [''a'', ''b''] ''m'' 7 newProposalTracker) = Some ''m'' \<and>
   known [''b'', ''a''] (forget ''m'' (assignAt [''a'', ''b''] ''m'' 7 newProposalTracker)) = None"
proof -
  have free: "ticketsFor ''m'' newProposalTracker = None"
    by (simp add: ticketsFor_def newProposalTracker_def)
  have sep: "separable [''a'', ''b'']" and perm: "mset [''b'', ''a''] = mset [''a'', ''b'']"
    by (simp_all add: separable_def)
  show ?thesis using tracker_enter_forget [OF tracker_wf_new free sep perm] by blast
qed

text \<open>
  The sequence generator never repeats an identifier: as long as its 64-bit counter has not
  wrapped, any number of successive identifiers are pairwise distinct.
\<close>

theorem sequence_ids_distinct:
  assumes "ig_seq g = sequence_id p" and "ig_calls g + k \<le> 2 ^ 64 - 1"
  shows "distinct (fst (new_ids k g))"
  using seq.new_ids_distinct [OF assms] by simp

theorem sequence_ids_distinct_witness:
  "distinct (fst (new_ids 5 (NewSequence ''match-''))) \<and>
   fst (new_ids 2 (NewSequence ''match-'')) = [''match-1'', ''match-2'']"
proof
  show "distinct (fst (new_ids 5 (NewSequence ''match-'')))"
    by (rule sequence_ids_distinct) (simp_all add: NewSequence_def)
  show "fst (new_ids 2 (NewSequence ''match-'')) = [''match-1'', ''match-2'']"
    by code_simp
qed

end
