(* ===== verification/Service_Store.thy ===== *)
theory Service_Store
  imports Ticket_Laws Ports Proposal_Tracker
begin

text \<open>
  The state of the application service (\<open>service.go\<close>, \<open>engine_resolver.go\<close>): the ticket maps
  and indexes, reservations, configurations, rule sets, trackers and the eviction of expired
  tickets. Tickets are shared by pointer, so they live in a store indexed by references and the
  maps hold references.
\<close>

section \<open>State\<close>

text \<open>
  A map that the code only reads by key is a function, with the value Go returns for a missing
  key where there is one (the zero instant, an empty inner map, a new tracker); a map it ranges
  over or counts is an association list or, for a set of keys, a list without duplicates.
  The store is total: references come from \<open>alloc\<close> only, \<open>sv_next\<close> being the next one.
\<close>

type_synonym ref = nat

record 'e service =
  sv_engines :: "config_name \<rightharpoonup> 'e"
  sv_TicketRetention :: duration
  sv_IDs :: idgen
  sv_MatchIDs :: idgen
  sv_heap :: "ref \<Rightarrow> ticket"
  sv_next :: ref
  sv_tickets :: "ticket_id \<rightharpoonup> ref"
  sv_reserved :: "ticket_id set"
  sv_active :: "config_name \<Rightarrow> ticket_id list"
  sv_nextCleanup :: "config_name \<Rightarrow> gotime"
  sv_byConfig :: "config_name \<Rightarrow> (ticket_id \<times> ref) list"
  sv_configurations :: "(config_name \<times> configuration) list"
  sv_ruleSets :: "(ruleset_name \<times> ruleset) list"
  sv_trackers :: "config_name \<Rightarrow> tracker"

section \<open>References\<close>

definition alloc :: "ticket \<Rightarrow> 'e service \<Rightarrow> ref \<times> 'e service" where
  "alloc t s = (sv_next s, s\<lparr>sv_heap := (sv_heap s)(sv_next s := t), sv_next := Suc (sv_next s)\<rparr>)"

definition put_ticket :: "ref \<Rightarrow> ticket \<Rightarrow> 'e service \<Rightarrow> 'e service" where
  "put_ticket r t s = s\<lparr>sv_heap := (sv_heap s)(r := t)\<rparr>"

text \<open>Calling a method of the ticket behind a reference: it changes the ticket or reports an error.\<close>

definition mutate :: "ref \<Rightarrow> ticket_op \<Rightarrow> 'e service \<Rightarrow> err option \<times> 'e service" where
  "mutate r op s =
     (case ticket_step op (sv_heap s r) of
        Inl e \<Rightarrow> (Some e, s)
      | Inr t \<Rightarrow> (None, put_ticket r t s))"

section \<open>Configurations, rule sets, engines, trackers\<close>

definition LoadConfigurations :: "configuration list \<Rightarrow> 'e service \<Rightarrow> 'e service" where
  "LoadConfigurations cfgs s =
     s\<lparr>sv_configurations := fold (\<lambda>c m. AList.update (cfg_Name c) c m) cfgs []\<rparr>"

definition LoadRuleSets :: "ruleset list \<Rightarrow> 'e service \<Rightarrow> 'e service" where
  "LoadRuleSets sets s =
     s\<lparr>sv_ruleSets := fold (\<lambda>r m. AList.update (rs_Name r) r m) sets []\<rparr>"

definition GetConfiguration :: "config_name \<Rightarrow> 'e service \<Rightarrow> err + configuration" where
  "GetConfiguration name s =
     (case map_of (sv_configurations s) name of
        Some c \<Rightarrow> Inr c
      | None \<Rightarrow>
          (case find (\<lambda>c. cfg_ARN c \<noteq> [] \<and> cfg_ARN c = name) (map snd (sv_configurations s)) of
             Some c \<Rightarrow> Inr c
           | None \<Rightarrow> Inl ErrConfigurationNotFound))"

definition ListConfigurations :: "'e service \<Rightarrow> configuration list" where
  "ListConfigurations s = sort_key cfg_Name (map snd (sv_configurations s))"

definition GetRuleSet :: "ruleset_name \<Rightarrow> 'e service \<Rightarrow> err + ruleset" where
  "GetRuleSet name s =
     (case map_of (sv_ruleSets s) name of
        Some rs \<Rightarrow> Inr rs
      | None \<Rightarrow> Inl ErrRuleSetNotFound)"

definition ListRuleSets :: "'e service \<Rightarrow> ruleset list" where
  "ListRuleSets s = sort_key rs_Name (map snd (sv_ruleSets s))"

definition Register :: "config_name \<Rightarrow> 'e \<Rightarrow> 'e service \<Rightarrow> 'e service" where
  "Register name e s = s\<lparr>sv_engines := (sv_engines s)(name \<mapsto> e)\<rparr>"

definition EngineFor :: "config_name \<Rightarrow> 'e service \<Rightarrow> err + 'e" where
  "EngineFor name s =
     (case sv_engines s name of
        Some e \<Rightarrow> Inr e
      | None \<Rightarrow> Inl ErrConfigurationNotFound)"

definition upd_tracker :: "config_name \<Rightarrow> (tracker \<Rightarrow> tracker) \<Rightarrow> 'e service \<Rightarrow> 'e service" where
  "upd_tracker name f s = s\<lparr>sv_trackers := (sv_trackers s)(name := f (sv_trackers s name))\<rparr>"

section \<open>Tickets\<close>

definition GetTicket :: "ticket_id \<Rightarrow> 'e service \<Rightarrow> err + ref" where
  "GetTicket i s = (case sv_tickets s i of None \<Rightarrow> Inl ErrTicketNotFound | Some r \<Rightarrow> Inr r)"

fun GetTickets :: "ticket_id list \<Rightarrow> 'e service \<Rightarrow> ref list" where
  "GetTickets [] s = []"
| "GetTickets (i # ids) s =
     (case sv_tickets s i of None \<Rightarrow> GetTickets ids s | Some r \<Rightarrow> r # GetTickets ids s)"

definition TicketsByConfiguration :: "config_name \<Rightarrow> 'e service \<Rightarrow> ref list" where
  "TicketsByConfiguration name s =
     sort_key (\<lambda>r. tk_id (sv_heap s r)) (map snd (sv_byConfig s name))"

definition ActiveTicketIDsByConfiguration :: "config_name \<Rightarrow> 'e service \<Rightarrow> ticket_id list" where
  "ActiveTicketIDsByConfiguration name s = sort (sv_active s name)"

definition ActiveTicketCountByConfiguration :: "config_name \<Rightarrow> 'e service \<Rightarrow> nat" where
  "ActiveTicketCountByConfiguration name s = length (sv_active s name)"

definition syncTicketIndexLocked :: "ref \<Rightarrow> 'e service \<Rightarrow> 'e service" where
  "syncTicketIndexLocked r s =
     (let t = sv_heap s r; n = tk_configurationName t in
      s\<lparr>sv_active := (sv_active s)
          (n := if IsActive (tk_status t) then List.insert (tk_id t) (sv_active s n)
                else removeAll (tk_id t) (sv_active s n))\<rparr>)"

text \<open>What \<open>SaveTicket\<close> and \<open>commitTicket\<close> share: both maps get the reference, then the index.\<close>

definition register_ticket :: "ref \<Rightarrow> 'e service \<Rightarrow> 'e service" where
  "register_ticket r s =
     (let t = sv_heap s r; n = tk_configurationName t in
      syncTicketIndexLocked r
        (s\<lparr>sv_tickets := (sv_tickets s)(tk_id t \<mapsto> r),
           sv_byConfig := (sv_byConfig s)(n := AList.update (tk_id t) r (sv_byConfig s n))\<rparr>))"

definition SaveTicket :: "ref option \<Rightarrow> 'e service \<Rightarrow> err option \<times> 'e service" where
  "SaveTicket p s =
     (case p of
        None \<Rightarrow> (Some ErrNilTicket, s)
      | Some r \<Rightarrow>
          (let i = tk_id (sv_heap s r) in
           if sv_tickets s i \<noteq> None \<and> sv_tickets s i \<noteq> Some r then (Some ErrTicketAlreadyExists, s)
           else if i \<in> sv_reserved s \<and> sv_tickets s i \<noteq> Some r then (Some ErrTicketAlreadyExists, s)
           else (None, register_ticket r s)))"

definition reserveTicketID :: "ticket_id \<Rightarrow> 'e service \<Rightarrow> err option \<times> 'e service" where
  "reserveTicketID i s =
     (if sv_tickets s i \<noteq> None then (Some ErrTicketAlreadyExists, s)
      else if i \<in> sv_reserved s then (Some ErrTicketAlreadyExists, s)
      else (None, s\<lparr>sv_reserved := insert i (sv_reserved s)\<rparr>))"

definition cancelTicketReservation :: "ticket_id \<Rightarrow> 'e service \<Rightarrow> 'e service" where
  "cancelTicketReservation i s = s\<lparr>sv_reserved := sv_reserved s - {i}\<rparr>"

definition commitTicket :: "ref \<Rightarrow> 'e service \<Rightarrow> 'e service" where
  "commitTicket r s = cancelTicketReservation (tk_id (sv_heap s r)) (register_ticket r s)"

section \<open>Eviction\<close>

definition defaultTicketRetention :: duration where
  "defaultTicketRetention = 3 * hour"

definition retention :: "'e service \<Rightarrow> duration" where
  "retention s = (if 0 < sv_TicketRetention s then sv_TicketRetention s else defaultTicketRetention)"

definition is_expired :: "duration \<Rightarrow> gotime \<Rightarrow> ticket \<Rightarrow> bool" where
  "is_expired ret now t \<longleftrightarrow>
     \<not> (\<not> IsTerminal (tk_status t) \<or> is_zero_time (tk_endTime t) \<or> time_sub now (tk_endTime t) < ret)"

definition remove_expired :: "config_name \<Rightarrow> duration \<Rightarrow> gotime \<Rightarrow> ticket_id \<Rightarrow> 'e service \<Rightarrow> 'e service" where
  "remove_expired name ret now i s =
     (case map_of (sv_byConfig s name) i of
        None \<Rightarrow> s
      | Some r \<Rightarrow>
          if is_expired ret now (sv_heap s r)
          then s\<lparr>sv_byConfig := (sv_byConfig s)(name := AList.delete i (sv_byConfig s name)),
                 sv_tickets := (sv_tickets s)(i := None),
                 sv_active := (sv_active s)(name := removeAll i (sv_active s name))\<rparr>
          else s)"

text \<open>A failing \<open>engine.Evict\<close> is logged only; the ticket is dropped all the same.\<close>

definition evict_one ::
  "'e deps \<Rightarrow> config_name \<Rightarrow> duration \<Rightarrow> gotime \<Rightarrow> ticket_id \<Rightarrow> 'e \<times> 'e service \<Rightarrow> 'e \<times> 'e service" where
  "evict_one d name ret now i = (\<lambda>(e, s). (snd (fx_Evict d i e), remove_expired name ret now i s))"

definition expired_ids :: "config_name \<Rightarrow> duration \<Rightarrow> gotime \<Rightarrow> 'e service \<Rightarrow> ticket_id list" where
  "expired_ids name ret now s = [i. (i, r) \<leftarrow> sv_byConfig s name, is_expired ret now (sv_heap s r)]"

definition evictExpiredTickets ::
  "'e deps \<Rightarrow> config_name \<Rightarrow> gotime \<Rightarrow> 'e \<times> 'e service \<Rightarrow> 'e \<times> 'e service" where
  "evictExpiredTickets d name now = (\<lambda>(e, s).
     let ret = retention s; interval = min minute ret in
     if now < sv_nextCleanup s name then (e, s)
     else
       let s = s\<lparr>sv_nextCleanup := (sv_nextCleanup s)(name := now + interval)\<rparr>;
           expired = go_range_tickets d (expired_ids name ret now s)
       in fold (evict_one d name ret now) expired (e, s))"

end
