(* ===== verification/Service_Inv.thy ===== *)
theory Service_Inv
  imports Service_Store
begin

text \<open>
  The invariant of the service's maps and indexes, the order in which its states can follow one
  another (references stay valid, identities stay fixed, a terminal ticket stays as it is), and
  what each accessor does to both.
\<close>

section \<open>The order on tickets and stores\<close>

definition ticket_le :: "ticket \<Rightarrow> ticket \<Rightarrow> bool" where
  "ticket_le t t' \<longleftrightarrow> same_ident t t' \<and>
     (IsTerminal (tk_status t) \<longrightarrow> tk_status t' = tk_status t \<and> tk_endTime t' = tk_endTime t) \<and>
     (tk_status t' = StatusQueued \<longrightarrow> tk_status t = StatusQueued)"

definition hext :: "'e service \<Rightarrow> 'e service \<Rightarrow> bool" where
  "hext s s' \<longleftrightarrow> sv_next s \<le> sv_next s' \<and>
     (\<forall>r < sv_next s. ticket_le (sv_heap s r) (sv_heap s' r))"

lemma ticket_le_refl [simp]: "ticket_le t t"
  by (simp add: ticket_le_def)

lemma ticket_le_trans: "ticket_le t u \<Longrightarrow> ticket_le u v \<Longrightarrow> ticket_le t v"
  unfolding ticket_le_def by (elim conjE, intro conjI impI) (rule same_ident_trans, assumption+, metis+)

lemma hext_refl [simp]: "hext s s"
  by (simp add: hext_def)

lemma hext_trans: "hext s t \<Longrightarrow> hext t u \<Longrightarrow> hext s u"
  unfolding hext_def by (meson order_trans less_le_trans ticket_le_trans)

interpretation hext: state_order hext
  by unfold_locales (auto intro: hext_trans)

text \<open>
  A method keeps the order unless it stamps a terminal ticket again or revives one: methods that
  do not set the status always do, the others on active tickets.
\<close>

lemma ticket_le_step:
  assumes "ticket_step op t = Inr t'"
    and "op_status op = None \<or> \<not> IsTerminal (tk_status t)"
  shows "ticket_le t t'"
proof -
  have "op_status op = None \<Longrightarrow> op_time op = None" "op_status op \<noteq> Some StatusQueued" by (cases op; simp)+
  with assms show ?thesis
    using ticket_step_ident [OF assms(1)] ticket_step_status [OF assms(1)]
      ticket_step_endTime [OF assms(1)]
    by (auto simp: ticket_le_def split: option.splits)
qed

section \<open>The invariant\<close>

text \<open>
  \<open>store_inv R s\<close>: the two ticket maps agree and hold the right references, the active index
  holds exactly the active tickets, except that a reference in \<open>R\<close> (a ticket that was changed and
  not saved yet) may be listed or not, and no reserved identifier is in use. \<open>R = {}\<close> between
  commands.
\<close>

definition configTicket :: "'e service \<Rightarrow> config_name \<Rightarrow> ticket_id \<Rightarrow> ref option" where
  "configTicket s n i = map_of (sv_byConfig s n) i"

definition cfg_of :: "'e service \<Rightarrow> ref \<Rightarrow> config_name" where
  "cfg_of s r = tk_configurationName (sv_heap s r)"

definition active_ref :: "'e service \<Rightarrow> ref \<Rightarrow> bool" where
  "active_ref s r \<longleftrightarrow> IsActive (tk_status (sv_heap s r))"

definition maps_ok :: "'e service \<Rightarrow> bool" where
  "maps_ok s \<longleftrightarrow>
     (\<forall>i r. sv_tickets s i = Some r \<longrightarrow>
        r < sv_next s \<and> tk_id (sv_heap s r) = i \<and> configTicket s (cfg_of s r) i = Some r) \<and>
     (\<forall>n i r. configTicket s n i = Some r \<longrightarrow> sv_tickets s i = Some r \<and> cfg_of s r = n) \<and>
     (\<forall>n. distinct (map fst (sv_byConfig s n))) \<and>
     (\<forall>i\<in>sv_reserved s. sv_tickets s i = None)"

definition index_ok :: "ref set \<Rightarrow> 'e service \<Rightarrow> bool" where
  "index_ok R s \<longleftrightarrow>
     (\<forall>n. distinct (sv_active s n)) \<and>
     (\<forall>n i. i \<in> set (sv_active s n) \<longrightarrow>
        (\<exists>r. sv_tickets s i = Some r \<and> cfg_of s r = n \<and> (r \<in> R \<or> active_ref s r))) \<and>
     (\<forall>i r. sv_tickets s i = Some r \<longrightarrow> active_ref s r \<longrightarrow>
        r \<in> R \<or> i \<in> set (sv_active s (cfg_of s r)))"

definition store_inv :: "ref set \<Rightarrow> 'e service \<Rightarrow> bool" where
  "store_inv R s \<longleftrightarrow> maps_ok s \<and> index_ok R s"

lemmas store_inv_defs = store_inv_def maps_ok_def index_ok_def

lemma maps_okD:
  assumes "maps_ok s"
  shows "sv_tickets s i = Some r \<Longrightarrow> r < sv_next s"
    and "sv_tickets s i = Some r \<Longrightarrow> tk_id (sv_heap s r) = i"
    and "sv_tickets s i = Some r \<Longrightarrow> configTicket s (cfg_of s r) i = Some r"
    and "configTicket s n i = Some r \<Longrightarrow> sv_tickets s i = Some r"
    and "configTicket s n i = Some r \<Longrightarrow> cfg_of s r = n"
    and "distinct (map fst (sv_byConfig s n))"
    and "i \<in> sv_reserved s \<Longrightarrow> sv_tickets s i = None"
  using assms unfolding maps_ok_def by blast+

lemma index_okD:
  assumes "index_ok R s"
  shows "distinct (sv_active s n)"
    and "i \<in> set (sv_active s n) \<Longrightarrow>
      \<exists>r. sv_tickets s i = Some r \<and> cfg_of s r = n \<and> (r \<in> R \<or> active_ref s r)"
    and "sv_tickets s i = Some r \<Longrightarrow> active_ref s r \<Longrightarrow> r \<in> R \<or> i \<in> set (sv_active s (cfg_of s r))"
  using assms unfolding index_ok_def by blast+

lemma index_ok_mono: "index_ok R s \<Longrightarrow> R \<subseteq> R' \<Longrightarrow> index_ok R' s"
  unfolding index_ok_def by blast

lemma store_inv_mono: "store_inv R s \<Longrightarrow> R \<subseteq> R' \<Longrightarrow> store_inv R' s"
  unfolding store_inv_def by (blast intro: index_ok_mono)

lemma store_inv_ticket:
  assumes "store_inv R s" and "GetTicket i s = Inr r"
  shows "sv_tickets s i = Some r" "r < sv_next s" "tk_id (sv_heap s r) = i"
proof -
  show *: "sv_tickets s i = Some r"
    using assms(2) by (auto simp: GetTicket_def split: option.splits)
  with assms(1) show "r < sv_next s" "tk_id (sv_heap s r) = i"
    by (auto simp: store_inv_def maps_ok_def)
qed

lemma active_exact:
  assumes "store_inv {} s"
  shows "set (sv_active s n) =
    {i. \<exists>r. sv_tickets s i = Some r \<and> cfg_of s r = n \<and> active_ref s r}"
proof (rule set_eqI)
  fix i
  show "i \<in> set (sv_active s n) \<longleftrightarrow>
      i \<in> {i. \<exists>r. sv_tickets s i = Some r \<and> cfg_of s r = n \<and> active_ref s r}"
    using assms unfolding store_inv_def index_ok_def by blast
qed

text \<open>What the invariant reads: a state that agrees on it satisfies it too.\<close>

lemma store_inv_cong:
  assumes "sv_next s' = sv_next s" "sv_tickets s' = sv_tickets s" "sv_reserved s' = sv_reserved s"
    and "sv_active s' = sv_active s" "sv_byConfig s' = sv_byConfig s" "sv_heap s' = sv_heap s"
  shows "store_inv R s' = store_inv R s"
  using assms by (simp add: store_inv_defs configTicket_def cfg_of_def active_ref_def)

lemma hext_cong:
  assumes "sv_next s' = sv_next s" "sv_heap s' = sv_heap s"
  shows "hext t s' = hext t s" "hext s' t = hext s t"
  using assms by (simp_all add: hext_def)

section \<open>Method calls\<close>

lemma put_ticket_simps [simp]:
  "sv_heap (put_ticket r t s) = (sv_heap s)(r := t)"
  "sv_next (put_ticket r t s) = sv_next s"
  "sv_tickets (put_ticket r t s) = sv_tickets s"
  "sv_reserved (put_ticket r t s) = sv_reserved s"
  "sv_active (put_ticket r t s) = sv_active s"
  "sv_byConfig (put_ticket r t s) = sv_byConfig s"
  "sv_trackers (put_ticket r t s) = sv_trackers s"
  "sv_configurations (put_ticket r t s) = sv_configurations s"
  "sv_ruleSets (put_ticket r t s) = sv_ruleSets s"
  "sv_engines (put_ticket r t s) = sv_engines s"
  "sv_IDs (put_ticket r t s) = sv_IDs s" "sv_MatchIDs (put_ticket r t s) = sv_MatchIDs s"
  "sv_nextCleanup (put_ticket r t s) = sv_nextCleanup s"
  "sv_TicketRetention (put_ticket r t s) = sv_TicketRetention s"
  by (simp_all add: put_ticket_def)

lemma put_ticket_cfg_of:
  "same_ident (sv_heap s r) t \<Longrightarrow> cfg_of (put_ticket r t s) r' = cfg_of s r'"
  by (simp add: cfg_of_def same_ident_def)

lemma put_ticket_maps_ok:
  assumes "maps_ok s" and "same_ident (sv_heap s r) t"
  shows "maps_ok (put_ticket r t s)"
  using assms same_identD(1,2) [OF assms(2)]
  by (auto simp: maps_ok_def configTicket_def cfg_of_def)

lemma put_ticket_index_ok:
  assumes "index_ok R s" and "same_ident (sv_heap s r) t"
    and "r \<in> R' \<or> IsActive (tk_status t) = active_ref s r" and "R \<subseteq> R'"
  shows "index_ok R' (put_ticket r t s)"
proof -
  have act: "active_ref (put_ticket r t s) r' = active_ref s r'" if "r' \<notin> R'" for r'
    using that assms(3) by (auto simp: active_ref_def)
  show ?thesis
    using assms(1,4) unfolding index_ok_def put_ticket_cfg_of [OF assms(2)] put_ticket_simps
    by (metis act subsetD)
qed

text \<open>
  A method call leaves the maps alone; its reference joins the unsaved ones, unless the ticket's
  activity does not change.
\<close>

lemma put_ticket_inv:
  assumes "store_inv R s" and "same_ident (sv_heap s r) t"
  shows "store_inv (insert r R) (put_ticket r t s)"
    and "IsActive (tk_status t) = active_ref s r \<Longrightarrow> store_inv R (put_ticket r t s)"
  using assms put_ticket_maps_ok put_ticket_index_ok unfolding store_inv_def by blast+

lemma put_ticket_hext: "ticket_le (sv_heap s r) t \<Longrightarrow> hext s (put_ticket r t s)"
  by (simp add: hext_def)

lemma mutate_cases:
  obtains (fail) e where "ticket_step op (sv_heap s r) = Inl e" "mutate r op s = (Some e, s)"
  | (ok) t where "ticket_step op (sv_heap s r) = Inr t" "mutate r op s = (None, put_ticket r t s)"
  by (cases "ticket_step op (sv_heap s r)") (auto simp: mutate_def)

lemma mutate_inv: "store_inv R s \<Longrightarrow> store_inv (insert r R) (snd (mutate r op s))"
  by (cases rule: mutate_cases [of op s r])
     (auto intro: store_inv_mono put_ticket_inv(1) ticket_step_ident)

lemma mutate_inv_same:
  assumes "store_inv R s"
    and "op_status op = None \<or> op_status op = Some st \<and> IsActive st = active_ref s r"
  shows "store_inv R (snd (mutate r op s))"
proof (cases rule: mutate_cases [of op s r])
  case (ok t)
  then show ?thesis
    using assms put_ticket_inv(2) [OF assms(1) ticket_step_ident [OF ok(1)]]
      ticket_step_status [OF ok(1)]
    by (auto simp: active_ref_def)
qed (use assms in simp)

lemma mutate_hext:
  assumes "op_status op = None \<or> active_ref s r"
  shows "hext s (snd (mutate r op s))"
  using assms
  by (cases rule: mutate_cases [of op s r])
     (auto simp: active_ref_def IsActive_def intro: put_ticket_hext ticket_le_step)

lemma mutate_frame [simp]:
  "sv_next (snd (mutate r op s)) = sv_next s"
  "sv_tickets (snd (mutate r op s)) = sv_tickets s"
  "sv_reserved (snd (mutate r op s)) = sv_reserved s"
  "sv_active (snd (mutate r op s)) = sv_active s"
  "sv_byConfig (snd (mutate r op s)) = sv_byConfig s"
  "sv_trackers (snd (mutate r op s)) = sv_trackers s"
  "sv_configurations (snd (mutate r op s)) = sv_configurations s"
  "sv_ruleSets (snd (mutate r op s)) = sv_ruleSets s"
  "sv_engines (snd (mutate r op s)) = sv_engines s"
  "sv_IDs (snd (mutate r op s)) = sv_IDs s" "sv_MatchIDs (snd (mutate r op s)) = sv_MatchIDs s"
  by (cases rule: mutate_cases [of op s r]; simp)+

section \<open>Accessors\<close>

lemma register_ticket_simps:
  "sv_heap (register_ticket r s) = sv_heap s"
  "sv_next (register_ticket r s) = sv_next s"
  "sv_reserved (register_ticket r s) = sv_reserved s"
  "sv_tickets (register_ticket r s) = (sv_tickets s)(tk_id (sv_heap s r) \<mapsto> r)"
  "sv_trackers (register_ticket r s) = sv_trackers s"
  "sv_IDs (register_ticket r s) = sv_IDs s" "sv_MatchIDs (register_ticket r s) = sv_MatchIDs s"
  "sv_configurations (register_ticket r s) = sv_configurations s"
  "sv_ruleSets (register_ticket r s) = sv_ruleSets s"
  "sv_engines (register_ticket r s) = sv_engines s"
  by (simp_all add: register_ticket_def syncTicketIndexLocked_def Let_def)

lemma register_ticket_views:
  "cfg_of (register_ticket r s) = cfg_of s"
  "active_ref (register_ticket r s) = active_ref s"
  "configTicket (register_ticket r s) n i =
     (if n = cfg_of s r \<and> i = tk_id (sv_heap s r) then Some r else configTicket s n i)"
  "sv_active (register_ticket r s) n =
     (if n = cfg_of s r then
        (if active_ref s r then List.insert (tk_id (sv_heap s r)) (sv_active s n)
         else removeAll (tk_id (sv_heap s r)) (sv_active s n))
      else sv_active s n)"
  by (auto simp: register_ticket_def syncTicketIndexLocked_def Let_def cfg_of_def active_ref_def
      configTicket_def gomap_simps fun_eq_iff)

lemma register_ticket_distinct:
  "distinct (map fst (sv_byConfig s n)) \<Longrightarrow> distinct (map fst (sv_byConfig (register_ticket r s) n))"
  by (auto simp: register_ticket_def syncTicketIndexLocked_def Let_def gomap_distinct)

text \<open>
  Registering a ticket whose identifier is free or already its own: it leaves the unsaved ones,
  and the index is exact for it.
\<close>

lemma register_ticket_inv:
  assumes inv: "store_inv R s" and r: "r < sv_next s"
    and own: "sv_tickets s (tk_id (sv_heap s r)) = None \<or> sv_tickets s (tk_id (sv_heap s r)) = Some r"
    and res: "tk_id (sv_heap s r) \<notin> sv_reserved s"
  shows "store_inv (R - {r}) (register_ticket r s)"
proof -
  let ?s = "register_ticket r s"
  let ?i = "tk_id (sv_heap s r)"
  note simps = register_ticket_simps register_ticket_views
  have maps: "maps_ok s" and index: "index_ok R s" using inv by (auto simp: store_inv_def)
  have other: "i \<noteq> ?i \<Longrightarrow> sv_tickets s i = Some r' \<Longrightarrow> r' \<noteq> r" for i r'
    using maps by (auto simp: maps_ok_def)
  have stray: "configTicket s n ?i = Some r' \<Longrightarrow> r' = r \<and> n = cfg_of s r" for n r'
    using maps own unfolding maps_ok_def by (metis option.distinct(1) option.inject)
  have inact: "?i \<in> set (sv_active s n) \<Longrightarrow> n = cfg_of s r" for n
    using index own unfolding index_ok_def by (metis option.distinct(1) option.inject)
  have "maps_ok ?s"
    unfolding maps_ok_def simps
  proof (intro conjI allI impI ballI)
    fix n show "distinct (map fst (sv_byConfig ?s n))"
      using maps by (simp add: register_ticket_distinct maps_ok_def)
  next
    fix i assume "i \<in> sv_reserved s"
    then show "((sv_tickets s)(?i \<mapsto> r)) i = None"
      using maps res by (auto simp: maps_ok_def)
  qed (use maps r stray other in \<open>auto simp: maps_ok_def split: if_splits\<close>)
  moreover have "index_ok (R - {r}) ?s"
    unfolding index_ok_def simps
  proof (intro conjI allI impI)
    fix n show "distinct (if n = cfg_of s r then if active_ref s r then List.insert ?i (sv_active s n)
        else removeAll ?i (sv_active s n) else sv_active s n)"
      using index by (auto simp: index_ok_def distinct_removeAll)
  next
    fix n i assume "i \<in> set (if n = cfg_of s r then if active_ref s r then List.insert ?i (sv_active s n)
        else removeAll ?i (sv_active s n) else sv_active s n)"
    then consider "i = ?i" "n = cfg_of s r" "active_ref s r" | "i \<noteq> ?i" "i \<in> set (sv_active s n)"
      using inact by (auto split: if_splits)
    then show "\<exists>r'. ((sv_tickets s)(?i \<mapsto> r)) i = Some r' \<and> cfg_of s r' = n \<and>
        (r' \<in> R - {r} \<or> active_ref s r')"
      by cases (use index other in \<open>fastforce simp: index_ok_def\<close>)+
  next
    fix i r' assume upd: "((sv_tickets s)(?i \<mapsto> r)) i = Some r'" and act: "active_ref s r'"
    show "r' \<in> R - {r} \<or> i \<in> set (if cfg_of s r' = cfg_of s r then if active_ref s r
        then List.insert ?i (sv_active s (cfg_of s r')) else removeAll ?i (sv_active s (cfg_of s r'))
        else sv_active s (cfg_of s r'))"
    proof (cases "i = ?i")
      case True
      with upd have "r' = r" by simp
      with True act show ?thesis by simp
    next
      case False
      with upd have old: "sv_tickets s i = Some r'" by simp
      from index_okD(3) [OF index old act] other [OF False old] False show ?thesis
        by (cases "cfg_of s r' = cfg_of s r") auto
    qed
  qed
  ultimately show ?thesis by (simp add: store_inv_def)
qed

lemma register_ticket_hext: "hext s (register_ticket r s)"
  by (simp add: hext_def register_ticket_simps)

text \<open>\<open>SaveTicket\<close> of a ticket that is in the maps always succeeds and refreshes its index entry.\<close>

lemma SaveTicket_stored:
  assumes "store_inv R s" and "sv_tickets s (tk_id (sv_heap s r)) = Some r"
  shows "SaveTicket (Some r) s = (None, register_ticket r s)"
    and "store_inv (R - {r}) (register_ticket r s)"
proof -
  show "SaveTicket (Some r) s = (None, register_ticket r s)"
    by (simp add: SaveTicket_def Let_def assms(2))
  have maps: "maps_ok s" using assms(1) by (simp add: store_inv_def)
  have "r < sv_next s" by (rule maps_okD(1) [OF maps assms(2)])
  moreover have "tk_id (sv_heap s r) \<notin> sv_reserved s"
    using maps_okD(7) [OF maps, of "tk_id (sv_heap s r)"] assms(2) by auto
  ultimately show "store_inv (R - {r}) (register_ticket r s)"
    using register_ticket_inv [OF assms(1)] assms(2) by simp
qed

lemma SaveTicket_hext: "hext s (snd (SaveTicket p s))"
  by (cases p) (simp_all add: SaveTicket_def Let_def register_ticket_hext)

text \<open>A new ticket object is not in any map yet.\<close>

lemma alloc_simps:
  "fst (alloc t s) = sv_next s"
  "sv_next (snd (alloc t s)) = Suc (sv_next s)"
  "sv_heap (snd (alloc t s)) = (sv_heap s)(sv_next s := t)"
  "sv_tickets (snd (alloc t s)) = sv_tickets s"
  "sv_byConfig (snd (alloc t s)) = sv_byConfig s"
  "sv_active (snd (alloc t s)) = sv_active s"
  "sv_reserved (snd (alloc t s)) = sv_reserved s"
  by (simp_all add: alloc_def)

lemma alloc_inv:
  assumes "store_inv R s"
  shows "store_inv R (snd (alloc t s))"
proof -
  let ?s = "snd (alloc t s)"
  have maps: "maps_ok s" and index: "index_ok R s" using assms by (auto simp: store_inv_def)
  have ne: "q \<noteq> sv_next s" if "sv_tickets s i = Some q" for i q
    using maps_okD(1) [OF maps that] by simp
  have cfg: "cfg_of ?s q = cfg_of s q" "active_ref ?s q = active_ref s q"
    if "sv_tickets s i = Some q" for i q
    using ne [OF that] by (simp_all add: cfg_of_def active_ref_def alloc_simps)
  have ct: "configTicket ?s n i = configTicket s n i" for n i
    by (simp add: configTicket_def alloc_simps)
  have "maps_ok ?s"
    unfolding maps_ok_def ct alloc_simps
  proof (intro conjI allI impI ballI)
    fix n i r assume "configTicket s n i = Some r"
    from maps_okD(4,5) [OF maps this] cfg(1)
    show "sv_tickets s i = Some r" "cfg_of ?s r = n" by simp_all
  qed (use maps_okD(1,2,3,6,7) [OF maps] cfg(1) ne in \<open>auto simp: less_Suc_eq\<close>)
  moreover have "index_ok R ?s"
    unfolding index_ok_def alloc_simps
  proof (intro conjI allI impI)
    fix n i assume "i \<in> set (sv_active s n)"
    from index_okD(2) [OF index this]
    show "\<exists>r. sv_tickets s i = Some r \<and> cfg_of ?s r = n \<and> (r \<in> R \<or> active_ref ?s r)"
      using cfg by auto
  next
    fix i r assume "sv_tickets s i = Some r" "active_ref ?s r"
    then show "r \<in> R \<or> i \<in> set (sv_active s (cfg_of ?s r))"
      using index_okD(3) [OF index] cfg by auto
  qed (rule index_okD(1) [OF index])
  ultimately show ?thesis by (simp add: store_inv_def)
qed

lemma alloc_hext: "hext s (snd (alloc t s))"
  by (simp add: hext_def alloc_simps)

lemma reserve_inv:
  assumes "store_inv R s"
  shows "store_inv R (snd (reserveTicketID i s))"
  using assms
  by (auto simp: reserveTicketID_def store_inv_defs configTicket_def cfg_of_def active_ref_def)

lemma cancel_reservation_inv:
  assumes "store_inv R s"
  shows "store_inv R (cancelTicketReservation i s)"
  using assms
  by (auto simp: cancelTicketReservation_def store_inv_defs configTicket_def cfg_of_def active_ref_def)

lemma reservation_hext:
  "hext s (snd (reserveTicketID i s))" "hext s (cancelTicketReservation i s)"
  by (simp_all add: reserveTicketID_def cancelTicketReservation_def hext_def)

text \<open>\<open>commitTicket\<close> turns the reservation of a new ticket's identifier into the ticket.\<close>

lemma commit_inv:
  assumes inv: "store_inv {} s" and r: "r < sv_next s"
    and free: "sv_tickets s (tk_id (sv_heap s r)) = None"
  shows "store_inv {} (commitTicket r s)"
proof -
  let ?i = "tk_id (sv_heap s r)"
  let ?u = "cancelTicketReservation ?i s"
  have u: "store_inv {} ?u" using inv by (rule cancel_reservation_inv)
  have "commitTicket r s = register_ticket r ?u"
    by (simp add: commitTicket_def cancelTicketReservation_def register_ticket_def
        syncTicketIndexLocked_def Let_def)
  moreover have "store_inv ({} - {r}) (register_ticket r ?u)"
    by (rule register_ticket_inv [OF u]) (use r free in \<open>auto simp: cancelTicketReservation_def\<close>)
  ultimately show ?thesis by simp
qed

lemma commit_hext: "hext s (commitTicket r s)"
  by (simp add: commitTicket_def cancelTicketReservation_def hext_def register_ticket_simps)

end
