(* ===== verification/Event_Batch.thy ===== *)
theory Event_Batch
  imports Service_Inv
begin

text \<open>
  The event batch of one command (\<open>eventBatch\<close> of \<open>service.go\<close>, \<open>ports/event_snapshot.go\<close>), the
  state a command works on while it holds its configuration's lock, and how a command opens and
  closes it.
\<close>

section \<open>Snapshots\<close>

record player_snapshot =
  ps_PlayerID :: string
  ps_Team :: string

record ticket_snapshot =
  ts_TicketID :: string
  ts_StartTime :: string
  ts_Players :: "player_snapshot list"

type_synonym event_snapshot = "ticket_id \<rightharpoonup> ticket_snapshot"

record recorded_event =
  re_event :: event
  re_snapshot :: event_snapshot

definition snapshot_ticket :: "ticket_id \<Rightarrow> ticket \<Rightarrow> ticket_snapshot" where
  "snapshot_ticket i t =
     \<lparr>ts_TicketID = i, ts_StartTime = format_millis (tk_startTime t),
      ts_Players = map (\<lambda>p. \<lparr>ps_PlayerID = pl_ID p, ps_Team = PlayerTeam t (pl_ID p)\<rparr>) (tk_players t)\<rparr>"

fun snapshot_of :: "'e service \<Rightarrow> ticket_id list \<Rightarrow> event_snapshot \<Rightarrow> event_snapshot" where
  "snapshot_of s [] m = m"
| "snapshot_of s (i # ids) m =
     (case GetTicket i s of
        Inl e \<Rightarrow> snapshot_of s ids m
      | Inr r \<Rightarrow> snapshot_of s ids (m(i \<mapsto> snapshot_ticket i (sv_heap s r))))"

definition record_event :: "'e service \<Rightarrow> event \<Rightarrow> recorded_event" where
  "record_event s e = \<lparr>re_event = e, re_snapshot = snapshot_of s (event_tickets e) Map.empty\<rparr>"

section \<open>The state of a running command\<close>

text \<open>
  While a command runs, its configuration's engine is in \<open>fr_eng\<close>; \<open>with_engine\<close> takes it out of the
  resolver and puts it back, also when the command fails. The batch of a failed command is
  delivered too (\<open>releaseAndFlush\<close> is deferred).
\<close>

record 'e frame =
  fr_svc :: "'e service"
  fr_eng :: 'e
  fr_batch :: "recorded_event list"

definition on_svc :: "('e service \<Rightarrow> 'a \<times> 'e service) \<Rightarrow> 'e frame \<Rightarrow> 'a \<times> 'e frame" where
  "on_svc g f = (let (x, s) = g (fr_svc f) in (x, f\<lparr>fr_svc := s\<rparr>))"

definition on_eng :: "('e \<Rightarrow> 'a \<times> 'e) \<Rightarrow> 'e frame \<Rightarrow> 'a \<times> 'e frame" where
  "on_eng g f = (let (x, e) = g (fr_eng f) in (x, f\<lparr>fr_eng := e\<rparr>))"

definition batch_add :: "event \<Rightarrow> 'e frame \<Rightarrow> 'e frame" where
  "batch_add e f = f\<lparr>fr_batch := fr_batch f @ [record_event (fr_svc f) e]\<rparr>"

definition addTicket :: "ref \<Rightarrow> 'e frame \<Rightarrow> 'e frame" where
  "addTicket r f =
     (let es = tk_events (sv_heap (fr_svc f) r) in
      fold batch_add es (snd (on_svc (mutate r OpPullEvents) f)))"

definition with_engine ::
  "config_name \<Rightarrow> ('e frame \<Rightarrow> (err + 'a) \<times> 'e frame) \<Rightarrow> 'e service \<Rightarrow>
     (err + 'a) \<times> recorded_event list \<times> 'e service" where
  "with_engine name body s =
     (case EngineFor name s of
        Inl e \<Rightarrow> (Inl e, [], s)
      | Inr eng \<Rightarrow>
          (let (x, f) = body \<lparr>fr_svc = s, fr_eng = eng, fr_batch = []\<rparr>
           in (x, fr_batch f, Register name (fr_eng f) (fr_svc f))))"

text \<open>
  What a command does once it holds the lock: the context is checked, the configuration is read
  again, the engine is resolved and the body runs.
\<close>

definition locked_configured ::
  "err option \<Rightarrow> config_name \<Rightarrow> (configuration \<Rightarrow> 'e frame \<Rightarrow> (err + 'a) \<times> 'e frame) \<Rightarrow> 'e service \<Rightarrow>
     (err + 'a) \<times> recorded_event list \<times> 'e service" where
  "locked_configured ctx name body s =
     (case ctx of
        Some e \<Rightarrow> (Inl e, [], s)
      | None \<Rightarrow>
          (case GetConfiguration name s of
             Inl e \<Rightarrow> (Inl e, [], s)
           | Inr cfg \<Rightarrow> with_engine name (body cfg) s))"

definition NewMatchID :: "'e frame \<Rightarrow> match_id \<times> 'e frame" where
  "NewMatchID = on_svc (\<lambda>s. let (m, g) = NewID (sv_MatchIDs s) in (m, s\<lparr>sv_MatchIDs := g\<rparr>))"

definition tracker_of :: "config_name \<Rightarrow> 'e frame \<Rightarrow> tracker" where
  "tracker_of name f = sv_trackers (fr_svc f) name"

definition on_tracker :: "config_name \<Rightarrow> (tracker \<Rightarrow> tracker) \<Rightarrow> 'e frame \<Rightarrow> 'e frame" where
  "on_tracker name g f = f\<lparr>fr_svc := upd_tracker name g (fr_svc f)\<rparr>"

text \<open>The error of an operation as the result of a command that returns nothing else.\<close>

fun result :: "err option \<times> 's \<Rightarrow> (err + unit) \<times> 's" where
  "result (None, s) = (Inr (), s)"
| "result (Some e, s) = (Inl e, s)"

section \<open>The tickets behind a frame\<close>

abbreviation ticket_at :: "'e frame \<Rightarrow> ref \<Rightarrow> ticket" where
  "ticket_at f r \<equiv> sv_heap (fr_svc f) r"

abbreviation find_ticket :: "ticket_id \<Rightarrow> 'e frame \<Rightarrow> err + ref" where
  "find_ticket i f \<equiv> GetTicket i (fr_svc f)"

abbreviation call :: "ref \<Rightarrow> ticket_op \<Rightarrow> 'e frame \<Rightarrow> err option \<times> 'e frame" where
  "call r op \<equiv> on_svc (mutate r op)"

abbreviation save :: "ref \<Rightarrow> 'e frame \<Rightarrow> err option \<times> 'e frame" where
  "save r \<equiv> on_svc (SaveTicket (Some r))"

section \<open>Talking to the engine\<close>

text \<open>Most engine calls treat an unknown ticket as done and wrap any other error.\<close>

fun tolerate :: "flexi_err option \<Rightarrow> err option" where
  "tolerate None = None"
| "tolerate (Some e) = (if e = FxUnknownTicket then None else Some (ErrEngine e))"

definition eng_tolerant :: "('e \<Rightarrow> flexi_err option \<times> 'e) \<Rightarrow> 'e frame \<Rightarrow> err option \<times> 'e frame" where
  "eng_tolerant g f = (let (x, f) = on_eng g f in (tolerate x, f))"

definition toRuleMetrics :: "rule_metric list \<Rightarrow> rule_metric list" where
  "toRuleMetrics src =
     map (\<lambda>m. \<lparr>rm_RuleName = rm_RuleName m, rm_PassedCount = rm_PassedCount m,
                rm_FailedCount = rm_FailedCount m\<rparr>) src"

definition captureRuleMetrics :: "'e deps \<Rightarrow> ref \<Rightarrow> 'e frame \<Rightarrow> err option \<times> 'e frame" where
  "captureRuleMetrics d r f =
     (case fx_RuleMetrics d (tk_id (ticket_at f r)) (fr_eng f) of
        None \<Rightarrow> (None, f)
      | Some m \<Rightarrow> call r (OpSetRuleMetrics (toRuleMetrics m)) f)"

end
