(* ===== verification/Frame_Laws.thy ===== *)
theory Frame_Laws
  imports Event_Batch
begin

text \<open>
  What every piece of a command keeps, whatever the engine answers: the invariant of the service,
  and the order in which service states follow one another. The rules are stated as \<open>runs\<close>
  triples over the state of a running command, so that a command is proved by following its text.
\<close>

section \<open>The invariant of the service and the order\<close>

text \<open>
  The trackers are well formed and hold issued match identifiers only. This needs a generator
  that does not repeat itself, which is a premise inside the definition.
\<close>

definition issued :: "idgen \<Rightarrow> string set" where
  "issued g = ig_seq g ` {..< ig_calls g}"

definition trackers_ok :: "'e service \<Rightarrow> bool" where
  "trackers_ok s \<longleftrightarrow> inj (ig_seq (sv_MatchIDs s)) \<longrightarrow>
     (\<forall>n. tracker_wf (sv_trackers s n) \<and>
       fst ` set (tr_byMatch (sv_trackers s n)) \<subseteq> issued (sv_MatchIDs s))"

definition svc_inv :: "ref set \<Rightarrow> 'e service \<Rightarrow> bool" where
  "svc_inv R s \<longleftrightarrow> store_inv R s \<and> trackers_ok s"

definition svc_le :: "'e service \<Rightarrow> 'e service \<Rightarrow> bool" where
  "svc_le s s' \<longleftrightarrow> hext s s' \<and> map_le (sv_tickets s') (sv_tickets s) \<and>
     sv_configurations s' = sv_configurations s \<and> sv_ruleSets s' = sv_ruleSets s \<and>
     sv_engines s' = sv_engines s \<and> ig_seq (sv_IDs s') = ig_seq (sv_IDs s) \<and>
     ig_seq (sv_MatchIDs s') = ig_seq (sv_MatchIDs s)"

definition frame_le :: "'e frame \<Rightarrow> 'e frame \<Rightarrow> bool" where
  "frame_le f f' \<longleftrightarrow> svc_le (fr_svc f) (fr_svc f') \<and> sv_tickets (fr_svc f') = sv_tickets (fr_svc f) \<and>
     (\<exists>es. fr_batch f' = fr_batch f @ es)"

text \<open>The weaker order of a whole tick, whose last phase drops tickets.\<close>

definition frame_shrink :: "'e frame \<Rightarrow> 'e frame \<Rightarrow> bool" where
  "frame_shrink f f' \<longleftrightarrow> svc_le (fr_svc f) (fr_svc f') \<and> (\<exists>es. fr_batch f' = fr_batch f @ es)"

lemma svc_le_refl [simp]: "svc_le s s"
  by (simp add: svc_le_def)

lemma svc_le_trans: "svc_le s t \<Longrightarrow> svc_le t u \<Longrightarrow> svc_le s u"
  unfolding svc_le_def by (metis hext_trans map_le_trans)

lemma frame_le_refl [simp]: "frame_le f f"
  by (simp add: frame_le_def)

lemma frame_le_trans: "frame_le f g \<Longrightarrow> frame_le g h \<Longrightarrow> frame_le f h"
  unfolding frame_le_def by (metis append_assoc svc_le_trans)

interpretation frame: state_order frame_le
  by unfold_locales (auto intro: frame_le_trans)

lemma frame_le_shrink: "frame_le f g \<Longrightarrow> frame_shrink f g"
  by (simp add: frame_le_def frame_shrink_def)

lemma frame_shrink_trans: "frame_shrink f g \<Longrightarrow> frame_shrink g h \<Longrightarrow> frame_shrink f h"
  unfolding frame_shrink_def by (metis append_assoc svc_le_trans)

interpretation shrink: state_order frame_shrink
  by unfold_locales (simp add: frame_shrink_def, erule (1) frame_shrink_trans)

lemma runs_shrink: "runs frame_le P f Q E \<Longrightarrow> runs frame_shrink P f Q E"
  by (erule runs_weaken) (rule frame_le_shrink)

lemma trackers_ok_cong:
  "sv_trackers s' = sv_trackers s \<Longrightarrow> sv_MatchIDs s' = sv_MatchIDs s \<Longrightarrow> trackers_ok s' = trackers_ok s"
  by (simp add: trackers_ok_def)

lemma svc_inv_mono: "svc_inv R s \<Longrightarrow> R \<subseteq> R' \<Longrightarrow> svc_inv R' s"
  by (auto simp: svc_inv_def intro: store_inv_mono)

section \<open>Assertions\<close>

text \<open>
  \<open>idle\<close>: the invariant, between the tickets of a loop. \<open>holds R r\<close>: \<open>r\<close> is the ticket being worked
  on, in the maps, possibly changed and unsaved. \<open>live r\<close>: it is active and saved.
\<close>

definition idle :: "'e frame \<Rightarrow> bool" where
  "idle f \<longleftrightarrow> svc_inv {} (fr_svc f)"

definition holds :: "ref set \<Rightarrow> ref \<Rightarrow> 'e frame \<Rightarrow> bool" where
  "holds R r f \<longleftrightarrow> svc_inv R (fr_svc f) \<and> sv_tickets (fr_svc f) (tk_id (ticket_at f r)) = Some r"

definition live :: "ref \<Rightarrow> 'e frame \<Rightarrow> bool" where
  "live r f \<longleftrightarrow> holds {} r f \<and> active_ref (fr_svc f) r"

abbreviation step :: "('e frame \<Rightarrow> bool) \<Rightarrow> ('e frame \<Rightarrow> err option \<times> 'e frame) \<Rightarrow>
    ('e frame \<Rightarrow> bool) \<Rightarrow> bool" where
  "step P f Q \<equiv> runs frame_le P f Q idle"

lemma holds_idle: "holds {} r f \<Longrightarrow> idle f"
  by (simp add: holds_def idle_def)

lemma live_holds: "live r f \<Longrightarrow> holds {} r f"
  by (simp add: live_def)

lemma live_idle: "live r f \<Longrightarrow> idle f"
  by (simp add: live_def holds_def idle_def)

lemma holds_mono: "holds R r f \<Longrightarrow> R \<subseteq> R' \<Longrightarrow> holds R' r f"
  by (auto simp: holds_def intro: svc_inv_mono)

lemma idle_maps: "idle f \<Longrightarrow> maps_ok (fr_svc f)"
  by (simp add: idle_def svc_inv_def store_inv_def)

lemma found_holds: "idle f \<Longrightarrow> find_ticket i f = Inr r \<Longrightarrow> holds {} r f \<and> tk_id (ticket_at f r) = i"
  using store_inv_ticket [of "{}" "fr_svc f" i r] by (auto simp: idle_def holds_def svc_inv_def)

section \<open>Method calls\<close>

lemma mutate_svc_le:
  assumes "op_status op = None \<or> active_ref s r"
  shows "svc_le s (snd (mutate r op s))"
  using mutate_hext [OF assms] by (simp add: svc_le_def)

lemma mutate_stored:
  assumes "sv_tickets s (tk_id (sv_heap s r)) = Some r"
  shows "sv_tickets (snd (mutate r op s)) (tk_id (sv_heap (snd (mutate r op s)) r)) = Some r"
  using assms
  by (cases rule: mutate_cases [of op s r]) (auto dest: ticket_step_ident simp: same_ident_def)

lemma mutate_trackers_ok [simp]: "trackers_ok (snd (mutate r op s)) = trackers_ok s"
  by (rule trackers_ok_cong) simp_all

lemma call_snd: "snd (call r op f) = f\<lparr>fr_svc := snd (mutate r op (fr_svc f))\<rparr>"
  by (simp add: on_svc_def Let_def split: prod.split)

lemma call_error: "call r op f = (Some e, f') \<Longrightarrow> f' = f"
  by (cases rule: mutate_cases [of op "fr_svc f" r]) (auto simp: on_svc_def)

lemma call_frame_le:
  assumes "op_status op = None \<or> active_ref (fr_svc f) r"
  shows "frame_le f (snd (call r op f))"
  using mutate_svc_le [OF assms] by (simp add: frame_le_def call_snd)

text \<open>Any method on an active ticket; the ticket is then unsaved.\<close>

lemma call_any: "step (live r) (call r op) (holds {r} r)"
proof (rule runsI)
  fix f f' :: "'a frame" and e assume "live r f"
  then have le: "frame_le f (snd (call r op f))" and inv: "svc_inv {} (fr_svc f)"
    and st: "sv_tickets (fr_svc f) (tk_id (ticket_at f r)) = Some r"
    by (auto intro: call_frame_le simp: live_def holds_def)
  { assume "call r op f = (None, f')"
    then have f': "f' = snd (call r op f)" by simp
    show "frame_le f f' \<and> holds {r} r f'"
      using le inv mutate_inv [of "{}" "fr_svc f" r op] mutate_stored [OF st, of op]
      by (simp add: f' holds_def call_snd svc_inv_def) }
  { assume "call r op f = (Some e, f')"
    then have "f' = f" by (rule call_error)
    with inv show "frame_le f f' \<and> idle f'" by (simp add: idle_def) }
qed

text \<open>A method that does not touch the status, on any ticket.\<close>

lemma call_quiet_snd:
  assumes "op_status op = None" and "holds {} r f"
  shows "frame_le f (snd (call r op f))" and "holds {} r (snd (call r op f))"
proof -
  show "frame_le f (snd (call r op f))" using assms(1) by (simp add: call_frame_le)
  show "holds {} r (snd (call r op f))"
    using assms mutate_inv_same [of "{}" "fr_svc f" op _ r] mutate_stored [of "fr_svc f" r op]
    by (simp add: holds_def call_snd svc_inv_def)
qed

lemma call_quiet:
  assumes "op_status op = None"
  shows "step (holds {} r) (call r op) (holds {} r)"
proof (rule runsI)
  fix f f' :: "'a frame" and e assume h: "holds {} r f"
  note ok = call_quiet_snd [OF assms h]
  { assume "call r op f = (None, f')"
    with ok show "frame_le f f' \<and> holds {} r f'" by simp }
  { assume "call r op f = (Some e, f')"
    then have "f' = f" by (rule call_error)
    with h show "frame_le f f' \<and> idle f'" by (simp add: holds_idle) }
qed

lemma call_quiet_live:
  assumes "op_status op = None"
  shows "step (live r) (call r op) (live r)"
proof (rule runsI)
  have act: "active_ref (snd (mutate r op s)) r = active_ref s r" for s :: "'a service"
    using assms ticket_step_status [of op "sv_heap s r"]
    by (cases rule: mutate_cases [of op s r]) (auto simp: active_ref_def)
  fix f f' :: "'a frame" and e assume h: "live r f"
  note ok = call_quiet_snd [OF assms live_holds [OF h]]
  { assume "call r op f = (None, f')"
    then have "f' = snd (call r op f)" by simp
    with h ok act show "frame_le f f' \<and> live r f'" by (simp add: live_def call_snd) }
  { assume "call r op f = (Some e, f')"
    then have "f' = f" by (rule call_error)
    with h show "frame_le f f' \<and> idle f'" by (simp add: live_idle) }
qed

text \<open>A guarded move to an active status: it succeeds only on an active ticket.\<close>

lemma call_activate:
  assumes "op_status op = Some st" and "IsActive st" and "op \<noteq> OpObserveSearching"
  shows "step (holds {} r) (call r op) (live r)"
proof (rule runsI)
  fix f f' :: "'a frame" and e assume h: "holds {} r f"
  { assume ok: "call r op f = (None, f')"
    then obtain t where t: "ticket_step op (ticket_at f r) = Inr t"
      and f': "f' = f\<lparr>fr_svc := put_ticket r t (fr_svc f)\<rparr>"
      by (cases rule: mutate_cases [of op "fr_svc f" r]) (auto simp: on_svc_def)
    have st: "tk_status t = st" using ticket_step_status [OF t] assms(1) by simp
    have "canTransitionTo (tk_status (ticket_at f r)) st"
      using ticket_step_guard [OF t assms(3)] by (simp add: st)
    then have act: "active_ref (fr_svc f) r"
      using assms(2) terminal_no_exit by (auto simp: active_ref_def IsActive_def)
    have "frame_le f f'" using call_frame_le [of op f r] act ok by simp
    moreover have "holds {} r f'"
      using h act assms(1,2) ok mutate_inv_same [of "{}" "fr_svc f" op _ r]
        mutate_stored [of "fr_svc f" r op] call_snd [of r op f]
      by (simp add: holds_def svc_inv_def)
    moreover have "active_ref (fr_svc f') r"
      using st assms(2) by (simp add: f' active_ref_def)
    ultimately show "frame_le f f' \<and> live r f'" by (simp add: live_def) }
  { assume "call r op f = (Some e, f')"
    then have "f' = f" by (rule call_error)
    with h show "frame_le f f' \<and> idle f'" by (simp add: holds_idle) }
qed

lemma result_snd [simp]: "snd (result p) = snd p"
  by (cases p; cases "fst p") auto

section \<open>Saving\<close>

lemma save_holds: "step (holds {r} r) (save r) (holds {} r)"
proof (rule runsI)
  fix f f' :: "'a frame" and e assume h: "holds {r} r f"
  have s: "SaveTicket (Some r) (fr_svc f) = (None, register_ticket r (fr_svc f))"
    and inv: "store_inv {} (register_ticket r (fr_svc f))"
    using h SaveTicket_stored [of "{r}" "fr_svc f" r] by (auto simp: holds_def svc_inv_def)
  { assume "save r f = (None, f')"
    then have f': "f' = f\<lparr>fr_svc := register_ticket r (fr_svc f)\<rparr>" by (simp add: on_svc_def s)
    have upd: "(sv_tickets (fr_svc f))(tk_id (ticket_at f r) \<mapsto> r) = sv_tickets (fr_svc f)"
      using h by (auto simp: holds_def)
    have "trackers_ok (register_ticket r (fr_svc f)) = trackers_ok (fr_svc f)"
      by (rule trackers_ok_cong) (simp_all add: register_ticket_simps)
    with h inv show "frame_le f f' \<and> holds {} r f'"
      by (simp add: f' frame_le_def svc_le_def holds_def svc_inv_def register_ticket_hext
          register_ticket_simps upd) }
  { assume "save r f = (Some e, f')"
    then show "frame_le f f' \<and> idle f'" by (simp add: on_svc_def s) }
qed

lemma save_quiet: "step (holds {} r) (save r) (holds {} r)"
  by (rule runs_pre [OF save_holds]) (auto intro: holds_mono)

section \<open>Batches, trackers, the engine\<close>

lemma batch_add_svc [simp]: "fr_svc (batch_add e f) = fr_svc f" "fr_eng (batch_add e f) = fr_eng f"
  by (simp_all add: batch_add_def)

lemma fold_batch_add:
  "fr_svc (fold batch_add es f) = fr_svc f" "fr_eng (fold batch_add es f) = fr_eng f"
  "fr_batch (fold batch_add es f) = fr_batch f @ map (record_event (fr_svc f)) es"
  by (induction es arbitrary: f) (simp_all add: batch_add_def)

lemma batch_add_le: "frame_le f (batch_add e f)" "frame_le f (fold batch_add es f)"
  by (simp_all add: frame_le_def fold_batch_add, simp add: batch_add_def)

lemma addTicket_holds: "step (holds {} r) (\<lambda>f. (None, addTicket r f)) (holds {} r)"
proof (rule runsI)
  fix f f' :: "'a frame" assume h: "holds {} r f" and "(None, addTicket r f) = (None :: err option, f')"
  then have f': "f' = fold batch_add (tk_events (ticket_at f r)) (snd (call r OpPullEvents f))"
    by (simp add: addTicket_def)
  obtain g where g: "call r OpPullEvents f = (None, g)"
    by (auto simp: on_svc_def mutate_def)
  have "frame_le f g" "holds {} r g"
    using runsD [OF call_quiet [of OpPullEvents r] h, where s' = g] g by auto
  with g show "frame_le f f' \<and> holds {} r f'"
    by (auto simp: f' holds_def fold_batch_add intro: frame_le_trans batch_add_le)
qed simp

lemma on_eng_svc: "fr_svc (snd (on_eng g f)) = fr_svc f" "fr_batch (snd (on_eng g f)) = fr_batch f"
  by (simp_all add: on_eng_def Let_def split: prod.split)

lemma eng_tolerant_keeps:
  assumes "\<And>f f' :: 'e frame. P f \<Longrightarrow> fr_svc f' = fr_svc f \<Longrightarrow> P f'" and "\<And>f. P f \<Longrightarrow> idle f"
  shows "step P (\<lambda>f. eng_tolerant (g f) f) P"
proof (rule runsI)
  fix f f' :: "'e frame" and e assume P: "P f"
  have *: "frame_le f f' \<and> P f'" if "f' = snd (on_eng (g f) f)"
    using assms(1) [OF P, of f'] that on_eng_svc [of "g f" f] by (simp add: frame_le_def)
  { assume "eng_tolerant (g f) f = (None, f')"
    with * show "frame_le f f' \<and> P f'" by (auto simp: eng_tolerant_def Let_def split: prod.splits) }
  { assume "eng_tolerant (g f) f = (Some e, f')"
    with * assms(2) show "frame_le f f' \<and> idle f'"
      by (auto simp: eng_tolerant_def Let_def split: prod.splits) }
qed

lemma holds_svc: "holds R r f \<Longrightarrow> fr_svc f' = fr_svc f \<Longrightarrow> holds R r f'"
  by (simp add: holds_def)

lemma live_svc: "live r f \<Longrightarrow> fr_svc f' = fr_svc f \<Longrightarrow> live r f'"
  by (simp add: live_def holds_def)

lemma captureRuleMetrics_holds: "step (holds {} r) (captureRuleMetrics d r) (holds {} r)"
proof (rule runs_at)
  fix f :: "'a frame" assume "holds {} r f"
  then show "reaches frame_le (holds {} r) idle f (captureRuleMetrics d r f)"
    unfolding captureRuleMetrics_def
    by (cases "fx_RuleMetrics d (tk_id (ticket_at f r)) (fr_eng f)")
       (simp_all add: frame.reaches_return reaches_run [OF call_quiet])
qed

lemma captureRuleMetrics_live: "step (live r) (captureRuleMetrics d r) (live r)"
proof (rule runs_at)
  fix f :: "'a frame" assume "live r f"
  then show "reaches frame_le (live r) idle f (captureRuleMetrics d r f)"
    unfolding captureRuleMetrics_def
    by (cases "fx_RuleMetrics d (tk_id (ticket_at f r)) (fr_eng f)")
       (simp_all add: frame.reaches_return reaches_run [OF call_quiet_live])
qed

section \<open>Trackers and match identifiers\<close>

lemma upd_tracker_simps:
  "sv_heap (upd_tracker n g s) = sv_heap s" "sv_next (upd_tracker n g s) = sv_next s"
  "sv_tickets (upd_tracker n g s) = sv_tickets s" "sv_reserved (upd_tracker n g s) = sv_reserved s"
  "sv_active (upd_tracker n g s) = sv_active s" "sv_byConfig (upd_tracker n g s) = sv_byConfig s"
  "sv_configurations (upd_tracker n g s) = sv_configurations s"
  "sv_ruleSets (upd_tracker n g s) = sv_ruleSets s" "sv_engines (upd_tracker n g s) = sv_engines s"
  "sv_IDs (upd_tracker n g s) = sv_IDs s" "sv_MatchIDs (upd_tracker n g s) = sv_MatchIDs s"
  "sv_trackers (upd_tracker n g s) = (sv_trackers s)(n := g (sv_trackers s n))"
  by (simp_all add: upd_tracker_def)

lemma upd_tracker_le: "svc_le s (upd_tracker n g s)"
  by (simp add: svc_le_def upd_tracker_simps hext_def)

lemma upd_tracker_store_inv: "store_inv R (upd_tracker n g s) = store_inv R s"
  by (rule store_inv_cong) (simp_all add: upd_tracker_simps)

lemma byMatch_keys:
  "fst ` set (tr_byMatch (assignAt ids m c pt)) = insert m (fst ` set (tr_byMatch pt))"
  "fst ` set (tr_byMatch (forget m pt)) \<subseteq> fst ` set (tr_byMatch pt)"
  by (auto simp: assignAt_def forget_def dom_update AList.delete_eq split: option.splits)

lemma forget_svc_inv:
  assumes "svc_inv R s"
  shows "svc_inv R (upd_tracker n (forget m) s)"
proof -
  have "trackers_ok (upd_tracker n (forget m) s)"
    using assms byMatch_keys(2) [of m "sv_trackers s n"]
    by (auto simp: svc_inv_def trackers_ok_def upd_tracker_simps tracker_wf_forget)
  with assms show ?thesis by (simp add: svc_inv_def upd_tracker_store_inv)
qed

lemma forget_holds:
  assumes "holds {} r f"
  shows "holds {} r (on_tracker n (forget m) f) \<and> frame_le f (on_tracker n (forget m) f)"
  using assms forget_svc_inv [of "{}" "fr_svc f" n m]
  by (simp add: holds_def on_tracker_def upd_tracker_simps frame_le_def upd_tracker_le)

lemma forget_idle:
  assumes "idle f"
  shows "idle (on_tracker n (forget m) f) \<and> frame_le f (on_tracker n (forget m) f)"
  using assms forget_svc_inv [of "{}" "fr_svc f" n m]
  by (simp add: idle_def on_tracker_def frame_le_def upd_tracker_le upd_tracker_simps)

lemma batch_add_idle: "idle f \<Longrightarrow> idle (batch_add e f)" "idle f \<Longrightarrow> idle (fold batch_add es f)"
  by (simp_all add: idle_def fold_batch_add)

text \<open>A new match identifier is not in any tracker, so a roster can be entered under it.\<close>

lemma fresh_match:
  assumes "svc_inv R s" and "NewID (sv_MatchIDs s) = (m, g)"
  shows "svc_inv R (upd_tracker n (assignAt ids m c) (s\<lparr>sv_MatchIDs := g\<rparr>))"
    and "svc_le s (upd_tracker n (assignAt ids m c) (s\<lparr>sv_MatchIDs := g\<rparr>))"
proof -
  let ?s = "upd_tracker n (assignAt ids m c) (s\<lparr>sv_MatchIDs := g\<rparr>)"
  have m: "m = ig_seq (sv_MatchIDs s) (ig_calls (sv_MatchIDs s))"
    and seq: "ig_seq g = ig_seq (sv_MatchIDs s)" and calls: "ig_calls g = Suc (ig_calls (sv_MatchIDs s))"
    using assms(2) by (auto simp: NewID_def)
  have iss: "issued g = insert m (issued (sv_MatchIDs s))"
    by (simp add: issued_def seq calls m lessThan_Suc)
  have "trackers_ok ?s"
    unfolding trackers_ok_def
  proof (intro impI allI conjI)
    assume "inj (ig_seq (sv_MatchIDs ?s))"
    then have inj: "inj (ig_seq (sv_MatchIDs s))" by (simp add: upd_tracker_simps seq)
    then have wf: "tracker_wf (sv_trackers s k)"
      and keys: "fst ` set (tr_byMatch (sv_trackers s k)) \<subseteq> issued (sv_MatchIDs s)" for k
      using assms(1) by (auto simp: svc_inv_def trackers_ok_def)
    have "m \<notin> issued (sv_MatchIDs s)" using inj by (auto simp: issued_def m inj_eq)
    then have "m \<notin> fst ` set (tr_byMatch (sv_trackers s n))" using keys by blast
    then have new: "ticketsFor m (sv_trackers s n) = None"
      by (simp add: ticketsFor_def map_of_eq_None_iff)
    fix k
    show "tracker_wf (sv_trackers ?s k)"
      using wf tracker_wf_assignAt [OF wf new] by (simp add: upd_tracker_simps)
    show "fst ` set (tr_byMatch (sv_trackers ?s k)) \<subseteq> issued (sv_MatchIDs ?s)"
      using keys by (auto simp: upd_tracker_simps byMatch_keys iss)
  qed
  moreover have "store_inv R (s\<lparr>sv_MatchIDs := g\<rparr>) = store_inv R s" by (rule store_inv_cong) simp_all
  ultimately show "svc_inv R ?s" using assms(1) by (simp add: svc_inv_def upd_tracker_store_inv)
  show "svc_le s ?s" by (simp add: svc_le_def upd_tracker_simps hext_def seq)
qed

lemma new_match_idle:
  assumes "idle f" and "NewMatchID f = (m, f')"
  shows "idle (on_tracker n (assignAt ids m c) f')" "frame_le f (on_tracker n (assignAt ids m c) f')"
  using assms fresh_match [of "{}" "fr_svc f" m _ n ids c]
  by (auto simp: NewMatchID_def on_svc_def idle_def on_tracker_def frame_le_def upd_tracker_simps
      split: prod.splits)

end
