(* ===== verification/Service_Commands.thy ===== *)
theory Service_Commands
  imports Event_Batch
begin

text \<open>
  The commands of the application service: \<open>start.go\<close>, \<open>backfill.go\<close>, \<open>stop.go\<close>, \<open>accept.go\<close>,
  \<open>describe.go\<close> and \<open>required_attributes.go\<close>. Each command is the part before the lock of the
  configuration and the part under it, because other commands can run in between; a command
  returns its result, the events it hands to the delivery lane, and the new service.
\<close>

section \<open>What all commands share\<close>

definition has_default :: "string \<Rightarrow> bool" where
  "has_default raw =
     (let value = TrimSpace raw in value \<noteq> [] \<and> value \<noteq> ''null'' \<and> value \<noteq> [CHR 0x22, CHR 0x22])"

definition validateRequiredAttributes ::
  "'e deps \<Rightarrow> configuration \<Rightarrow> player list \<Rightarrow> 'e service \<Rightarrow> err option" where
  "validateRequiredAttributes d cfg players s =
     (case GetRuleSet (cfg_RuleSetName cfg) s of
        Inl e \<Rightarrow> Some e
      | Inr rs \<Rightarrow>
          (case js_PlayerAttributes d (rs_Body rs) of
             None \<Rightarrow> Some ErrInvalidRuleSet
           | Some attrs \<Rightarrow>
               if list_all (\<lambda>(name, dflt). has_default dflt \<or>
                    list_all (\<lambda>p. map_of (pl_Attributes p) name \<noteq> None) players) attrs
               then None else Some ErrInvalidRequest))"

definition choose_id :: "ticket_id \<Rightarrow> 'e frame \<Rightarrow> (err + ticket_id) \<times> 'e frame" where
  "choose_id i f =
     (if i \<noteq> [] then (Inr i, f)
      else let (v, g) = NewID (sv_IDs (fr_svc f))
           in (NewTicketID v, f\<lparr>fr_svc := (fr_svc f)\<lparr>sv_IDs := g\<rparr>\<rparr>))"

fun enqueue_error :: "flexi_err \<Rightarrow> err" where
  "enqueue_error FxDuplicateTicket = ErrTicketAlreadyExists"
| "enqueue_error FxInvalidTicket = ErrInvalidRequest"
| "enqueue_error e = ErrEngine e"

definition release_id :: "ticket_id \<Rightarrow> 'e frame \<Rightarrow> 'e frame" where
  "release_id i f = f\<lparr>fr_svc := cancelTicketReservation i (fr_svc f)\<rparr>"

text \<open>
  The last steps of both start commands: the ticket object becomes shared, the reservation
  becomes the ticket, its events join the batch.
\<close>

definition publish_ticket :: "ticket \<Rightarrow> 'e frame \<Rightarrow> (err + ref) \<times> 'e frame" where
  "publish_ticket t f =
     (let (r, s) = alloc t (fr_svc f)
      in (Inr r, addTicket r (f\<lparr>fr_svc := commitTicket r s\<rparr>)))"

section \<open>StartMatchmaking\<close>

definition start_enqueue :: "'e deps \<Rightarrow> start_cmd \<Rightarrow> ticket \<Rightarrow> 'e frame \<Rightarrow> (err + ref) \<times> 'e frame" where
  "start_enqueue d cmd t f =
     (case on_svc (reserveTicketID (tk_id t)) f of
        (Some e, f) \<Rightarrow> (Inl e, f)
      | (None, f) \<Rightarrow>
          (case on_eng (fx_Enqueue d \<lparr>ft_ID = tk_id t, ft_Players = sc_Players cmd\<rparr>) f of
             (Some e, f) \<Rightarrow> (Inl (enqueue_error e), release_id (tk_id t) f)
           | (None, f) \<Rightarrow> publish_ticket t f))"

definition start_body ::
  "'e deps \<Rightarrow> gotime \<Rightarrow> start_cmd \<Rightarrow> configuration \<Rightarrow> 'e frame \<Rightarrow> (err + ref) \<times> 'e frame" where
  "start_body d now cmd cfg f =
     (case validateRequiredAttributes d cfg (sc_Players cmd) (fr_svc f) of
        Some e \<Rightarrow> (Inl e, f)
      | None \<Rightarrow>
          (case choose_id (sc_TicketID cmd) f of
             (Inl e, f) \<Rightarrow> (Inl e, f)
           | (Inr i, f) \<Rightarrow>
               (case NewTicket i cfg (sc_Players cmd) now of
                  Inl e \<Rightarrow> (Inl e, f)
                | Inr t \<Rightarrow> start_enqueue d cmd t f)))"

definition Start_locked ::
  "'e deps \<Rightarrow> err option \<Rightarrow> gotime \<Rightarrow> config_name \<Rightarrow> start_cmd \<Rightarrow> 'e service \<Rightarrow>
     (err + ref) \<times> recorded_event list \<times> 'e service" where
  "Start_locked d ctx now name cmd = locked_configured ctx name (start_body d now cmd)"

definition StartMatchmaking ::
  "'e deps \<Rightarrow> call_env \<Rightarrow> gotime \<Rightarrow> start_cmd \<Rightarrow> 'e service \<Rightarrow>
     (err + ref) \<times> recorded_event list \<times> 'e service" where
  "StartMatchmaking d env now cmd s =
     (if sc_Players cmd = [] then (Inl ErrInvalidCommand, [], s)
      else case GetConfiguration (sc_ConfigurationName cmd) s of
             Inl e \<Rightarrow> (Inl e, [], s)
           | Inr cfg \<Rightarrow>
               (case ce_reserve env of
                  Some e \<Rightarrow> (Inl e, [], s)
                | None \<Rightarrow> Start_locked d (ce_ctx env) now (cfg_Name cfg) cmd s))"

section \<open>StartMatchBackfill\<close>

definition isSupersedable :: "ticket_status \<Rightarrow> bool" where
  "isSupersedable st \<longleftrightarrow> st = StatusQueued \<or> st = StatusSearching"

fun find_session :: "ticket_id list \<Rightarrow> string \<Rightarrow> 'e service \<Rightarrow> ref option" where
  "find_session [] arn s = None"
| "find_session (i # ids) arn s =
     (case GetTicket i s of
        Inl e \<Rightarrow> find_session ids arn s
      | Inr r \<Rightarrow>
          (let t = sv_heap s r in
           if tk_isBackfill t \<and> tk_gameSessionARN t = arn \<and> IsActive (tk_status t) then Some r
           else find_session ids arn s))"

definition findSessionBackfill :: "config_name \<Rightarrow> string \<Rightarrow> 'e service \<Rightarrow> ref option" where
  "findSessionBackfill name arn s = find_session (ActiveTicketIDsByConfiguration name s) arn s"

definition supersedeBackfill :: "'e deps \<Rightarrow> ref \<Rightarrow> gotime \<Rightarrow> 'e frame \<Rightarrow> err option \<times> 'e frame" where
  "supersedeBackfill d prev now =
     and_then (captureRuleMetrics d prev)
       (and_then (\<lambda>f. eng_tolerant (fx_Cancel d (tk_id (ticket_at f prev))) f)
         (and_then (call prev (OpMarkCancelledBySuperseded now))
           (and_then (save prev) (\<lambda>f. (None, addTicket prev f)))))"

text \<open>
  Undoing the new request when the old one cannot be retired. The reservation is released only
  when the engine let go of the new ticket.
\<close>

definition undo_backfill :: "'e deps \<Rightarrow> ticket_id \<Rightarrow> err \<Rightarrow> 'e frame \<Rightarrow> (err + ref) \<times> 'e frame" where
  "undo_backfill d i e f =
     (case eng_tolerant (fx_Cancel d i) f of
        (Some ce, f) \<Rightarrow> (Inl (ErrJoin e ce), f)
      | (None, f) \<Rightarrow>
          (case eng_tolerant (fx_Evict d i) f of
             (Some ee, f) \<Rightarrow> (Inl (ErrJoin e ee), f)
           | (None, f) \<Rightarrow> (Inl e, release_id i f)))"

definition backfill_enqueue ::
  "'e deps \<Rightarrow> gotime \<Rightarrow> backfill_cmd \<Rightarrow> ref option \<Rightarrow> ticket \<Rightarrow> 'e frame \<Rightarrow> (err + ref) \<times> 'e frame" where
  "backfill_enqueue d now cmd superseded t f =
     (case on_svc (reserveTicketID (tk_id t)) f of
        (Some e, f) \<Rightarrow> (Inl e, f)
      | (None, f) \<Rightarrow>
          (case on_eng (fx_EnqueueBackfill d \<lparr>ft_ID = tk_id t, ft_Players = bc_Players cmd\<rparr>) f of
             (Some e, f) \<Rightarrow> (Inl (enqueue_error e), release_id (tk_id t) f)
           | (None, f) \<Rightarrow>
               (case superseded of
                  None \<Rightarrow> publish_ticket t f
                | Some prev \<Rightarrow>
                    (case supersedeBackfill d prev now f of
                       (Some e, f) \<Rightarrow> undo_backfill d (tk_id t) e f
                     | (None, f) \<Rightarrow> publish_ticket t f))))"

definition session_to_supersede :: "config_name \<Rightarrow> backfill_cmd \<Rightarrow> 'e service \<Rightarrow> ref option" where
  "session_to_supersede name cmd s =
     (if bc_GameSessionARN cmd = [] then None
      else findSessionBackfill name (bc_GameSessionARN cmd) s)"

definition backfill_body ::
  "'e deps \<Rightarrow> gotime \<Rightarrow> backfill_cmd \<Rightarrow> configuration \<Rightarrow> 'e frame \<Rightarrow> (err + ref) \<times> 'e frame" where
  "backfill_body d now cmd cfg f =
     (case validateRequiredAttributes d cfg (bc_Players cmd) (fr_svc f) of
        Some e \<Rightarrow> (Inl e, f)
      | None \<Rightarrow>
          (let superseded = session_to_supersede (cfg_Name cfg) cmd (fr_svc f) in
           if (case superseded of None \<Rightarrow> False
               | Some r \<Rightarrow> \<not> isSupersedable (tk_status (ticket_at f r)))
           then (Inl ErrBackfillInProgress, f)
           else case choose_id (bc_TicketID cmd) f of
                  (Inl e, f) \<Rightarrow> (Inl e, f)
                | (Inr i, f) \<Rightarrow>
                    (case NewBackfillTicket i cfg (bc_Players cmd) (bc_GameSessionARN cmd) now of
                       Inl e \<Rightarrow> (Inl e, f)
                     | Inr t \<Rightarrow> backfill_enqueue d now cmd superseded t f)))"

definition Backfill_locked ::
  "'e deps \<Rightarrow> err option \<Rightarrow> gotime \<Rightarrow> config_name \<Rightarrow> backfill_cmd \<Rightarrow> 'e service \<Rightarrow>
     (err + ref) \<times> recorded_event list \<times> 'e service" where
  "Backfill_locked d ctx now name cmd = locked_configured ctx name (backfill_body d now cmd)"

definition StartMatchBackfill ::
  "'e deps \<Rightarrow> call_env \<Rightarrow> gotime \<Rightarrow> backfill_cmd \<Rightarrow> 'e service \<Rightarrow>
     (err + ref) \<times> recorded_event list \<times> 'e service" where
  "StartMatchBackfill d env now cmd s =
     (if bc_Players cmd = [] then (Inl ErrInvalidCommand, [], s)
      else case GetConfiguration (bc_ConfigurationName cmd) s of
             Inl e \<Rightarrow> (Inl e, [], s)
           | Inr cfg \<Rightarrow>
               (case ce_reserve env of
                  Some e \<Rightarrow> (Inl e, [], s)
                | None \<Rightarrow> Backfill_locked d (ce_ctx env) now (cfg_Name cfg) cmd s))"

section \<open>Commands on a ticket\<close>

text \<open>
  \<open>StopMatchmaking\<close> and \<open>AcceptMatch\<close> look the ticket up, wait for its configuration's lock, and
  give up when the identifier no longer denotes the same object.
\<close>

definition on_ticket ::
  "err option \<Rightarrow> ticket_id \<Rightarrow> ref \<Rightarrow> ('e frame \<Rightarrow> (err + 'a) \<times> 'e frame) \<Rightarrow> 'e service \<Rightarrow>
     (err + 'a) \<times> recorded_event list \<times> 'e service" where
  "on_ticket ctx i r body s =
     (case ctx of
        Some e \<Rightarrow> (Inl e, [], s)
      | None \<Rightarrow>
          if GetTicket i s \<noteq> Inr r then (Inl ErrTicketNotFound, [], s)
          else with_engine (tk_configurationName (sv_heap s r)) body s)"

definition find_then ::
  "call_env \<Rightarrow> ticket_id \<Rightarrow>
     (ref \<Rightarrow> 'e service \<Rightarrow> (err + 'a) \<times> recorded_event list \<times> 'e service) \<Rightarrow> 'e service \<Rightarrow>
     (err + 'a) \<times> recorded_event list \<times> 'e service" where
  "find_then env i body s =
     (case GetTicket i s of
        Inl e \<Rightarrow> (Inl e, [], s)
      | Inr r \<Rightarrow>
          (case ce_reserve env of
             Some e \<Rightarrow> (Inl e, [], s)
           | None \<Rightarrow> body r s))"

section \<open>StopMatchmaking\<close>

definition stop_body :: "'e deps \<Rightarrow> ref \<Rightarrow> 'e frame \<Rightarrow> (err + unit) \<times> 'e frame" where
  "stop_body d r f =
     (case on_eng (fx_Cancel d (tk_id (ticket_at f r))) f of
        (Some e, f) \<Rightarrow> (Inl (if e = FxUnknownTicket then ErrTicketNotFound else ErrEngine e), f)
      | (None, f) \<Rightarrow> result (and_then (call r OpRequestCancel) (save r) f))"

definition Stop_locked ::
  "'e deps \<Rightarrow> err option \<Rightarrow> ticket_id \<Rightarrow> ref \<Rightarrow> 'e service \<Rightarrow>
     (err + unit) \<times> recorded_event list \<times> 'e service" where
  "Stop_locked d ctx i r = on_ticket ctx i r (stop_body d r)"

definition StopMatchmaking ::
  "'e deps \<Rightarrow> call_env \<Rightarrow> ticket_id \<Rightarrow> 'e service \<Rightarrow>
     (err + unit) \<times> recorded_event list \<times> 'e service" where
  "StopMatchmaking d env i = find_then env i (Stop_locked d (ce_ctx env) i)"

section \<open>AcceptMatch\<close>

fun dedupe :: "player_id list \<Rightarrow> player_id list \<Rightarrow> player_id list" where
  "dedupe [] acc = acc"
| "dedupe (p # ps) acc = dedupe ps (if p \<in> set acc then acc else acc @ [p])"

fun accept_error :: "flexi_err \<Rightarrow> err" where
  "accept_error FxUnknownTicket = ErrTicketNotFound"
| "accept_error FxUnknownProposal = ErrProposalNotFound"
| "accept_error FxUnknownPlayer = ErrPlayerNotInTicket"
| "accept_error e = ErrEngine e"

definition answer :: "'e deps \<Rightarrow> bool \<Rightarrow> string \<Rightarrow> player_id \<Rightarrow> 'e frame \<Rightarrow> err option \<times> 'e frame" where
  "answer d accepted i p f =
     (let (x, f) = on_eng (if accepted then fx_Accept d i p else fx_Reject d i p) f
      in (map_option accept_error x, f))"

text \<open>The players that answer, each once, and which of the answers the engine is told.\<close>

definition accept_players :: "accept_cmd \<Rightarrow> player_id list" where
  "accept_players cmd = dedupe (ac_PlayerIDs cmd) []"

definition engine_players :: "accept_cmd \<Rightarrow> player_id list" where
  "engine_players cmd =
     (if ac_Accepted cmd then accept_players cmd else take 1 (accept_players cmd))"

definition answer_all :: "'e deps \<Rightarrow> accept_cmd \<Rightarrow> string \<Rightarrow> 'e frame \<Rightarrow> err option \<times> 'e frame" where
  "answer_all d cmd i = foreach (answer d (ac_Accepted cmd) i) (engine_players cmd)"

fun collect_acceptances ::
  "'e service \<Rightarrow> ticket_id list \<Rightarrow> (player_id \<rightharpoonup> bool) \<Rightarrow> (player_id \<rightharpoonup> bool)" where
  "collect_acceptances s [] m = m"
| "collect_acceptances s (i # ids) m =
     (case GetTicket i s of
        Inl e \<Rightarrow> collect_acceptances s ids m
      | Inr r \<Rightarrow>
          collect_acceptances s ids
            (fold (\<lambda>(p, b) m. m(p \<mapsto> b)) (tk_playerAcceptances (sv_heap s r)) m))"

definition match_roster :: "config_name \<Rightarrow> match_id \<Rightarrow> ref \<Rightarrow> 'e frame \<Rightarrow> ticket_id list" where
  "match_roster name m r f =
     (case ticketsFor m (tracker_of name f) of
        None \<Rightarrow> [tk_id (ticket_at f r)]
      | Some ids \<Rightarrow> ids)"

definition accept_event :: "config_name \<Rightarrow> gotime \<Rightarrow> ref \<Rightarrow> 'e frame \<Rightarrow> event" where
  "accept_event name now r f =
     (let m = tk_matchID (ticket_at f r); ids = match_roster name m r f
      in NewAcceptMatch name m ids (collect_acceptances (fr_svc f) ids Map.empty) now)"

definition accept_body ::
  "'e deps \<Rightarrow> gotime \<Rightarrow> accept_cmd \<Rightarrow> ref \<Rightarrow> 'e frame \<Rightarrow> (err + unit) \<times> 'e frame" where
  "accept_body d now cmd r f =
     (let t = ticket_at f r; i = tk_id t; ids = accept_players cmd in
      case ValidatePlayerAcceptances ids t of
        Some e \<Rightarrow> (Inl e, f)
      | None \<Rightarrow>
          if \<not> list_ex (\<lambda>p. i \<in> set (fp_TicketIDs p)) (fx_PendingAcceptances d (fr_eng f))
          then (Inl ErrProposalNotFound, f)
          else case answer_all d cmd i f of
                 (Some e, f) \<Rightarrow> (Inl e, f)
               | (None, f) \<Rightarrow>
                   (case and_then (call r (OpRecordPlayerAcceptances ids (ac_Accepted cmd))) (save r) f of
                      (Some e, f) \<Rightarrow> (Inl e, f)
                    | (None, f) \<Rightarrow>
                        (Inr (), batch_add (accept_event (tk_configurationName t) now r f) f)))"

definition Accept_locked ::
  "'e deps \<Rightarrow> err option \<Rightarrow> gotime \<Rightarrow> accept_cmd \<Rightarrow> ref \<Rightarrow> 'e service \<Rightarrow>
     (err + unit) \<times> recorded_event list \<times> 'e service" where
  "Accept_locked d ctx now cmd r = on_ticket ctx (ac_TicketID cmd) r (accept_body d now cmd r)"

definition AcceptMatch ::
  "'e deps \<Rightarrow> call_env \<Rightarrow> gotime \<Rightarrow> accept_cmd \<Rightarrow> 'e service \<Rightarrow>
     (err + unit) \<times> recorded_event list \<times> 'e service" where
  "AcceptMatch d env now cmd = find_then env (ac_TicketID cmd) (Accept_locked d (ce_ctx env) now cmd)"

section \<open>DescribeMatchmaking\<close>

definition DescribeMatchmaking :: "ticket_id list \<Rightarrow> 'e service \<Rightarrow> ref list" where
  "DescribeMatchmaking ids s = GetTickets ids s"

end
