(* ===== verification/Command_Laws.thy ===== *)
theory Command_Laws
  imports Frame_Laws Service_Commands
begin

text \<open>
  Every command keeps the invariant of the service and moves up in the order of service states,
  also when it fails; what a successful start adds.
\<close>

section \<open>The order of a whole command\<close>

definition svc_grow :: "'e service \<Rightarrow> 'e service \<Rightarrow> bool" where
  "svc_grow s s' \<longleftrightarrow> hext s s' \<and>
     sv_configurations s' = sv_configurations s \<and> sv_ruleSets s' = sv_ruleSets s \<and>
     dom (sv_engines s') = dom (sv_engines s) \<and> ig_seq (sv_IDs s') = ig_seq (sv_IDs s) \<and>
     ig_seq (sv_MatchIDs s') = ig_seq (sv_MatchIDs s)"

lemma svc_grow_refl [simp]: "svc_grow s s"
  by (simp add: svc_grow_def)

lemma svc_grow_trans: "svc_grow s t \<Longrightarrow> svc_grow t u \<Longrightarrow> svc_grow s u"
  unfolding svc_grow_def by (metis hext_trans)

interpretation grow: state_order svc_grow
  by unfold_locales (auto intro: svc_grow_trans)

lemma svc_le_grow: "svc_le s s' \<Longrightarrow> svc_grow s s'"
  by (simp add: svc_le_def svc_grow_def)

lemma frame_shrink_grow: "frame_shrink f f' \<Longrightarrow> svc_grow (fr_svc f) (fr_svc f')"
  by (simp add: frame_shrink_def svc_le_grow)

lemma frame_le_grow: "frame_le f f' \<Longrightarrow> svc_grow (fr_svc f) (fr_svc f')"
  by (rule frame_shrink_grow [OF frame_le_shrink])

text \<open>Putting the engine back.\<close>

lemma Register_simps:
  "sv_heap (Register n e s) = sv_heap s" "sv_tickets (Register n e s) = sv_tickets s"
  "sv_next (Register n e s) = sv_next s" "sv_reserved (Register n e s) = sv_reserved s"
  "sv_active (Register n e s) = sv_active s" "sv_byConfig (Register n e s) = sv_byConfig s"
  "sv_trackers (Register n e s) = sv_trackers s" "sv_IDs (Register n e s) = sv_IDs s" "sv_MatchIDs (Register n e s) = sv_MatchIDs s"
  "sv_configurations (Register n e s) = sv_configurations s"
  "sv_ruleSets (Register n e s) = sv_ruleSets s" "sv_nextCleanup (Register n e s) = sv_nextCleanup s"
  "sv_engines (Register n e s) = (sv_engines s)(n \<mapsto> e)"
  by (simp_all add: Register_def)

lemma Register_inv: "svc_inv R (Register n e s) = svc_inv R s"
  unfolding svc_inv_def
  by (intro arg_cong2 [where f = "(\<and>)"] store_inv_cong trackers_ok_cong) (simp_all add: Register_simps)

definition opened :: "'e service \<Rightarrow> 'e \<Rightarrow> 'e frame" where
  "opened s eng = \<lparr>fr_svc = s, fr_eng = eng, fr_batch = []\<rparr>"

lemma opened_simps [simp]: "fr_svc (opened s e) = s" "fr_eng (opened s e) = e" "fr_batch (opened s e) = []"
  by (simp_all add: opened_def)

lemma with_engine_cases:
  obtains (none) e where "with_engine n body s = (Inl e, [], s)" "EngineFor n s = Inl e"
  | (ran) eng x f where "EngineFor n s = Inr eng" "body (opened s eng) = (x, f)"
      "with_engine n body s = (x, fr_batch f, Register n (fr_eng f) (fr_svc f))"
proof (cases "EngineFor n s")
  case (Inl e)
  then show ?thesis using none by (simp add: with_engine_def)
next
  case (Inr eng)
  moreover obtain x f where "body (opened s eng) = (x, f)" by fastforce
  ultimately show ?thesis using ran by (simp add: with_engine_def opened_def)
qed

text \<open>
  A command keeps the invariant when its body does; \<open>body_ok\<close> is what has to be shown of a body.
\<close>

definition body_ok :: "('e frame \<Rightarrow> 'a \<times> 'e frame) \<Rightarrow> 'e frame \<Rightarrow> bool" where
  "body_ok body f \<longleftrightarrow> idle f \<longrightarrow>
     svc_grow (fr_svc f) (fr_svc (snd (body f))) \<and> idle (snd (body f))"

lemma with_engine_keeps:
  assumes "svc_inv {} s" and "\<And>f. body_ok body f" and "with_engine n body s = (x, evs, s')"
  shows "svc_inv {} s' \<and> svc_grow s s'"
proof (cases rule: with_engine_cases [of n body s])
  case (ran eng y f)
  then have s': "s' = Register n (fr_eng f) (fr_svc f)" using assms(3) by simp
  have "svc_grow s (fr_svc f)" "svc_inv {} (fr_svc f)"
    using assms(1) assms(2) [of "opened s eng"] ran(2) by (auto simp: body_ok_def idle_def)
  moreover have "n \<in> dom (sv_engines s)"
    using ran(1) by (auto simp: EngineFor_def split: option.splits)
  ultimately show ?thesis
    by (auto simp: s' Register_inv svc_grow_def Register_simps hext_def)
qed (use assms in simp)

lemma locked_configured_keeps:
  assumes "svc_inv {} s" and "\<And>cfg f. body_ok (body cfg) f"
    and "locked_configured ctx n body s = (x, evs, s')"
  shows "svc_inv {} s' \<and> svc_grow s s'"
  using assms(1,3) with_engine_keeps [OF assms(1) assms(2)]
  by (auto simp: locked_configured_def split: option.splits sum.splits)

lemma on_ticket_keeps:
  assumes "svc_inv {} s" and "\<And>f. (\<exists>i. find_ticket i f = Inr r) \<Longrightarrow> body_ok body f"
    and "on_ticket ctx i r body s = (x, evs, s')"
  shows "svc_inv {} s' \<and> svc_grow s s'"
proof (cases "ctx = None \<and> GetTicket i s = Inr r")
  case True
  let ?body = "\<lambda>f. if find_ticket i f = Inr r then body f else (Inl ErrTicketNotFound, f)"
  have "body_ok ?body f" for f using assms(2) [of f] by (auto simp: body_ok_def)
  moreover have "with_engine n ?body s = with_engine n body s" for n
    using True by (simp add: with_engine_def split: sum.split)
  ultimately show ?thesis
    using with_engine_keeps [OF assms(1), of ?body] assms(3) True by (auto simp: on_ticket_def)
qed (use assms in \<open>auto simp: on_ticket_def split: option.splits if_splits\<close>)

section \<open>Start\<close>

lemma choose_id_keeps:
  assumes "idle f" and "choose_id i f = (x, f')"
  shows "idle f' \<and> frame_le f f' \<and> sv_tickets (fr_svc f') = sv_tickets (fr_svc f) \<and> fr_eng f' = fr_eng f \<and>
    fr_batch f' = fr_batch f \<and> sv_heap (fr_svc f') = sv_heap (fr_svc f) \<and>
    sv_reserved (fr_svc f') = sv_reserved (fr_svc f)"
proof -
  have "store_inv {} (s\<lparr>sv_IDs := g\<rparr>) = store_inv {} s" for s :: "'a service" and g
    by (rule store_inv_cong) simp_all
  moreover have "trackers_ok (s\<lparr>sv_IDs := g\<rparr>) = trackers_ok s" for s :: "'a service" and g
    by (rule trackers_ok_cong) simp_all
  ultimately show ?thesis using assms
    by (auto simp: choose_id_def NewID_def idle_def svc_inv_def frame_le_def svc_le_def hext_def
        split: if_splits prod.splits)
qed

lemma reserve_keeps:
  assumes "idle f" and "on_svc (reserveTicketID i) f = (x, f')"
  shows "idle f' \<and> frame_le f f'" and "x = None \<Longrightarrow> sv_tickets (fr_svc f') i = None"
    and "x \<noteq> None \<Longrightarrow> f' = f \<and> x = Some ErrTicketAlreadyExists"
    and "sv_tickets (fr_svc f') = sv_tickets (fr_svc f)" "fr_eng f' = fr_eng f" "fr_batch f' = fr_batch f"
      "sv_heap (fr_svc f') = sv_heap (fr_svc f)"
      "x = None \<Longrightarrow> sv_reserved (fr_svc f') = insert i (sv_reserved (fr_svc f))"
proof -
  have f': "f' = f\<lparr>fr_svc := snd (reserveTicketID i (fr_svc f))\<rparr>" and x: "x = fst (reserveTicketID i (fr_svc f))"
    using assms(2) by (auto simp: on_svc_def split: prod.splits)
  have "trackers_ok (snd (reserveTicketID i s)) = trackers_ok s" for s :: "'a service"
    by (rule trackers_ok_cong) (simp_all add: reserveTicketID_def)
  then show "idle f' \<and> frame_le f f'"
    using assms(1) reserve_inv [of "{}" "fr_svc f" i] reservation_hext(1) [of "fr_svc f" i]
    by (auto simp: f' idle_def svc_inv_def frame_le_def svc_le_def reserveTicketID_def)
qed (use assms(2) in \<open>auto simp: on_svc_def reserveTicketID_def split: if_splits\<close>)

lemma release_keeps:
  assumes "idle f"
  shows "idle (release_id i f) \<and> frame_le f (release_id i f)"
proof -
  have "trackers_ok (cancelTicketReservation i s) = trackers_ok s" for s :: "'a service"
    by (rule trackers_ok_cong) (simp_all add: cancelTicketReservation_def)
  then show ?thesis
    using assms cancel_reservation_inv [of "{}" "fr_svc f" i] reservation_hext(2) [of "fr_svc f" i]
    by (auto simp: release_id_def idle_def svc_inv_def frame_le_def svc_le_def cancelTicketReservation_def)
qed

lemma on_eng_keeps:
  assumes "on_eng g f = (x, f')"
  shows "frame_le f f'" "fr_svc f' = fr_svc f" "fr_batch f' = fr_batch f" "idle f' = idle f"
  using assms by (auto simp: on_eng_def idle_def frame_le_def split: prod.splits)

text \<open>The store after a ticket became shared, before its events are taken.\<close>

definition stored_new :: "ticket \<Rightarrow> 'e frame \<Rightarrow> 'e frame" where
  "stored_new t f =
     f\<lparr>fr_svc := commitTicket (sv_next (fr_svc f)) (snd (alloc t (fr_svc f)))\<rparr>"

lemma publish_ticket_eq:
  "publish_ticket t f = (Inr (sv_next (fr_svc f)), addTicket (sv_next (fr_svc f)) (stored_new t f))"
  by (simp add: publish_ticket_def stored_new_def alloc_def)

lemma commit_simps:
  "sv_tickets (commitTicket r s) = (sv_tickets s)(tk_id (sv_heap s r) \<mapsto> r)"
  "sv_heap (commitTicket r s) = sv_heap s" "sv_next (commitTicket r s) = sv_next s"
  "sv_trackers (commitTicket r s) = sv_trackers s" "sv_IDs (commitTicket r s) = sv_IDs s" "sv_MatchIDs (commitTicket r s) = sv_MatchIDs s"
  "sv_configurations (commitTicket r s) = sv_configurations s"
  "sv_ruleSets (commitTicket r s) = sv_ruleSets s" "sv_engines (commitTicket r s) = sv_engines s"
  "sv_reserved (commitTicket r s) = sv_reserved s - {tk_id (sv_heap s r)}"
  by (simp_all add: commitTicket_def cancelTicketReservation_def register_ticket_simps)

lemma stored_new_keeps:
  assumes "idle f" and "sv_tickets (fr_svc f) (tk_id t) = None"
  shows "holds {} (sv_next (fr_svc f)) (stored_new t f)"
    and "svc_grow (fr_svc f) (fr_svc (stored_new t f))"
    and "sv_tickets (fr_svc (stored_new t f)) = (sv_tickets (fr_svc f))(tk_id t \<mapsto> sv_next (fr_svc f))"
    and "ticket_at (stored_new t f) = (sv_heap (fr_svc f))(sv_next (fr_svc f) := t)"
    and "fr_batch (stored_new t f) = fr_batch f"
proof -
  let ?r = "sv_next (fr_svc f)"
  let ?s = "snd (alloc t (fr_svc f))"
  have inv: "store_inv {} ?s" using assms(1) by (simp add: idle_def svc_inv_def alloc_inv)
  have "store_inv {} (commitTicket ?r ?s)"
    by (rule commit_inv [OF inv]) (use assms(2) in \<open>simp_all add: alloc_simps\<close>)
  moreover have "trackers_ok (commitTicket ?r ?s) = trackers_ok (fr_svc f)"
    by (rule trackers_ok_cong) (simp_all add: commit_simps alloc_def)
  ultimately show "holds {} ?r (stored_new t f)"
    using assms(1) by (simp add: holds_def stored_new_def svc_inv_def idle_def commit_simps alloc_simps)
  show "svc_grow (fr_svc f) (fr_svc (stored_new t f))"
    using hext_trans [OF alloc_hext [of "fr_svc f" t] commit_hext [of _ ?r]]
    by (simp add: svc_grow_def stored_new_def commit_simps alloc_def)
qed (simp_all add: stored_new_def commit_simps alloc_simps fun_upd_def)

lemma addTicket_frame:
  "sv_tickets (fr_svc (addTicket r f)) = sv_tickets (fr_svc f)"
  "ticket_at (addTicket r f) = (sv_heap (fr_svc f))(r := (ticket_at f r)\<lparr>tk_events := []\<rparr>)"
  "fr_batch (addTicket r f) =
     fr_batch f @ map (record_event (fr_svc (addTicket r f))) (tk_events (ticket_at f r))"
  by (simp_all add: addTicket_def Let_def fold_batch_add on_svc_def mutate_def PullEvents_def
      fun_upd_def)

lemma publish_keeps:
  assumes "idle f" and "sv_tickets (fr_svc f) (tk_id t) = None"
  shows "svc_grow (fr_svc f) (fr_svc (snd (publish_ticket t f))) \<and> idle (snd (publish_ticket t f))"
proof -
  note new = stored_new_keeps [OF assms]
  from runsD(1,2) [OF addTicket_holds new(1) refl] new(2)
  show ?thesis
    by (auto simp: publish_ticket_eq holds_idle intro: svc_grow_trans frame_le_grow)
qed

lemma frame_grow_trans: "frame_le f g \<Longrightarrow> svc_grow (fr_svc g) s \<Longrightarrow> svc_grow (fr_svc f) s"
  by (blast intro: svc_grow_trans frame_le_grow)

lemma start_enqueue_ok: "body_ok (start_enqueue d cmd t) f"
  unfolding body_ok_def
proof
  assume idle: "idle f"
  obtain x f1 where f1: "on_svc (reserveTicketID (tk_id t)) f = (x, f1)" by fastforce
  note r = reserve_keeps [OF idle f1]
  obtain y f2 where f2: "on_eng (fx_Enqueue d \<lparr>ft_ID = tk_id t, ft_Players = sc_Players cmd\<rparr>) f1 = (y, f2)"
    by fastforce
  note e = on_eng_keeps [OF f2]
  have idle2: "idle f2" and le2: "frame_le f f2" using r(1) e frame_le_trans by blast+
  show "svc_grow (fr_svc f) (fr_svc (snd (start_enqueue d cmd t f))) \<and> idle (snd (start_enqueue d cmd t f))"
  proof (cases x)
    case None
    then have free: "sv_tickets (fr_svc f2) (tk_id t) = None" using r(2) e(2) by simp
    show ?thesis
      using publish_keeps [OF idle2 free] release_keeps [OF idle2, of "tk_id t"] frame_grow_trans [OF le2]
      by (cases y) (auto simp: start_enqueue_def f1 None f2 intro: frame_le_grow)
  qed (use r f1 frame_le_grow in \<open>simp add: start_enqueue_def\<close>)
qed

lemma start_body_ok: "body_ok (start_body d now cmd cfg) f"
  unfolding body_ok_def
proof
  assume idle: "idle f"
  obtain x f1 where f1: "choose_id (sc_TicketID cmd) f = (x, f1)" by fastforce
  note c = choose_id_keeps [OF idle f1]
  then have "svc_grow (fr_svc f) (fr_svc f1)" "idle f1" by (auto intro: frame_le_grow)
  then show "svc_grow (fr_svc f) (fr_svc (snd (start_body d now cmd cfg f))) \<and> idle (snd (start_body d now cmd cfg f))"
    using idle start_enqueue_ok [of d cmd _ f1] svc_grow_trans
    by (auto simp: start_body_def f1 body_ok_def split: option.split sum.split)
qed

section \<open>Backfill\<close>

lemma frame_le_tickets: "frame_le f f' \<Longrightarrow> sv_tickets (fr_svc f) i = None \<Longrightarrow> sv_tickets (fr_svc f') i = None"
  by (simp add: frame_le_def)

lemma supersedeBackfill_step: "step (live r) (supersedeBackfill d r now) (holds {} r)"
proof -
  have cancel: "step (live r) (\<lambda>f. eng_tolerant (fx_Cancel d (tk_id (ticket_at f r))) f) (live r)"
    by (rule eng_tolerant_keeps) (auto intro: live_svc live_idle)
  show ?thesis
    unfolding supersedeBackfill_def
    by (rule frame.runs_and_then [OF captureRuleMetrics_live frame.runs_and_then [OF cancel
          frame.runs_and_then [OF call_any frame.runs_and_then [OF save_holds addTicket_holds]]]])
qed

lemma find_session_found:
  assumes "find_session ids arn s = Some r"
  shows "\<exists>i\<in>set ids. GetTicket i s = Inr r \<and> tk_isBackfill (sv_heap s r) \<and>
    tk_gameSessionARN (sv_heap s r) = arn \<and> active_ref s r"
  using assms by (induction ids) (auto simp: Let_def active_ref_def split: sum.splits if_splits)

lemma find_session_none:
  assumes "find_session ids arn s = None" and "i \<in> set ids" and "GetTicket i s = Inr r"
  shows "\<not> (tk_isBackfill (sv_heap s r) \<and> tk_gameSessionARN (sv_heap s r) = arn \<and> active_ref s r)"
  using assms by (induction ids) (auto simp: Let_def active_ref_def split: sum.splits if_splits)

lemma session_live:
  assumes "idle f" and "session_to_supersede n cmd (fr_svc f) = Some r"
  shows "live r f"
proof -
  obtain i where i: "find_ticket i f = Inr r" "active_ref (fr_svc f) r"
    using assms(2) find_session_found
    by (fastforce simp: session_to_supersede_def findSessionBackfill_def split: if_splits)
  with found_holds [OF assms(1) i(1)] show ?thesis by (simp add: live_def)
qed

lemma undo_backfill_keeps:
  assumes "idle f"
  shows "frame_le f (snd (undo_backfill d i e f)) \<and> idle (snd (undo_backfill d i e f))"
proof -
  obtain x f1 where f1: "eng_tolerant (fx_Cancel d i) f = (x, f1)" by fastforce
  obtain y f2 where f2: "eng_tolerant (fx_Evict d i) f1 = (y, f2)" by fastforce
  have eng: "step idle (eng_tolerant g) idle" for g :: "'a \<Rightarrow> flexi_err option \<times> 'a"
    using eng_tolerant_keeps [of idle "\<lambda>_. g"] by (auto simp: idle_def)
  have 1: "frame_le f f1" "idle f1" using runsD [OF eng assms] f1 by (cases x; blast)+
  have 2: "frame_le f1 f2" "idle f2" using runsD [OF eng 1(2)] f2 by (cases y; blast)+
  have "frame_le f f2" using 1 2 frame_le_trans by blast
  with 1 2 release_keeps [OF 2(2), of i] frame_le_trans show ?thesis
    by (auto simp: undo_backfill_def f1 f2 split: option.split)
qed

lemma backfill_enqueue_ok:
  assumes "superseded = None \<or> (\<exists>r. superseded = Some r \<and> live r f)"
  shows "body_ok (backfill_enqueue d now cmd superseded t) f"
  unfolding body_ok_def
proof
  assume idle: "idle f"
  obtain x f1 where f1: "on_svc (reserveTicketID (tk_id t)) f = (x, f1)" by fastforce
  note r = reserve_keeps [OF idle f1]
  obtain y f2 where f2: "on_eng (fx_EnqueueBackfill d \<lparr>ft_ID = tk_id t, ft_Players = bc_Players cmd\<rparr>) f1 = (y, f2)"
    by fastforce
  note e = on_eng_keeps [OF f2]
  have idle2: "idle f2" and le2: "frame_le f f2" using r(1) e frame_le_trans by blast+
  note grow2 = frame_grow_trans [OF le2]
  show "svc_grow (fr_svc f) (fr_svc (snd (backfill_enqueue d now cmd superseded t f))) \<and>
      idle (snd (backfill_enqueue d now cmd superseded t f))"
  proof (cases "x = None \<and> y = None")
    case True
    then have free: "sv_tickets (fr_svc f2) (tk_id t) = None" using r(2) e(2) by simp
    show ?thesis
    proof (cases superseded)
      case None
      then show ?thesis using True publish_keeps [OF idle2 free] grow2
        by (simp add: backfill_enqueue_def f1 f2)
    next
      case (Some q)
      then have "live q f" using assms by simp
      then have live2: "live q f2"
        using r(4,7) e(2) idle2 by (simp add: live_def holds_def idle_def active_ref_def)
      obtain z f3 where f3: "supersedeBackfill d q now f2 = (z, f3)" by fastforce
      note s = runsD [OF supersedeBackfill_step live2]
      have 3: "frame_le f2 f3" "idle f3" using s f3 holds_idle by (cases z; blast)+
      note grow3 = frame_grow_trans [OF frame_le_trans [OF le2 3(1)]]
      show ?thesis
        using publish_keeps [OF 3(2) frame_le_tickets [OF 3(1) free]] grow3 True Some
          undo_backfill_keeps [OF 3(2), of d "tk_id t"]
        by (cases z) (auto simp: backfill_enqueue_def f1 f2 f3 intro: frame_le_grow)
    qed
  next
    case False
    have rel: "svc_grow (fr_svc f) (fr_svc (release_id (tk_id t) f2))" "idle (release_id (tk_id t) f2)"
      using release_keeps [OF idle2, of "tk_id t"] grow2 frame_le_grow by blast+
    with False r(3) idle show ?thesis
      by (cases x; cases y) (simp_all add: backfill_enqueue_def f1 f2)
  qed
qed

lemma backfill_body_ok: "body_ok (backfill_body d now cmd cfg) f"
  unfolding body_ok_def
proof
  assume idle: "idle f"
  obtain x f1 where f1: "choose_id (bc_TicketID cmd) f = (x, f1)" by fastforce
  note c = choose_id_keeps [OF idle f1]
  let ?sup = "session_to_supersede (cfg_Name cfg) cmd (fr_svc f)"
  have "live r f1" if "?sup = Some r" for r
    using session_live [OF idle that] c by (simp add: live_def holds_def idle_def active_ref_def)
  then have sup: "body_ok (backfill_enqueue d now cmd ?sup t) f1" for t
    by (intro backfill_enqueue_ok) (cases ?sup; simp)
  from c have g: "svc_grow (fr_svc f) (fr_svc f1)" "idle f1" by (auto intro: frame_le_grow)
  then show "svc_grow (fr_svc f) (fr_svc (snd (backfill_body d now cmd cfg f))) \<and>
      idle (snd (backfill_body d now cmd cfg f))"
    using idle sup svc_grow_trans [OF g(1)]
    by (auto simp: backfill_body_def Let_def f1 body_ok_def split: option.split sum.split)
qed

section \<open>Stop and accept\<close>

lemma idle_step:
  assumes "step P g idle" and "P f"
  shows "frame_le f (snd (g f)) \<and> idle (snd (g f))"
  using runsD [OF assms] by (cases "g f"; cases "fst (g f)") auto

lemma quiet_save:
  assumes "op_status op = None"
  shows "step (holds {} r) (and_then (call r op) (save r)) idle"
  by (rule runs_conseq [OF frame.runs_and_then [OF call_quiet [OF assms] save_quiet]])
     (auto simp: holds_idle)

lemma stop_body_keeps:
  assumes "find_ticket i f = Inr r" and "idle f"
  shows "frame_le f (snd (stop_body d r f)) \<and> idle (snd (stop_body d r f))"
proof -
  obtain x f1 where f1: "on_eng (fx_Cancel d (tk_id (ticket_at f r))) f = (x, f1)" by fastforce
  note e = on_eng_keeps [OF f1]
  have "holds {} r f1" using found_holds [OF assms(2,1)] e(2) holds_svc by blast
  with idle_step [OF quiet_save [of OpRequestCancel]]
  have "frame_le f1 (snd (and_then (call r OpRequestCancel) (save r) f1)) \<and>
      idle (snd (and_then (call r OpRequestCancel) (save r) f1))" by simp
  then show ?thesis
    using e assms(2) frame_le_trans by (cases x) (auto simp: stop_body_def f1)
qed

lemma answer_keeps: "step idle (answer d yes i p) idle"
  by (rule runsI) (auto simp: answer_def on_eng_def idle_def frame_le_def split: prod.splits if_splits)

lemma answers_svc: "fr_svc (snd (foreach (answer d yes i) ps f)) = fr_svc f"
proof (induction ps arbitrary: f)
  case (Cons p ps)
  have "fr_svc (snd (answer d yes i p f)) = fr_svc f"
    by (simp add: answer_def on_eng_def Let_def split: prod.split)
  with Cons.IH [of "snd (answer d yes i p f)"] show ?case by (auto split: prod.split option.split)
qed simp

lemma accept_body_keeps:
  assumes "find_ticket i f = Inr r" and "idle f"
  shows "frame_le f (snd (accept_body d now cmd r f)) \<and> idle (snd (accept_body d now cmd r f))"
proof -
  let ?i = "tk_id (ticket_at f r)"
  let ?op = "OpRecordPlayerAcceptances (accept_players cmd) (ac_Accepted cmd)"
  obtain x f1 where f1: "answer_all d cmd ?i f = (x, f1)" by fastforce
  have "step idle (answer_all d cmd ?i) idle"
    unfolding answer_all_def by (rule frame.runs_foreach) (rule answer_keeps)
  from idle_step [OF this assms(2)] f1 have 1: "frame_le f f1 \<and> idle f1" by simp
  have "fr_svc f1 = fr_svc f"
    using answers_svc [of d "ac_Accepted cmd" ?i "engine_players cmd" f] f1 by (simp add: answer_all_def)
  then have h1: "holds {} r f1" using found_holds [OF assms(2,1)] holds_svc by blast
  obtain y f2 where f2: "and_then (call r ?op) (save r) f1 = (y, f2)"
    by fastforce
  have "op_status ?op = None" by simp
  from idle_step [OF quiet_save [OF this] h1] f2 have 2: "frame_le f1 f2 \<and> idle f2" by simp
  have le: "frame_le f f2" using 1 2 frame_le_trans by blast
  have "frame_le f (batch_add e f2)" "idle (batch_add e f2)" for e
    using 2 batch_add_idle(1) frame_le_trans [OF le batch_add_le(1)] by blast+
  with 1 2 le assms(2) show ?thesis
    by (simp add: accept_body_def Let_def f1 f2 split: option.split)
qed

section \<open>The commands\<close>

lemma Start_locked_keeps:
  "svc_inv {} s \<Longrightarrow> Start_locked d ctx now n cmd s = (x, evs, s') \<Longrightarrow> svc_inv {} s' \<and> svc_grow s s'"
  unfolding Start_locked_def by (erule locked_configured_keeps [OF _ start_body_ok])

lemma Backfill_locked_keeps:
  "svc_inv {} s \<Longrightarrow> Backfill_locked d ctx now n cmd s = (x, evs, s') \<Longrightarrow> svc_inv {} s' \<and> svc_grow s s'"
  unfolding Backfill_locked_def by (erule locked_configured_keeps [OF _ backfill_body_ok])

lemma Stop_locked_keeps:
  "svc_inv {} s \<Longrightarrow> Stop_locked d ctx i r s = (x, evs, s') \<Longrightarrow> svc_inv {} s' \<and> svc_grow s s'"
  unfolding Stop_locked_def
  by (erule on_ticket_keeps [rotated -1]) (auto simp: body_ok_def stop_body_keeps intro: frame_le_grow)

lemma Accept_locked_keeps:
  "svc_inv {} s \<Longrightarrow> Accept_locked d ctx now cmd r s = (x, evs, s') \<Longrightarrow> svc_inv {} s' \<and> svc_grow s s'"
  unfolding Accept_locked_def
  by (erule on_ticket_keeps [rotated -1]) (auto simp: body_ok_def accept_body_keeps intro: frame_le_grow)

end
