(* ===== verification/Service_Tick.thy ===== *)
theory Service_Tick
  imports Event_Batch
begin

text \<open>
  One tick of a configuration (\<open>tick.go\<close>): the engine's matches and pending proposals are applied
  to the tickets in the order settle, finalise, propose, synchronise, evict.
\<close>

section \<open>What the phases share\<close>

fun team_of_players :: "string \<Rightarrow> player list \<Rightarrow> (player_id \<times> string) list \<Rightarrow> (player_id \<times> string) list" where
  "team_of_players team [] out = out"
| "team_of_players team (p # ps) out = team_of_players team ps (AList.update (pl_ID p) team out)"

fun player_teams ::
  "(string \<times> player list) list \<Rightarrow> (player_id \<times> string) list \<Rightarrow> (player_id \<times> string) list" where
  "player_teams [] out = out"
| "player_teams ((team, ps) # rest) out = player_teams rest (team_of_players team ps out)"

definition playerTeams :: "(string \<times> player list) list \<Rightarrow> (player_id \<times> string) list" where
  "playerTeams teams = player_teams teams []"

definition has_rejection :: "'e service \<Rightarrow> ticket_id \<Rightarrow> bool" where
  "has_rejection s i =
     (case GetTicket i s of
        Inl e \<Rightarrow> False
      | Inr r \<Rightarrow> list_ex (\<lambda>(p, accepted). \<not> accepted) (tk_playerAcceptances (sv_heap s r)))"

definition acceptanceFailureOutcome ::
  "config_name \<Rightarrow> match_id \<Rightarrow> 'e service \<Rightarrow> acceptance_outcome" where
  "acceptanceFailureOutcome name m s =
     (case ticketsFor m (sv_trackers s name) of
        None \<Rightarrow> AcceptanceTimedOut
      | Some ids \<Rightarrow> if list_ex (has_rejection s) ids then AcceptanceRejected else AcceptanceTimedOut)"

definition engine_reason :: "'e deps \<Rightarrow> ref \<Rightarrow> 'e frame \<Rightarrow> string" where
  "engine_reason d r f =
     (case fx_StatusReason d (tk_id (ticket_at f r)) (fr_eng f) of None \<Rightarrow> [] | Some s \<Rightarrow> s)"

text \<open>The result: the acceptance outcome to announce, the error, the new state.\<close>

definition transitionFromEngine ::
  "'e deps \<Rightarrow> config_name \<Rightarrow> ref \<Rightarrow> ticket_status \<Rightarrow> gotime \<Rightarrow> 'e frame \<Rightarrow>
     acceptance_outcome option \<times> err option \<times> 'e frame" where
  "transitionFromEngine d name r st now f =
     (let t = ticket_at f r; prev = tk_status t in
      case st of
        StatusQueued \<Rightarrow>
          (None, (if prev = StatusRequiresAcceptance
                  then call r (OpReturnToSearching (engine_reason d r f) now) f
                  else call r OpObserveSearching f))
      | StatusSearching \<Rightarrow>
          (None, (if prev = StatusRequiresAcceptance
                  then call r (OpReturnToSearching (engine_reason d r f) now) f
                  else call r OpObserveSearching f))
      | StatusCancelled \<Rightarrow>
          if tk_cancelByAPI t then (None, call r (OpMarkCancelledByAPI now) f)
          else if prev = StatusRequiresAcceptance
          then (Some (acceptanceFailureOutcome name (tk_matchID t) (fr_svc f)),
                call r (OpMarkCancelledByAcceptanceFailure now) f)
          else (None, call r (OpMarkCancelledByAcceptanceFailure now) f)
      | StatusTimedOut \<Rightarrow>
          (None, call r (OpMarkTimedOut ''TimedOut'' ''Matchmaking timed out'' now) f)
      | _ \<Rightarrow> (None, None, f))"

definition capture_final :: "'e deps \<Rightarrow> ref \<Rightarrow> ticket_status \<Rightarrow> 'e frame \<Rightarrow> err option \<times> 'e frame" where
  "capture_final d r st f =
     (if st = StatusCancelled \<or> st = StatusTimedOut then captureRuleMetrics d r f else (None, f))"

section \<open>settleOldProposals\<close>

definition settle_ticket ::
  "'e deps \<Rightarrow> configuration \<Rightarrow> gotime \<Rightarrow> ticket_id \<Rightarrow> 'e frame \<Rightarrow> err option \<times> 'e frame" where
  "settle_ticket d cfg now i f =
     (case find_ticket i f of
        Inl e \<Rightarrow> (None, f)
      | Inr r \<Rightarrow>
          if tk_status (ticket_at f r) \<noteq> StatusRequiresAcceptance then (None, f)
          else case fx_Status d i (fr_eng f) of
                 Inl e \<Rightarrow> (None, f)
               | Inr st \<Rightarrow>
                   and_then (capture_final d r st)
                     (and_then
                       (\<lambda>f. if st = StatusRequiresAcceptance
                            then call r (OpReturnToSearching ''ACCEPTANCE_FAILED'' now) f
                            else snd (transitionFromEngine d (cfg_Name cfg) r st now f))
                       (and_then (save r) (\<lambda>f. (None, addTicket r f)))) f)"

definition still_pending :: "flexi_proposal list \<Rightarrow> tracked_proposal \<Rightarrow> bool" where
  "still_pending after old \<longleftrightarrow>
     list_ex (\<lambda>p. proposalKey (fp_TicketIDs p) = proposalKey (tp_ids old) \<and>
                  fp_CreatedAt p = tp_createdAt old) after"

definition became_match :: "flexi_match list \<Rightarrow> tracked_proposal \<Rightarrow> bool" where
  "became_match matches old \<longleftrightarrow>
     list_ex (\<lambda>m. proposalKey (fm_TicketIDs m) = proposalKey (tp_ids old)) matches"

definition cancel_requested :: "'e service \<Rightarrow> ticket_id \<Rightarrow> bool" where
  "cancel_requested s i =
     (case GetTicket i s of Inl e \<Rightarrow> False | Inr r \<Rightarrow> tk_cancelByAPI (sv_heap s r))"

definition settle_one ::
  "'e deps \<Rightarrow> configuration \<Rightarrow> flexi_match list \<Rightarrow> flexi_proposal list \<Rightarrow> gotime \<Rightarrow>
     match_id \<times> tracked_proposal \<Rightarrow> 'e frame \<Rightarrow> err option \<times> 'e frame" where
  "settle_one d cfg matches after now = (\<lambda>(m, old) f.
     if still_pending after old then (None, f)
     else if became_match matches old then (None, f)
     else
       let outcome = acceptanceFailureOutcome (cfg_Name cfg) m (fr_svc f);
           f = (if list_ex (cancel_requested (fr_svc f)) (tp_ids old) then f
                else batch_add (NewAcceptMatchCompleted (cfg_Name cfg) m (tp_ids old) outcome now) f)
       in and_then (foreach (settle_ticket d cfg now) (tp_ids old))
            (\<lambda>f. (None, on_tracker (cfg_Name cfg) (forget m) f)) f)"

text \<open>The proposals are copied first; \<open>range\<close> decides the order.\<close>

definition ranged_proposals :: "'e deps \<Rightarrow> tracker \<Rightarrow> (match_id \<times> tracked_proposal) list" where
  "ranged_proposals d pt =
     [(m, old). m \<leftarrow> go_range_proposals d (map fst (proposals pt)),
                old \<leftarrow> (case map_of (proposals pt) m of None \<Rightarrow> [] | Some old \<Rightarrow> [old])]"

definition settleOldProposals ::
  "'e deps \<Rightarrow> configuration \<Rightarrow> flexi_match list \<Rightarrow> flexi_proposal list \<Rightarrow> gotime \<Rightarrow>
     'e frame \<Rightarrow> err option \<times> 'e frame" where
  "settleOldProposals d cfg matches after now f =
     foreach (settle_one d cfg matches after now)
       (ranged_proposals d (tracker_of (cfg_Name cfg) f)) f"

section \<open>finalizeMatches\<close>

definition complete_ticket ::
  "'e deps \<Rightarrow> (player_id \<times> string) list \<Rightarrow> match_id \<Rightarrow> gotime \<Rightarrow> ref \<Rightarrow> 'e frame \<Rightarrow> err option \<times> 'e frame" where
  "complete_ticket d teams m now r =
     and_then (call r (OpSetPlayerTeams teams))
       (and_then
         (\<lambda>f. if tk_status (ticket_at f r) = StatusPlacing then (None, f)
              else call r (OpMoveToPlacing m now) f)
         (and_then (\<lambda>f. eng_tolerant (fx_MarkCompleted d (tk_id (ticket_at f r))) f)
           (and_then (call r (OpComplete now)) (save r))))"

text \<open>The middle component of the result is \<open>acceptanceSettled\<close>.\<close>

fun finalize_tickets ::
  "'e deps \<Rightarrow> configuration \<Rightarrow> (player_id \<times> string) list \<Rightarrow> match_id \<Rightarrow> gotime \<Rightarrow> ticket_id list \<Rightarrow>
     bool \<Rightarrow> 'e frame \<Rightarrow> err option \<times> bool \<times> 'e frame" where
  "finalize_tickets d cfg teams m now [] settled f = (None, settled, f)"
| "finalize_tickets d cfg teams m now (i # ids) settled f =
     (case find_ticket i f of
        Inl e \<Rightarrow> finalize_tickets d cfg teams m now ids settled f
      | Inr r \<Rightarrow>
          (let settled = (settled \<or>
                 cfg_AcceptanceRequired cfg \<and> tk_status (ticket_at f r) = StatusRequiresAcceptance) in
           case complete_ticket d teams m now r f of
             (Some e, f) \<Rightarrow> (Some e, settled, f)
           | (None, f) \<Rightarrow> finalize_tickets d cfg teams m now ids settled f))"

definition match_events ::
  "configuration \<Rightarrow> match_id \<Rightarrow> flexi_match \<Rightarrow> bool \<Rightarrow> bool \<Rightarrow> gotime \<Rightarrow> event list" where
  "match_events cfg m fm direct settled now =
     (if direct then [NewPotentialMatchCreated (cfg_Name cfg) m (fm_TicketIDs fm)
          (toRuleMetrics (fm_RuleEvaluationMetrics fm)) (cfg_AcceptanceRequired cfg)
          (cfg_AcceptanceTimeout cfg) now] else []) @
     (if settled then [NewAcceptMatchCompleted (cfg_Name cfg) m (fm_TicketIDs fm) AcceptanceAccepted now]
      else []) @
     [NewMatchmakingSucceeded (cfg_Name cfg) m (fm_TicketIDs fm) now]"

definition finalize_known ::
  "'e deps \<Rightarrow> configuration \<Rightarrow> gotime \<Rightarrow> flexi_match \<Rightarrow> match_id \<Rightarrow> bool \<Rightarrow> 'e frame \<Rightarrow>
     err option \<times> 'e frame" where
  "finalize_known d cfg now fm m direct f =
     (case finalize_tickets d cfg (playerTeams (fm_Teams fm)) m now (fm_TicketIDs fm) False f of
        (Some e, settled, f) \<Rightarrow> (Some e, f)
      | (None, settled, f) \<Rightarrow>
          (None, on_tracker (cfg_Name cfg) (forget m)
                   (fold batch_add (match_events cfg m fm direct settled now) f)))"

definition finalize_match ::
  "'e deps \<Rightarrow> configuration \<Rightarrow> gotime \<Rightarrow> flexi_match \<Rightarrow> 'e frame \<Rightarrow> err option \<times> 'e frame" where
  "finalize_match d cfg now fm f =
     (case known (fm_TicketIDs fm) (tracker_of (cfg_Name cfg) f) of
        Some m \<Rightarrow> finalize_known d cfg now fm m False f
      | None \<Rightarrow>
          (let (m, f) = NewMatchID f;
               f = on_tracker (cfg_Name cfg) (assign (fm_TicketIDs fm) m) f
           in finalize_known d cfg now fm m True f))"

definition finalizeMatches ::
  "'e deps \<Rightarrow> configuration \<Rightarrow> flexi_match list \<Rightarrow> gotime \<Rightarrow> 'e frame \<Rightarrow> err option \<times> 'e frame" where
  "finalizeMatches d cfg matches now = foreach (finalize_match d cfg now) matches"

section \<open>applyNewProposals\<close>

definition assign_ticket ::
  "(player_id \<times> string) list \<Rightarrow> match_id \<Rightarrow> gotime \<Rightarrow> ticket_id \<Rightarrow> 'e frame \<Rightarrow> err option \<times> 'e frame" where
  "assign_ticket teams m now i f =
     (case find_ticket i f of
        Inl e \<Rightarrow> (None, f)
      | Inr r \<Rightarrow>
          and_then (call r (OpAssignToProposal m now))
            (and_then (call r (OpSetPlayerTeams teams)) (save r)) f)"

definition already_tracked :: "flexi_proposal \<Rightarrow> tracker \<Rightarrow> bool" where
  "already_tracked p pt =
     (case known (fp_TicketIDs p) pt of
        None \<Rightarrow> False
      | Some m \<Rightarrow> tr_createdAt pt m = fp_CreatedAt p)"

definition apply_proposal ::
  "configuration \<Rightarrow> gotime \<Rightarrow> flexi_proposal \<Rightarrow> 'e frame \<Rightarrow> err option \<times> 'e frame" where
  "apply_proposal cfg now p f =
     (if already_tracked p (tracker_of (cfg_Name cfg) f) then (None, f)
      else
        let (m, f) = NewMatchID f;
            f = on_tracker (cfg_Name cfg) (assignAt (fp_TicketIDs p) m (fp_CreatedAt p)) f
        in and_then (foreach (assign_ticket (playerTeams (fp_Teams p)) m now) (fp_TicketIDs p))
             (\<lambda>f. (None, batch_add (NewPotentialMatchCreated (cfg_Name cfg) m (fp_TicketIDs p)
                (toRuleMetrics (fp_RuleEvaluationMetrics p)) (cfg_AcceptanceRequired cfg)
                (cfg_AcceptanceTimeout cfg) now) f)) f)"

definition applyNewProposals ::
  "configuration \<Rightarrow> flexi_proposal list \<Rightarrow> gotime \<Rightarrow> 'e frame \<Rightarrow> err option \<times> 'e frame" where
  "applyNewProposals cfg after now = foreach (apply_proposal cfg now) after"

section \<open>syncActiveTickets\<close>

definition sync_roster :: "config_name \<Rightarrow> match_id \<Rightarrow> ref \<Rightarrow> 'e frame \<Rightarrow> ticket_id list" where
  "sync_roster name m r f =
     (case ticketsFor m (tracker_of name f) of
        None \<Rightarrow> [tk_id (ticket_at f r)]
      | Some ids \<Rightarrow> ids)"

text \<open>
  Announces a failed acceptance once per match: \<open>settled\<close> are the matches already announced in
  this loop.
\<close>

definition announce_failure ::
  "config_name \<Rightarrow> gotime \<Rightarrow> ref \<Rightarrow> match_id \<Rightarrow> acceptance_outcome option \<Rightarrow> match_id list \<Rightarrow> 'e frame \<Rightarrow>
     match_id list \<times> 'e frame" where
  "announce_failure name now r m outcome settled f =
     (case outcome of
        None \<Rightarrow> (settled, f)
      | Some oc \<Rightarrow>
          if m \<noteq> [] \<and> m \<notin> set settled
          then (m # settled,
                on_tracker name (forget m)
                  (batch_add (NewAcceptMatchCompleted name m (sync_roster name m r f) oc now) f))
          else (settled, f))"

definition sync_one ::
  "'e deps \<Rightarrow> config_name \<Rightarrow> gotime \<Rightarrow> ref \<Rightarrow> ticket_status \<Rightarrow> match_id list \<Rightarrow> 'e frame \<Rightarrow>
     err option \<times> match_id list \<times> 'e frame" where
  "sync_one d name now r st settled f =
     (let m = tk_matchID (ticket_at f r) in
      case transitionFromEngine d name r st now (snd (capture_final d r st f)) of
        (outcome, Some e, f) \<Rightarrow> (Some e, settled, f)
      | (outcome, None, f) \<Rightarrow>
          (case save r f of
             (Some e, f) \<Rightarrow> (Some e, settled, f)
           | (None, f) \<Rightarrow>
               (let (settled, f) = announce_failure name now r m outcome settled f
                in (None, settled, addTicket r f))))"

fun sync_tickets ::
  "'e deps \<Rightarrow> config_name \<Rightarrow> gotime \<Rightarrow> ticket_id list \<Rightarrow> match_id list \<Rightarrow> 'e frame \<Rightarrow> err option \<times> 'e frame" where
  "sync_tickets d name now [] settled f = (None, f)"
| "sync_tickets d name now (i # ids) settled f =
     (case find_ticket i f of
        Inl e \<Rightarrow> sync_tickets d name now ids settled f
      | Inr r \<Rightarrow>
          (case fx_Status d i (fr_eng f) of
             Inl e \<Rightarrow> sync_tickets d name now ids settled f
           | Inr st \<Rightarrow>
               if st = tk_status (ticket_at f r) then sync_tickets d name now ids settled f
               else case sync_one d name now r st settled f of
                      (Some e, settled, f) \<Rightarrow> (Some e, f)
                    | (None, settled, f) \<Rightarrow> sync_tickets d name now ids settled f))"

definition syncActiveTickets ::
  "'e deps \<Rightarrow> configuration \<Rightarrow> gotime \<Rightarrow> 'e frame \<Rightarrow> err option \<times> 'e frame" where
  "syncActiveTickets d cfg now f =
     sync_tickets d (cfg_Name cfg) now (ActiveTicketIDsByConfiguration (cfg_Name cfg) (fr_svc f)) [] f"

section \<open>Tick\<close>

definition evict_phase :: "'e deps \<Rightarrow> config_name \<Rightarrow> gotime \<Rightarrow> 'e frame \<Rightarrow> err option \<times> 'e frame" where
  "evict_phase d name now f =
     (let (e, s) = evictExpiredTickets d name now (fr_eng f, fr_svc f)
      in (None, f\<lparr>fr_svc := s, fr_eng := e\<rparr>))"

definition apply_tick ::
  "'e deps \<Rightarrow> config_name \<Rightarrow> gotime \<Rightarrow> configuration \<Rightarrow> flexi_match list \<Rightarrow> flexi_proposal list \<Rightarrow>
     'e frame \<Rightarrow> err option \<times> 'e frame" where
  "apply_tick d name now cfg matches after =
     and_then (settleOldProposals d cfg matches after now)
       (and_then (finalizeMatches d cfg matches now)
         (and_then (applyNewProposals cfg after now)
           (and_then (syncActiveTickets d cfg now) (evict_phase d name now))))"

definition tick_body ::
  "'e deps \<Rightarrow> config_name \<Rightarrow> gotime \<Rightarrow> configuration \<Rightarrow> 'e frame \<Rightarrow> (err + unit) \<times> 'e frame" where
  "tick_body d name now cfg f =
     (case on_eng (fx_Tick d) f of
        (Inl e, f) \<Rightarrow> (Inl (ErrEngine e), f)
      | (Inr matches, f) \<Rightarrow>
          result (apply_tick d name now cfg matches (fx_PendingAcceptances d (fr_eng f)) f))"

definition Tick_locked ::
  "'e deps \<Rightarrow> err option \<Rightarrow> gotime \<Rightarrow> config_name \<Rightarrow> 'e service \<Rightarrow>
     (err + unit) \<times> recorded_event list \<times> 'e service" where
  "Tick_locked d ctx now name = locked_configured ctx name (tick_body d name now)"

definition Tick ::
  "'e deps \<Rightarrow> call_env \<Rightarrow> gotime \<Rightarrow> config_name \<Rightarrow> 'e service \<Rightarrow>
     (err + unit) \<times> recorded_event list \<times> 'e service" where
  "Tick d env now name s =
     (case ce_reserve env of
        Some e \<Rightarrow> (Inl e, [], s)
      | None \<Rightarrow> Tick_locked d (ce_ctx env) now name s)"

end
