(* ===== verification/Tick_Laws.thy ===== *)
theory Tick_Laws
  imports Frame_Laws Service_Tick
begin

text \<open>
  Every phase of a tick keeps the invariant of the service and moves up in the order of service
  states, whatever the engine reports; what eviction removes.
\<close>

section \<open>Eviction\<close>

lemma is_expired_iff:
  "is_expired ret now t \<longleftrightarrow>
     IsTerminal (tk_status t) \<and> \<not> is_zero_time (tk_endTime t) \<and> ret \<le> time_sub now (tk_endTime t)"
  by (auto simp: is_expired_def)

lemma remove_expired_cases:
  obtains (kept) "remove_expired name ret now i s = s"
  | (removed) r where "configTicket s name i = Some r" "is_expired ret now (sv_heap s r)"
      "remove_expired name ret now i s =
         s\<lparr>sv_byConfig := (sv_byConfig s)(name := AList.delete i (sv_byConfig s name)),
           sv_tickets := (sv_tickets s)(i := None),
           sv_active := (sv_active s)(name := removeAll i (sv_active s name))\<rparr>"
proof (cases "configTicket s name i")
  case None
  then show ?thesis using kept by (simp add: remove_expired_def configTicket_def)
next
  case (Some r)
  then show ?thesis using kept removed [of r]
    by (cases "is_expired ret now (sv_heap s r)") (simp_all add: remove_expired_def configTicket_def)
qed

lemma remove_expired_inv:
  assumes "svc_inv {} s"
  shows "svc_inv {} (remove_expired name ret now i s)"
proof (cases rule: remove_expired_cases [of name ret now i s])
  case kept
  with assms show ?thesis by simp
next
  case (removed r)
  let ?s = "remove_expired name ret now i s"
  have maps: "maps_ok s" and index: "index_ok {} s" and tr: "trackers_ok s"
    using assms by (auto simp: svc_inv_def store_inv_def)
  have r: "sv_tickets s i = Some r" "cfg_of s r = name" "\<not> active_ref s r"
    using maps_okD(4,5) [OF maps removed(1)] removed(2)
    by (auto simp: is_expired_iff active_ref_def IsActive_def)
  have views: "sv_tickets ?s = (sv_tickets s)(i := None)" "sv_reserved ?s = sv_reserved s"
    "sv_next ?s = sv_next s" "sv_heap ?s = sv_heap s" "cfg_of ?s = cfg_of s" "active_ref ?s = active_ref s"
    "configTicket ?s n j = (if n = name \<and> j = i then None else configTicket s n j)"
    "sv_active ?s n = (if n = name then removeAll i (sv_active s n) else sv_active s n)" for n j
    by (auto simp: removed(3) cfg_of_def active_ref_def configTicket_def gomap_simps fun_eq_iff)
  have "maps_ok ?s"
    unfolding maps_ok_def views
  proof (intro conjI allI impI ballI)
    fix n show "distinct (map fst (sv_byConfig ?s n))"
      using maps_okD(6) [OF maps] by (auto simp: removed(3) gomap_distinct)
  next
    fix n j q assume a: "(if n = name \<and> j = i then None else configTicket s n j) = Some q"
    then have q: "configTicket s n j = Some q" and ne: "\<not> (n = name \<and> j = i)"
      by (auto split: if_splits)
    from maps_okD(4,5) [OF maps q] ne r show "((sv_tickets s)(i := None)) j = Some q" "cfg_of s q = n"
      by auto
  qed (use maps_okD(1,2,3,7) [OF maps] in \<open>auto split: if_splits\<close>)
  moreover have "index_ok {} ?s"
    unfolding index_ok_def views
  proof (intro conjI allI impI)
    fix n show "distinct (if n = name then removeAll i (sv_active s n) else sv_active s n)"
      using index_okD(1) [OF index] by (simp add: distinct_removeAll)
  next
    fix n j assume a: "j \<in> set (if n = name then removeAll i (sv_active s n) else sv_active s n)"
    then have "j \<in> set (sv_active s n)" by (auto split: if_splits)
    from index_okD(2) [OF index this] r a
    show "\<exists>q. ((sv_tickets s)(i := None)) j = Some q \<and> cfg_of s q = n \<and> (q \<in> {} \<or> active_ref s q)"
      by (auto split: if_splits)
  next
    fix j q assume "((sv_tickets s)(i := None)) j = Some q" "active_ref s q"
    with index_okD(3) [OF index, of j q]
    show "q \<in> {} \<or> j \<in> set (if cfg_of s q = name then removeAll i (sv_active s (cfg_of s q))
        else sv_active s (cfg_of s q))"
      by (auto split: if_splits)
  qed
  moreover have "trackers_ok ?s" using tr by (simp add: trackers_ok_def removed(3))
  ultimately show ?thesis by (simp add: svc_inv_def store_inv_def)
qed

lemma remove_expired_le: "svc_le s (remove_expired name ret now i s)"
  by (cases rule: remove_expired_cases [of name ret now i s])
     (auto simp: svc_le_def hext_def map_le_def)

lemma evict_fold:
  fixes s :: "'e service"
  assumes "svc_inv {} s"
  shows "svc_inv {} (snd (fold (evict_one d name ret now) ids (e, s))) \<and>
    svc_le s (snd (fold (evict_one d name ret now) ids (e, s)))"
  using assms
proof (induction ids arbitrary: e s)
  case (Cons i ids)
  from Cons.IH [OF remove_expired_inv [OF Cons.prems], where e = "snd (fx_Evict d i e)"]
    remove_expired_le [of s name ret now i]
  show ?case by (auto simp: evict_one_def intro: svc_le_trans)
qed simp

lemma evict_keeps:
  assumes "svc_inv {} s"
  shows "svc_inv {} (snd (evictExpiredTickets d name now (e, s))) \<and>
    svc_le s (snd (evictExpiredTickets d name now (e, s)))"
proof -
  let ?s = "s\<lparr>sv_nextCleanup := (sv_nextCleanup s)(name := now + min minute (retention s))\<rparr>"
  have "store_inv {} ?s = store_inv {} s" by (rule store_inv_cong) simp_all
  then have s: "svc_inv {} ?s" "svc_le s ?s"
    using assms by (auto simp: svc_inv_def trackers_ok_def svc_le_def hext_def)
  show ?thesis
    using assms evict_fold [OF s(1)] svc_le_trans [OF s(2)]
    by (simp add: evictExpiredTickets_def Let_def)
qed

lemma evict_phase_keeps: "runs frame_shrink idle (evict_phase d name now) idle idle"
proof (rule runsI)
  fix f f' :: "'a frame" assume "idle f" "evict_phase d name now f = (None, f')"
  with evict_keeps [of "fr_svc f" d name now "fr_eng f"] show "frame_shrink f f' \<and> idle f'"
    by (auto simp: evict_phase_def idle_def frame_shrink_def split: prod.splits)
qed (simp add: evict_phase_def split: prod.splits)

section \<open>One ticket\<close>

lemma transition_at:
  "\<exists>g. snd (transitionFromEngine d n r st now f) = g f \<and> (g = (\<lambda>f. (None, f)) \<or> (\<exists>op. g = call r op))"
  by (cases st) (auto simp: transitionFromEngine_def Let_def)

lemma live_unsaved: "live r f \<Longrightarrow> holds {r} r f"
  by (auto simp: live_def intro: holds_mono)

lemma transition_step:
  "step (live r) (\<lambda>f. snd (transitionFromEngine d n r st now f)) (holds {r} r)"
proof (rule runs_at)
  fix f :: "'a frame" assume live: "live r f"
  from transition_at [of d n r st now f]
  consider "snd (transitionFromEngine d n r st now f) = (None, f)"
    | op where "snd (transitionFromEngine d n r st now f) = call r op f"
    by auto
  then show "reaches frame_le (holds {r} r) idle f (snd (transitionFromEngine d n r st now f))"
    by cases (simp_all add: frame.reaches_return live live_unsaved reaches_run [OF call_any live])
qed

lemma capture_final_live: "step (live r) (capture_final d r st) (live r)"
  unfolding capture_final_def
  by (cases "st = StatusCancelled \<or> st = StatusTimedOut")
     (auto intro: captureRuleMetrics_live frame.runs_return)

lemma capture_final_ok: "fst (capture_final d r st f) = None"
  by (auto simp: capture_final_def captureRuleMetrics_def on_svc_def mutate_def split: option.split)

lemma found_cases [consumes 1]:
  assumes "idle f"
  obtains (missing) e where "find_ticket i f = Inl e"
    | (found) r where "find_ticket i f = Inr r" "holds {} r f" "tk_id (ticket_at f r) = i"
  using assms found_holds by (cases "find_ticket i f") blast+

lemma RA_live:
  "holds {} r f \<Longrightarrow> tk_status (ticket_at f r) = StatusRequiresAcceptance \<Longrightarrow> live r f"
  by (simp add: live_def active_ref_def IsActive_def)

section \<open>Settling proposals\<close>

lemma settle_found:
  "step (live r)
     (and_then (capture_final d r st)
       (and_then (\<lambda>f. if st = StatusRequiresAcceptance
          then call r (OpReturnToSearching ''ACCEPTANCE_FAILED'' now) f
          else snd (transitionFromEngine d n r st now f))
         (and_then (save r) (\<lambda>f. (None, addTicket r f))))) idle"
proof -
  have "step (live r) (\<lambda>f. if st = StatusRequiresAcceptance
      then call r (OpReturnToSearching ''ACCEPTANCE_FAILED'' now) f
      else snd (transitionFromEngine d n r st now f)) (holds {r} r)"
    by (cases "st = StatusRequiresAcceptance") (simp_all add: call_any transition_step)
  from frame.runs_and_then [OF capture_final_live
      frame.runs_and_then [OF this frame.runs_and_then [OF save_holds addTicket_holds]]]
  show ?thesis by (rule runs_conseq) (simp_all add: holds_idle)
qed

lemma settle_ticket_step: "step idle (settle_ticket d cfg now i) idle"
proof (rule runs_at)
  fix f :: "'a frame" assume idle: "idle f"
  then show "reaches frame_le idle idle f (settle_ticket d cfg now i f)"
  proof (cases rule: found_cases [where i = i])
    case (missing e)
    with idle show ?thesis by (simp add: settle_ticket_def frame.reaches_return)
  next
    case (found r)
    with idle show ?thesis
      by (auto simp: settle_ticket_def RA_live frame.reaches_return
          intro: reaches_run [OF settle_found] split: sum.split)
  qed
qed

lemma settle_one_step: "step idle (settle_one d cfg matches after now x) idle"
proof (rule runs_at)
  fix f :: "'a frame" assume idle: "idle f"
  obtain m old where x: "x = (m, old)" by fastforce
  have loop: "step idle (and_then (foreach (settle_ticket d cfg now) (tp_ids old))
      (\<lambda>f. (None, on_tracker (cfg_Name cfg) (forget m) f))) idle"
    by (intro frame.runs_and_then [OF frame.runs_foreach] settle_ticket_step)
       (auto intro!: runsI dest: forget_idle)
  show "reaches frame_le idle idle f (settle_one d cfg matches after now x f)"
    unfolding settle_one_def x prod.case Let_def
    using frame.reaches_after [OF batch_add_le(1) reaches_run [OF loop batch_add_idle(1) [OF idle]]]
    by (auto simp: idle frame.reaches_return intro: reaches_run [OF loop])
qed

lemma settleOldProposals_step: "step idle (settleOldProposals d cfg matches after now) idle"
  by (rule runs_at) (simp add: settleOldProposals_def reaches_run [OF frame.runs_foreach] settle_one_step)

section \<open>Finalising matches\<close>

lemma complete_ticket_step: "step (holds {} r) (complete_ticket d teams m now r) idle"
proof -
  have place: "step (holds {} r)
      (\<lambda>f. if tk_status (ticket_at f r) = StatusPlacing then (None, f)
           else call r (OpMoveToPlacing m now) f) (live r)"
  proof (rule runs_if)
    show "step (\<lambda>f. holds {} r f \<and> tk_status (ticket_at f r) = StatusPlacing) (\<lambda>f. (None, f)) (live r)"
      by (rule runs_conseq [OF frame.runs_return]) (auto simp: live_def active_ref_def IsActive_def)
    show "step (\<lambda>f. holds {} r f \<and> tk_status (ticket_at f r) \<noteq> StatusPlacing)
        (call r (OpMoveToPlacing m now)) (live r)"
      by (rule runs_pre [OF call_activate]) (auto simp: IsActive_def)
  qed
  have eng: "step (live r) (\<lambda>f. eng_tolerant (fx_MarkCompleted d (tk_id (ticket_at f r))) f) (live r)"
    by (rule eng_tolerant_keeps) (auto intro: live_svc live_idle)
  have teams: "step (holds {} r) (call r (OpSetPlayerTeams teams)) (holds {} r)"
    by (rule call_quiet) simp
  have "step (holds {} r) (complete_ticket d teams m now r) (holds {} r)"
    unfolding complete_ticket_def
    by (rule frame.runs_and_then [OF teams frame.runs_and_then [OF place frame.runs_and_then [OF eng
          frame.runs_and_then [OF call_any save_holds]]]])
  then show ?thesis by (rule runs_conseq) (simp_all add: holds_idle)
qed

lemma finalize_tickets_keeps:
  assumes "idle f" and "finalize_tickets d cfg teams m now ids settled f = (x, settled', f')"
  shows "frame_le f f' \<and> idle f'"
  using assms
proof (induction ids arbitrary: settled f)
  case (Cons i ids)
  from Cons.prems(1) show ?case
  proof (cases rule: found_cases [where i = i])
    case (missing e)
    then show ?thesis using Cons by simp
  next
    case (found r)
    obtain y g where c: "complete_ticket d teams m now r f = (y, g)" by fastforce
    from runsD(1) [OF complete_ticket_step found(2) c] have "frame_le f g" by simp
    moreover have "idle g" using runsD(2,3) [OF complete_ticket_step found(2)] c by (cases y) auto
    ultimately show ?thesis
      using Cons found c by (cases y) (auto simp: Let_def intro: frame_le_trans)
  qed
qed simp

lemma finalize_known_step: "step idle (finalize_known d cfg now fm m direct) idle"
proof (rule runs_at)
  fix f :: "'a frame" assume idle: "idle f"
  obtain x settled g where f: "finalize_tickets d cfg (playerTeams (fm_Teams fm)) m now
      (fm_TicketIDs fm) False f = (x, settled, g)"
    by (metis prod_cases3)
  from finalize_tickets_keeps [OF idle f] have g: "frame_le f g" "idle g" by auto
  let ?g = "fold batch_add (match_events cfg m fm direct settled now) g"
  have "idle ?g" "frame_le f ?g"
    using batch_add_idle(2) [OF g(2)] frame_le_trans [OF g(1) batch_add_le(2)] by auto
  with forget_idle [of ?g "cfg_Name cfg" m] g
  show "reaches frame_le idle idle f (finalize_known d cfg now fm m direct f)"
    by (cases x) (auto simp: finalize_known_def f reaches_def intro: frame_le_trans)
qed

lemma finalize_match_step: "step idle (finalize_match d cfg now fm) idle"
proof (rule runs_at)
  fix f :: "'a frame" assume idle: "idle f"
  show "reaches frame_le idle idle f (finalize_match d cfg now fm f)"
  proof (cases "known (fm_TicketIDs fm) (tracker_of (cfg_Name cfg) f)")
    case (Some m)
    then show ?thesis by (simp add: finalize_match_def reaches_run [OF finalize_known_step idle])
  next
    case None
    obtain m f1 where new: "NewMatchID f = (m, f1)" by fastforce
    note entered = new_match_idle [OF idle new, of "cfg_Name cfg" "fm_TicketIDs fm" 0]
    show ?thesis
      using frame.reaches_after [OF entered(2) reaches_run [OF finalize_known_step entered(1)]]
      by (simp add: finalize_match_def None new Let_def assign_def [abs_def])
  qed
qed

lemma finalizeMatches_step: "step idle (finalizeMatches d cfg matches now) idle"
  unfolding finalizeMatches_def by (rule frame.runs_foreach) (rule finalize_match_step)

section \<open>New proposals\<close>

lemma assign_ticket_step: "step idle (assign_ticket teams m now i) idle"
proof (rule runs_at)
  fix f :: "'a frame" assume idle: "idle f"
  then show "reaches frame_le idle idle f (assign_ticket teams m now i f)"
  proof (cases rule: found_cases [where i = i])
    case (missing e)
    with idle show ?thesis by (simp add: assign_ticket_def frame.reaches_return)
  next
    case (found r)
    have assign: "step (holds {} r) (call r (OpAssignToProposal m now)) (holds {} r)"
      by (rule runs_conseq [OF call_activate]) (auto simp: IsActive_def live_holds)
    have teams: "step (holds {} r) (call r (OpSetPlayerTeams teams)) (holds {} r)"
      by (rule call_quiet) simp
    from frame.runs_and_then [OF assign frame.runs_and_then [OF teams save_quiet]]
    have "step (holds {} r) (and_then (call r (OpAssignToProposal m now))
        (and_then (call r (OpSetPlayerTeams teams)) (save r))) idle"
      by (rule runs_conseq) (simp_all add: holds_idle)
    from reaches_run [OF this found(2)] show ?thesis by (simp add: assign_ticket_def found(1))
  qed
qed

lemma batch_add_step: "step idle (\<lambda>f. (None, batch_add e f)) idle"
  by (rule runsI) (auto simp: batch_add_idle batch_add_le)

lemma apply_proposal_step: "step idle (apply_proposal cfg now p) idle"
proof (rule runs_at)
  fix f :: "'a frame" assume idle: "idle f"
  obtain m f1 where new: "NewMatchID f = (m, f1)" by fastforce
  note entered = new_match_idle [OF idle new, of "cfg_Name cfg" "fp_TicketIDs p" "fp_CreatedAt p"]
  have body: "step idle (and_then (foreach (assign_ticket (playerTeams (fp_Teams p)) m now)
      (fp_TicketIDs p)) (\<lambda>f. (None, batch_add e f))) idle" for e
    by (rule frame.runs_and_then [OF frame.runs_foreach [OF assign_ticket_step] batch_add_step])
  show "reaches frame_le idle idle f (apply_proposal cfg now p f)"
    using frame.reaches_after [OF entered(2) reaches_run [OF body entered(1)]]
    by (simp add: apply_proposal_def new idle frame.reaches_return)
qed

lemma applyNewProposals_step: "step idle (applyNewProposals cfg after now) idle"
  unfolding applyNewProposals_def by (rule frame.runs_foreach) (rule apply_proposal_step)

section \<open>Synchronising active tickets\<close>

text \<open>
  The loop walks over identifiers read at its start. Each pass changes its own ticket only, so
  the tickets still to come stay active.
\<close>

definition only :: "ref \<Rightarrow> 'e frame \<Rightarrow> 'e frame \<Rightarrow> bool" where
  "only r f f' \<longleftrightarrow>
     (\<forall>q. q \<noteq> r \<longrightarrow> ticket_at f' q = ticket_at f q \<and>
        (\<forall>i. sv_tickets (fr_svc f') i = Some q \<longrightarrow> sv_tickets (fr_svc f) i = Some q))"

lemma only_refl [simp]: "only r f f"
  by (simp add: only_def)

lemma only_trans: "only r f g \<Longrightarrow> only r g h \<Longrightarrow> only r f h"
  by (simp add: only_def)

lemma only_call: "only r f (snd (call r op f))"
  by (cases rule: mutate_cases [of op "fr_svc f" r]) (auto simp: only_def on_svc_def)

lemma only_save: "only r f (snd (save r f))"
  by (auto simp: only_def on_svc_def SaveTicket_def Let_def register_ticket_simps split: if_splits)

lemma only_addTicket: "only r f (addTicket r f)"
  using only_call [of r f OpPullEvents] by (simp add: only_def addTicket_def Let_def fold_batch_add)

lemma only_capture: "only r f (snd (capture_final d r st f))"
  by (simp add: capture_final_def captureRuleMetrics_def only_call split: option.split)

lemma only_transition: "only r f (snd (snd (transitionFromEngine d n r st now f)))"
  using transition_at [of d n r st now f] only_call by (metis only_refl snd_conv)

lemma only_announce: "only r f (snd (announce_failure n now r m oc settled f))"
  by (simp add: announce_failure_def only_def on_tracker_def upd_tracker_simps split: option.split)

lemma announce_keeps:
  assumes "holds {} r f"
  shows "holds {} r (snd (announce_failure n now r m oc settled f)) \<and>
    frame_le f (snd (announce_failure n now r m oc settled f))"
proof -
  have "holds {} r (on_tracker n (forget m) (batch_add e f)) \<and>
      frame_le f (on_tracker n (forget m) (batch_add e f))" for e
    using forget_holds [OF holds_svc [OF assms batch_add_svc(1)]] batch_add_le(1) frame_le_trans by blast
  with assms show ?thesis
    by (simp add: announce_failure_def split: option.split)
qed

lemma sync_one_keeps:
  assumes live: "live r f" and f': "sync_one d n now r st settled f = (x, settled', f')"
  shows "frame_le f f' \<and> idle f' \<and> only r f f'"
proof -
  let ?m = "tk_matchID (ticket_at f r)"
  obtain f1 where f1: "capture_final d r st f = (None, f1)"
    using capture_final_ok by (metis prod.collapse)
  note c = runsD(1,2) [OF capture_final_live live f1]
  obtain oc y f2 where f2: "transitionFromEngine d n r st now f1 = (oc, y, f2)" by (metis prod_cases3)
  then have t: "snd (transitionFromEngine d n r st now f1) = (y, f2)" by simp
  have o2: "only r f f2"
    using only_trans [OF only_capture only_transition] f1 f2 by (metis snd_conv)
  show ?thesis
  proof (cases y)
    case (Some e)
    then show ?thesis
      using runsD(1,3) [OF transition_step c(2), of d n st now] t o2 f' f1 f2 frame_le_trans [OF c(1)]
      by (auto simp: sync_one_def)
  next
    case None
    note h2 = runsD(1,2) [OF transition_step c(2) t [unfolded None]]
    have s: "save r f2 = (None, f2\<lparr>fr_svc := register_ticket r (fr_svc f2)\<rparr>)"
      using h2(2) SaveTicket_stored(1) [of "{r}" "fr_svc f2" r]
      by (auto simp: holds_def svc_inv_def on_svc_def)
    let ?f3 = "f2\<lparr>fr_svc := register_ticket r (fr_svc f2)\<rparr>"
    note h3 = runsD(1,2) [OF save_holds h2(2) s]
    let ?f4 = "snd (announce_failure n now r ?m oc settled ?f3)"
    note h4 = announce_keeps [OF h3(2), of n now ?m oc settled]
    have h5: "frame_le ?f4 (addTicket r ?f4)" "holds {} r (addTicket r ?f4)"
      using runsD(1,2) [OF addTicket_holds conjunct1 [OF h4] refl] by auto
    have f'_eq: "f' = addTicket r ?f4"
      using f' None s by (auto simp: sync_one_def f1 f2 Let_def split: prod.splits)
    have "frame_le f ?f3" using c(1) h2(1) h3(1) by (blast intro: frame_le_trans)
    then have "frame_le f f'" using h4 h5(1) f'_eq by (metis frame_le_trans)
    moreover have "only r f f'"
    proof -
      have "only r f2 ?f3" using only_save [of r f2] by (simp add: s)
      then have "only r f ?f3" by (rule only_trans [OF o2])
      then have "only r f ?f4" by (rule only_trans [OF _ only_announce])
      then show ?thesis unfolding f'_eq by (rule only_trans [OF _ only_addTicket])
    qed
    ultimately show ?thesis using h5(2) f'_eq holds_idle by blast
  qed
qed

definition pending_live :: "ticket_id list \<Rightarrow> 'e frame \<Rightarrow> bool" where
  "pending_live ids f \<longleftrightarrow>
     distinct ids \<and> (\<forall>i\<in>set ids. \<forall>r. find_ticket i f = Inr r \<longrightarrow> active_ref (fr_svc f) r)"

lemma GetTicket_Inr: "GetTicket i s = Inr r \<longleftrightarrow> sv_tickets s i = Some r"
  by (auto simp: GetTicket_def split: option.split)

lemma pending_live_next:
  assumes "pending_live (i # ids) f" and "only r f f'" and "idle f'"
    and "tk_id (ticket_at f' r) = i"
  shows "pending_live ids f'"
  unfolding pending_live_def
proof (intro conjI ballI allI impI)
  show "distinct ids" using assms(1) by (simp add: pending_live_def)
  fix j q assume j: "j \<in> set ids" and q: "find_ticket j f' = Inr q"
  from found_holds [OF assms(3) q] have "tk_id (ticket_at f' q) = j" by simp
  then have "q \<noteq> r" using assms(1,4) j by (auto simp: pending_live_def)
  then have "find_ticket j f = Inr q" "ticket_at f' q = ticket_at f q"
    using assms(2) q by (auto simp: only_def GetTicket_Inr)
  with assms(1) j show "active_ref (fr_svc f') q" by (auto simp: pending_live_def active_ref_def)
qed

lemma sync_tickets_keeps:
  assumes "idle f" and "pending_live ids f"
  shows "reaches frame_le idle idle f (sync_tickets d n now ids settled f)"
  using assms
proof (induction ids arbitrary: settled f)
  case (Cons i ids)
  have rest: "pending_live ids f" using Cons.prems(2) by (simp add: pending_live_def)
  note skip = Cons.IH [OF Cons.prems(1) rest]
  from Cons.prems(1) show ?case
  proof (cases rule: found_cases [where i = i])
    case (found r)
    then have live: "live r f" using Cons.prems(2) by (simp add: pending_live_def live_def)
    show ?thesis
    proof (cases "fx_Status d i (fr_eng f)")
      case (Inr st)
      obtain x settled' g where one: "sync_one d n now r st settled f = (x, settled', g)"
        by (metis prod_cases3)
      note keeps = sync_one_keeps [OF live one]
      have "tk_id (ticket_at g r) = i"
        using keeps found(2,3) Cons.prems(1)
        by (auto simp: frame_le_def svc_le_def hext_def ticket_le_def same_ident_def
            idle_def svc_inv_def store_inv_def holds_def dest: maps_okD(1))
      then have "pending_live ids g" using keeps pending_live_next [OF Cons.prems(2)] by blast
      with keeps Cons.IH [of g settled'] frame.reaches_after [of f g]
      have "reaches frame_le idle idle f (sync_tickets d n now ids settled' g)" by blast
      with keeps skip show ?thesis
        using found(1) Inr one by (cases x) (auto simp: reaches_def)
    qed (use skip found(1) in simp)
  qed (use skip in simp)
qed (simp add: frame.reaches_return)

lemma pending_live_active:
  assumes "idle f"
  shows "pending_live (ActiveTicketIDsByConfiguration n (fr_svc f)) f"
proof -
  have inv: "store_inv {} (fr_svc f)" using assms by (simp add: idle_def svc_inv_def)
  then show ?thesis
    using index_okD(1) active_exact [OF inv, of n]
    by (fastforce simp: pending_live_def ActiveTicketIDsByConfiguration_def GetTicket_Inr store_inv_def)
qed

lemma syncActiveTickets_step: "step idle (syncActiveTickets d cfg now) idle"
  by (rule runs_at) (simp add: syncActiveTickets_def sync_tickets_keeps pending_live_active)

section \<open>The whole tick\<close>

lemma apply_tick_step: "runs frame_shrink idle (apply_tick d n now cfg matches after) idle idle"
  unfolding apply_tick_def
  by (intro shrink.runs_and_then [OF runs_shrink [OF settleOldProposals_step]]
      shrink.runs_and_then [OF runs_shrink [OF finalizeMatches_step]]
      shrink.runs_and_then [OF runs_shrink [OF applyNewProposals_step]]
      shrink.runs_and_then [OF runs_shrink [OF syncActiveTickets_step]] evict_phase_keeps)

lemma tick_body_keeps:
  assumes "idle f"
  shows "frame_shrink f (snd (tick_body d n now cfg f)) \<and> idle (snd (tick_body d n now cfg f))"
proof -
  obtain x g where eng: "on_eng (fx_Tick d) f = (x, g)" by fastforce
  then have g: "fr_svc g = fr_svc f" "fr_batch g = fr_batch f" using on_eng_svc by (metis snd_conv)+
  then have "idle g" "frame_shrink f g" using assms by (auto simp: idle_def frame_shrink_def)
  then show ?thesis
    using runs_snd [OF apply_tick_step \<open>idle g\<close>] frame_shrink_trans [OF \<open>frame_shrink f g\<close>]
    by (cases x) (auto simp: tick_body_def eng)
qed

end
