(* ===== verification/Service_System.thy ===== *)
theory Service_System
  imports Command_Laws Tick_Laws
begin

text \<open>
  The service as a transition system: any command or tick, under its configuration's lock, in
  any order and with any interleaving of the parts before the lock. Reachable services satisfy
  the invariant, tickets evolve one way, and a game session has one live backfill request.
\<close>

section \<open>Start-up and steps\<close>

text \<open>
  The service as \<open>main.go\<close> wires it: no tickets, the configurations and rule sets loaded, one
  engine per configuration.
\<close>

definition empty_service :: "duration \<Rightarrow> idgen \<Rightarrow> idgen \<Rightarrow> 'e service" where
  "empty_service keep ids mids =
     \<lparr>sv_engines = Map.empty, sv_TicketRetention = keep, sv_IDs = ids, sv_MatchIDs = mids,
      sv_heap = (\<lambda>_. \<lparr>tk_id = [], tk_configurationName = [], tk_configurationARN = [],
        tk_players = [], tk_isBackfill = False, tk_gameSessionARN = [],
        tk_status = StatusQueued, tk_statusReason = [], tk_statusMessage = [],
        tk_startTime = 0, tk_endTime = 0, tk_matchID = [], tk_cancelByAPI = False,
        tk_playerTeams = Map.empty, tk_playerAcceptances = [], tk_ruleMetrics = [],
        tk_events = []\<rparr>),
      sv_next = 0, sv_tickets = Map.empty, sv_reserved = {}, sv_active = (\<lambda>_. []),
      sv_nextCleanup = (\<lambda>_. 0), sv_byConfig = (\<lambda>_. []), sv_configurations = [],
      sv_ruleSets = [], sv_trackers = (\<lambda>_. newProposalTracker)\<rparr>"

definition new_service ::
  "duration \<Rightarrow> idgen \<Rightarrow> idgen \<Rightarrow> configuration list \<Rightarrow> ruleset list \<Rightarrow> (config_name \<Rightarrow> 'e) \<Rightarrow> 'e service" where
  "new_service keep ids mids cfgs sets engine =
     fold (\<lambda>c s. Register (cfg_Name c) (engine (cfg_Name c)) s) cfgs
       (LoadRuleSets sets (LoadConfigurations cfgs (empty_service keep ids mids)))"

text \<open>
  One locked section. The reference of a stop or an accept was looked up at some earlier time, so
  it is arbitrary here; the engine's answers are those of \<open>d\<close>. In between, an engine can change by
  itself (the clock it reads moves on).
\<close>

inductive service_step :: "'e deps \<Rightarrow> 'e service \<Rightarrow> recorded_event list \<Rightarrow> 'e service \<Rightarrow> bool"
  for d :: "'e deps" where
  step_start: "Start_locked d ctx now n cmd s = (x, evs, s') \<Longrightarrow> service_step d s evs s'"
| step_backfill: "Backfill_locked d ctx now n bcmd s = (x, evs, s') \<Longrightarrow> service_step d s evs s'"
| step_stop: "Stop_locked d ctx i r s = (y, evs, s') \<Longrightarrow> service_step d s evs s'"
| step_accept: "Accept_locked d ctx now acmd r s = (y, evs, s') \<Longrightarrow> service_step d s evs s'"
| step_tick: "Tick_locked d ctx now n s = (y, evs, s') \<Longrightarrow> service_step d s evs s'"
| step_engine: "EngineFor n s = Inr eng \<Longrightarrow> service_step d s [] (Register n eng' s)"

inductive service_steps :: "'e deps \<Rightarrow> 'e service \<Rightarrow> recorded_event list \<Rightarrow> 'e service \<Rightarrow> bool"
  for d :: "'e deps" where
  steps_done: "service_steps d s [] s"
| steps_more: "service_steps d s evs t \<Longrightarrow> service_step d t evs' u \<Longrightarrow> service_steps d s (evs @ evs') u"

definition service_reachable :: "'e deps \<Rightarrow> 'e service \<Rightarrow> bool" where
  "service_reachable d s \<longleftrightarrow>
     (\<exists>keep ids mids cfgs sets engine evs. service_steps d (new_service keep ids mids cfgs sets engine) evs s)"

inductive_cases service_step_cases: "service_step d s evs s'"

section \<open>The invariant\<close>

lemma Tick_locked_keeps:
  "svc_inv {} s \<Longrightarrow> Tick_locked d ctx now n s = (x, evs, s') \<Longrightarrow> svc_inv {} s' \<and> svc_grow s s'"
  unfolding Tick_locked_def
  by (erule locked_configured_keeps [rotated -1])
     (auto simp: body_ok_def tick_body_keeps intro: frame_shrink_grow)

lemma Register_keeps:
  assumes "svc_inv {} s" and "EngineFor n s = Inr eng"
  shows "svc_inv {} (Register n eng' s) \<and> svc_grow s (Register n eng' s)"
proof -
  have "n \<in> dom (sv_engines s)" using assms(2) by (auto simp: EngineFor_def split: option.splits)
  then show ?thesis using assms(1)
    by (auto simp: Register_inv svc_grow_def Register_simps hext_def)
qed

lemma service_step_keeps:
  "service_step d s evs s' \<Longrightarrow> svc_inv {} s \<Longrightarrow> svc_inv {} s' \<and> svc_grow s s'"
  by (erule service_step.cases)
     (blast dest: Start_locked_keeps Backfill_locked_keeps Stop_locked_keeps Accept_locked_keeps
        Tick_locked_keeps Register_keeps)+

lemma service_steps_keep:
  "service_steps d s evs s' \<Longrightarrow> svc_inv {} s \<Longrightarrow> svc_inv {} s' \<and> svc_grow s s'"
  by (induction rule: service_steps.induct) (auto dest: service_step_keeps intro: svc_grow_trans)

lemma fold_Register:
  "svc_inv R (fold (\<lambda>c s. Register (f c) (g c) s) cs s) = svc_inv R s"
  "sv_tickets (fold (\<lambda>c s. Register (f c) (g c) s) cs s) = sv_tickets s"
  "sv_next (fold (\<lambda>c s. Register (f c) (g c) s) cs s) = sv_next s"
  by (induction cs arbitrary: s) (simp_all add: Register_inv Register_simps)

lemma empty_service_inv:
  "svc_inv {} (LoadRuleSets sets (LoadConfigurations cfgs (empty_service keep ids mids)))"
proof -
  have "tr_byMatch newProposalTracker = []" by (simp add: newProposalTracker_def)
  then show ?thesis
    by (simp add: svc_inv_def store_inv_def maps_ok_def index_ok_def configTicket_def LoadRuleSets_def
        LoadConfigurations_def trackers_ok_def tracker_wf_new empty_service_def)
qed

lemma new_service_inv: "svc_inv {} (new_service keep ids mids cfgs sets engine)"
  unfolding new_service_def fold_Register by (rule empty_service_inv)

lemma new_service_empty: "sv_tickets (new_service keep ids mids cfgs sets engine) = Map.empty"
  by (simp add: new_service_def fold_Register LoadRuleSets_def LoadConfigurations_def
      empty_service_def)

section \<open>One backfill request per game session\<close>

definition same_session :: "ticket \<Rightarrow> ticket \<Rightarrow> bool" where
  "same_session t t' \<longleftrightarrow> tk_isBackfill t \<and> tk_isBackfill t' \<and>
     tk_configurationName t = tk_configurationName t' \<and>
     tk_gameSessionARN t = tk_gameSessionARN t' \<and> tk_gameSessionARN t \<noteq> []"

definition sessions_ok :: "'e service \<Rightarrow> bool" where
  "sessions_ok s \<longleftrightarrow>
     (\<forall>i j q r. sv_tickets s i = Some q \<longrightarrow> sv_tickets s j = Some r \<longrightarrow> active_ref s q \<longrightarrow> active_ref s r \<longrightarrow>
        same_session (sv_heap s q) (sv_heap s r) \<longrightarrow> q = r)"

text \<open>Moving up without new tickets keeps it: terminal tickets stay terminal.\<close>

lemma svc_le_back:
  assumes "svc_le s s'" and "maps_ok s" and "sv_tickets s' i = Some q"
  shows "sv_tickets s i = Some q" "active_ref s' q \<Longrightarrow> active_ref s q"
    "same_ident (sv_heap s q) (sv_heap s' q)"
proof -
  have "map_le (sv_tickets s') (sv_tickets s)" using assms(1) by (simp add: svc_le_def)
  with assms(3) show q: "sv_tickets s i = Some q"
    by (auto simp: map_le_def) (metis domI)
  then have "q < sv_next s" by (rule maps_okD(1) [OF assms(2)])
  then have "ticket_le (sv_heap s q) (sv_heap s' q)" using assms(1) by (simp add: svc_le_def hext_def)
  then show "active_ref s' q \<Longrightarrow> active_ref s q" "same_ident (sv_heap s q) (sv_heap s' q)"
    by (auto simp: ticket_le_def active_ref_def IsActive_def)
qed

lemma sessions_le:
  assumes "sessions_ok s" and "svc_le s s'" and "maps_ok s"
  shows "sessions_ok s'"
  unfolding sessions_ok_def
proof (intro allI impI)
  fix i j q r
  assume a: "sv_tickets s' i = Some q" "sv_tickets s' j = Some r" "active_ref s' q" "active_ref s' r"
    "same_session (sv_heap s' q) (sv_heap s' r)"
  note q = svc_le_back [OF assms(2,3) a(1)] and r = svc_le_back [OF assms(2,3) a(2)]
  have "same_session (sv_heap s q) (sv_heap s r)"
    using a(5) same_identD [OF q(3)] same_identD [OF r(3)] by (auto simp: same_session_def)
  with assms(1) q r a(3,4) show "q = r" by (auto simp: sessions_ok_def)
qed

lemma sessions_shrink:
  "sessions_ok (fr_svc f) \<Longrightarrow> frame_shrink f f' \<Longrightarrow> idle f \<Longrightarrow> sessions_ok (fr_svc f')"
  using sessions_le idle_maps by (auto simp: frame_shrink_def)

lemma sessions_frame:
  "sessions_ok (fr_svc f) \<Longrightarrow> frame_le f f' \<Longrightarrow> idle f \<Longrightarrow> sessions_ok (fr_svc f')"
  by (erule sessions_shrink [OF _ frame_le_shrink])

text \<open>A new ticket keeps it when no live ticket holds its session.\<close>

definition session_free :: "ticket \<Rightarrow> 'e service \<Rightarrow> bool" where
  "session_free t s \<longleftrightarrow>
     (\<forall>i q. sv_tickets s i = Some q \<longrightarrow> active_ref s q \<longrightarrow> \<not> same_session (sv_heap s q) t)"

lemma same_session_sym: "same_session t t' \<Longrightarrow> same_session t' t"
  by (auto simp: same_session_def)

lemma session_free_le:
  assumes "session_free t s" and "svc_le s s'" and "maps_ok s"
  shows "session_free t s'"
  unfolding session_free_def
proof (intro allI impI notI)
  fix i q assume a: "sv_tickets s' i = Some q" "active_ref s' q" "same_session (sv_heap s' q) t"
  note q = svc_le_back [OF assms(2,3) a(1)]
  have "same_session (sv_heap s q) t" using a(3) same_identD [OF q(3)] by (auto simp: same_session_def)
  with assms(1) q a(2) show False by (auto simp: session_free_def)
qed

lemma sessions_publish:
  assumes "sessions_ok (fr_svc f)" and "idle f" and "sv_tickets (fr_svc f) (tk_id t) = None"
    and "session_free t (fr_svc f)"
  shows "sessions_ok (fr_svc (snd (publish_ticket t f)))"
proof -
  let ?r = "sv_next (fr_svc f)"
  let ?g = "stored_new t f"
  note new = stored_new_keeps [OF assms(2,3)]
  have old: "q \<noteq> ?r" if "sv_tickets (fr_svc f) i = Some q" for i q
    using maps_okD(1) [OF idle_maps [OF assms(2)] that] by simp
  have stored: "sv_tickets (fr_svc ?g) i = Some q \<longleftrightarrow>
      (if i = tk_id t then q = ?r else sv_tickets (fr_svc f) i = Some q)" for i q
    by (auto simp: new(3))
  have at: "ticket_at ?g q = (if q = ?r then t else ticket_at f q)" for q
    by (simp add: new(4))
  have "sessions_ok (fr_svc ?g)"
    unfolding sessions_ok_def stored
  proof (intro allI impI)
    fix i j q r
    assume i: "if i = tk_id t then q = ?r else sv_tickets (fr_svc f) i = Some q"
      and j: "if j = tk_id t then r = ?r else sv_tickets (fr_svc f) j = Some r"
      and act: "active_ref (fr_svc ?g) q" "active_ref (fr_svc ?g) r"
      and same: "same_session (ticket_at ?g q) (ticket_at ?g r)"
    have q: "q = ?r \<or> sv_tickets (fr_svc f) i = Some q \<and> q \<noteq> ?r" using i old by (auto split: if_splits)
    have r: "r = ?r \<or> sv_tickets (fr_svc f) j = Some r \<and> r \<noteq> ?r" using j old by (auto split: if_splits)
    have free: "\<not> same_session (ticket_at f k) t" "\<not> same_session t (ticket_at f k)"
      if "sv_tickets (fr_svc f) a = Some k" "active_ref (fr_svc f) k" for a k
      using assms(4) that by (auto simp: session_free_def dest: same_session_sym)
    from q r show "q = r"
      using act same free assms(1)
      by (elim disjE conjE) (auto simp: active_ref_def at sessions_ok_def)
  qed
  moreover have "maps_ok (fr_svc ?g)"
    using new(1) by (simp add: holds_def svc_inv_def store_inv_def)
  ultimately show ?thesis
    using runsD(1) [OF addTicket_holds new(1) refl] sessions_le
    by (auto simp: publish_ticket_eq frame_le_def)
qed

section \<open>The commands and the sessions\<close>

definition sess_ok :: "('e frame \<Rightarrow> 'a \<times> 'e frame) \<Rightarrow> 'e frame \<Rightarrow> bool" where
  "sess_ok body f \<longleftrightarrow>
     idle f \<longrightarrow> sessions_ok (fr_svc f) \<longrightarrow> sessions_ok (fr_svc (snd (body f)))"

lemma Register_sessions: "sessions_ok (Register n e s) = sessions_ok s"
  by (simp add: sessions_ok_def Register_simps active_ref_def)

lemma with_engine_sess:
  assumes "svc_inv {} s" and "sessions_ok s" and "\<And>f. sess_ok body f"
    and "with_engine n body s = (x, evs, s')"
  shows "sessions_ok s'"
proof (cases rule: with_engine_cases [of n body s])
  case (ran eng y f)
  then show ?thesis using assms assms(3) [of "opened s eng"]
    by (auto simp: sess_ok_def idle_def Register_sessions)
qed (use assms in simp)

lemma locked_configured_sess:
  assumes "svc_inv {} s" and "sessions_ok s" and "\<And>cfg f. sess_ok (body cfg) f"
    and "locked_configured ctx n body s = (x, evs, s')"
  shows "sessions_ok s'"
  using assms(2,4) with_engine_sess [OF assms(1,2) assms(3)]
  by (auto simp: locked_configured_def split: option.splits sum.splits)

lemma frame_sess: "(idle f \<Longrightarrow> frame_le f (snd (body f))) \<Longrightarrow> sess_ok body f"
  using sessions_frame by (auto simp: sess_ok_def)

lemma on_ticket_sess:
  assumes "svc_inv {} s" and "sessions_ok s"
    and "\<And>f. find_ticket i f = Inr r \<Longrightarrow> idle f \<Longrightarrow> frame_le f (snd (body f))"
    and "on_ticket ctx i r body s = (x, evs, s')"
  shows "sessions_ok s'"
proof (cases "ctx = None \<and> GetTicket i s = Inr r")
  case True
  let ?body = "\<lambda>f. if find_ticket i f = Inr r then body f else (Inl ErrTicketNotFound, f)"
  have "sess_ok ?body f" for f using assms(3) [of f] by (intro frame_sess) simp
  moreover have "with_engine n ?body s = with_engine n body s" for n
    using True by (simp add: with_engine_def split: sum.split)
  ultimately show ?thesis
    using with_engine_sess [OF assms(1,2), of ?body] assms(4) True by (auto simp: on_ticket_def)
qed (use assms in \<open>auto simp: on_ticket_def split: option.splits if_splits\<close>)

lemma Start_not_backfill: "NewTicket i cfg ps now = Inr t \<Longrightarrow> \<not> tk_isBackfill t"
  by (auto simp: NewTicket_def newTicket_def recordEvent_def split: if_splits)

lemma start_enqueue_sess:
  assumes "\<not> tk_isBackfill t"
  shows "sess_ok (start_enqueue d cmd t) f"
  unfolding sess_ok_def
proof (intro impI)
  assume idle: "idle f" and sess: "sessions_ok (fr_svc f)"
  obtain x f1 where f1: "on_svc (reserveTicketID (tk_id t)) f = (x, f1)" by fastforce
  note r = reserve_keeps [OF idle f1]
  obtain y f2 where f2: "on_eng (fx_Enqueue d \<lparr>ft_ID = tk_id t, ft_Players = sc_Players cmd\<rparr>) f1 = (y, f2)"
    by fastforce
  note e = on_eng_keeps [OF f2]
  have idle2: "idle f2" and le2: "frame_le f f2" using r(1) e frame_le_trans by blast+
  note sess2 = sessions_frame [OF sess le2 idle]
  have "session_free t (fr_svc f2)" using assms by (simp add: session_free_def same_session_def)
  then show "sessions_ok (fr_svc (snd (start_enqueue d cmd t f)))"
    using sessions_publish [OF sess2 idle2] r(2,3) e(2) sess
      sessions_frame [OF sess2 conjunct2 [OF release_keeps [OF idle2]] idle2]
    by (cases x; cases y) (simp_all add: start_enqueue_def f1 f2)
qed

lemma start_body_sess: "sess_ok (start_body d now cmd cfg) f"
  unfolding sess_ok_def
proof (intro impI)
  assume idle: "idle f" and sess: "sessions_ok (fr_svc f)"
  obtain x f1 where f1: "choose_id (sc_TicketID cmd) f = (x, f1)" by fastforce
  note c = choose_id_keeps [OF idle f1]
  then have "idle f1" "sessions_ok (fr_svc f1)" using sessions_frame [OF sess _ idle] by auto
  with sess show "sessions_ok (fr_svc (snd (start_body d now cmd cfg f)))"
    using start_enqueue_sess [OF Start_not_backfill, where f = f1]
    by (auto simp: start_body_def f1 sess_ok_def split: option.split sum.split)
qed

text \<open>After the search, the session is free of live requests or its one live request was found.\<close>

lemma session_searched:
  assumes "idle f" and "sessions_ok (fr_svc f)" and "tk_configurationName t = n"
    and "tk_gameSessionARN t = bc_GameSessionARN cmd"
    and "sv_tickets (fr_svc f) i = Some q" and "active_ref (fr_svc f) q"
    and "same_session (ticket_at f q) t"
  shows "session_to_supersede n cmd (fr_svc f) = Some q"
proof -
  let ?s = "fr_svc f"
  have arn: "bc_GameSessionARN cmd \<noteq> []" using assms(4,7) by (auto simp: same_session_def)
  have inv: "store_inv {} ?s" using assms(1) by (simp add: idle_def svc_inv_def)
  have n: "cfg_of ?s q = n" using assms(3,7) by (simp add: same_session_def cfg_of_def)
  have mem: "i \<in> set (ActiveTicketIDsByConfiguration n ?s)"
    using active_exact [OF inv, of n] assms(5,6) n by (auto simp: ActiveTicketIDsByConfiguration_def)
  have hit: "tk_isBackfill (ticket_at f q) \<and> tk_gameSessionARN (ticket_at f q) = bc_GameSessionARN cmd \<and>
      active_ref ?s q"
    using assms(4,6,7) by (simp add: same_session_def)
  have sup: "session_to_supersede n cmd ?s =
      find_session (ActiveTicketIDsByConfiguration n ?s) (bc_GameSessionARN cmd) ?s"
    using arn by (simp add: session_to_supersede_def findSessionBackfill_def)
  then obtain r where r: "session_to_supersede n cmd ?s = Some r"
    using find_session_none [OF _ mem, of "bc_GameSessionARN cmd" ?s q] hit assms(5)
    by (cases "session_to_supersede n cmd ?s") (auto simp: GetTicket_Inr)
  then obtain j where j: "j \<in> set (ActiveTicketIDsByConfiguration n ?s)" "sv_tickets ?s j = Some r"
      "tk_isBackfill (ticket_at f r)" "tk_gameSessionARN (ticket_at f r) = bc_GameSessionARN cmd" "active_ref ?s r"
    using sup find_session_found [of _ "bc_GameSessionARN cmd" ?s r] by (auto simp: GetTicket_Inr)
  have "cfg_of ?s r = n"
    using j(1,2) active_exact [OF inv, of n] by (auto simp: ActiveTicketIDsByConfiguration_def)
  then have "same_session (ticket_at f r) (ticket_at f q)"
    using j hit n arn by (simp add: same_session_def cfg_of_def)
  with assms(2,5,6) j(2,5) have "r = q" by (auto simp: sessions_ok_def)
  with r show ?thesis by simp
qed

interpretation anyhow: state_order "\<lambda>_ _. True"
  by unfold_locales simp_all

definition superseded_ticket :: "gotime \<Rightarrow> ticket \<Rightarrow> bool" where
  "superseded_ticket now t \<longleftrightarrow> tk_status t = StatusCancelled \<and> tk_endTime t = now \<and>
     tk_statusMessage t = ''Superseded by a newer backfill request for the same game session''"

lemma superseded_result:
  fixes f f' :: "'a frame"
  assumes "supersedeBackfill d r now f = (None, f')"
  shows "superseded_ticket now (ticket_at f' r)"
proof -
  let ?run = "\<lambda>P (g :: 'a frame \<Rightarrow> err option \<times> 'a frame) Q. runs (\<lambda>_ _. True) P g Q (\<lambda>_. True)"
  let ?off = "\<lambda>f :: 'a frame. superseded_ticket now (ticket_at f r)"
  have any: "?run (\<lambda>_. True) g (\<lambda>_. True)" for g :: "'a frame \<Rightarrow> err option \<times> 'a frame"
    by (rule runsI) simp_all
  have mark: "?run (\<lambda>_. True) (call r (OpMarkCancelledBySuperseded now)) ?off"
  proof (rule runsI)
    fix f f' :: "'a frame" assume "call r (OpMarkCancelledBySuperseded now) f = (None, f')"
    then obtain t where "ticket_step (OpMarkCancelledBySuperseded now) (ticket_at f r) = Inr t"
      and f': "f' = f\<lparr>fr_svc := put_ticket r t (fr_svc f)\<rparr>"
      by (cases rule: mutate_cases [of "OpMarkCancelledBySuperseded now" "fr_svc f" r]) (auto simp: on_svc_def)
    then have "superseded_ticket now t"
      by (auto simp: ticket_defs superseded_ticket_def split: sum.splits if_splits)
    then show "True \<and> superseded_ticket now (ticket_at f' r)" by (simp add: f')
  qed simp
  have save: "?run ?off (save r) ?off"
    by (rule runsI) (auto simp: on_svc_def SaveTicket_def Let_def register_ticket_simps split: if_splits)
  have add: "?run ?off (\<lambda>f. (None, addTicket r f)) ?off"
    by (rule runsI) (auto simp: superseded_ticket_def addTicket_frame)
  from anyhow.runs_and_then [OF any anyhow.runs_and_then [OF any anyhow.runs_and_then [OF mark
        anyhow.runs_and_then [OF save add]]]]
  have "?run (\<lambda>_. True) (supersedeBackfill d r now) ?off"
    unfolding supersedeBackfill_def .
  from runsD(2) [OF this] assms show ?thesis by simp
qed

lemma superseded_inactive:
  "supersedeBackfill d r now f = (None, f') \<Longrightarrow> \<not> active_ref (fr_svc f') r"
  using superseded_result by (fastforce simp: superseded_ticket_def active_ref_def IsActive_def)

lemma backfill_enqueue_sess:
  assumes "superseded = None \<or> (\<exists>r. superseded = Some r \<and> live r f)"
    and found: "\<And>i q. sv_tickets (fr_svc f) i = Some q \<Longrightarrow> active_ref (fr_svc f) q \<Longrightarrow>
      same_session (ticket_at f q) t \<Longrightarrow> superseded = Some q"
  shows "sess_ok (backfill_enqueue d now cmd superseded t) f"
  unfolding sess_ok_def
proof (intro impI)
  assume idle: "idle f" and sess: "sessions_ok (fr_svc f)"
  obtain x f1 where f1: "on_svc (reserveTicketID (tk_id t)) f = (x, f1)" by fastforce
  note r = reserve_keeps [OF idle f1]
  obtain y f2 where f2: "on_eng (fx_EnqueueBackfill d \<lparr>ft_ID = tk_id t, ft_Players = bc_Players cmd\<rparr>) f1 = (y, f2)"
    by fastforce
  note e = on_eng_keeps [OF f2]
  have idle2: "idle f2" and le2: "frame_le f f2" using r(1) e frame_le_trans by blast+
  note sess2 = sessions_frame [OF sess le2 idle]
  show "sessions_ok (fr_svc (snd (backfill_enqueue d now cmd superseded t f)))"
  proof (cases "x = None \<and> y = None")
    case True
    then have free: "sv_tickets (fr_svc f2) (tk_id t) = None" using r(2) e(2) by simp
    have same2: "sv_tickets (fr_svc f2) = sv_tickets (fr_svc f)" "sv_heap (fr_svc f2) = sv_heap (fr_svc f)"
      using r(4,7) e(2) by simp_all
    have found2: "superseded = Some q" if "sv_tickets (fr_svc f2) i = Some q" "active_ref (fr_svc f2) q"
        "same_session (ticket_at f2 q) t" for i q
      using found [of i q] that by (simp add: same2 active_ref_def)
    show ?thesis
    proof (cases superseded)
      case None
      then have "session_free t (fr_svc f2)" using found2 by (auto simp: session_free_def)
      with True None sessions_publish [OF sess2 idle2 free] show ?thesis
        by (simp add: backfill_enqueue_def f1 f2)
    next
      case (Some p)
      then have "live p f" using assms(1) by simp
      then have live2: "live p f2"
        using idle2 by (simp add: live_def holds_def idle_def active_ref_def same2)
      obtain z f3 where f3: "supersedeBackfill d p now f2 = (z, f3)" by fastforce
      note s = runsD [OF supersedeBackfill_step live2]
      have 3: "frame_le f2 f3" "idle f3" using s f3 holds_idle by (cases z; blast)+
      note sess3 = sessions_frame [OF sess2 3(1) idle2]
      have undo: "sessions_ok (fr_svc (snd (undo_backfill d i e f3)))" for i e
        using sessions_frame [OF sess3 conjunct1 [OF undo_backfill_keeps [OF 3(2)]] 3(2)] .
      have "session_free t (fr_svc f3)" if "z = None"
        unfolding session_free_def
      proof (intro allI impI notI)
        fix i q assume q: "sv_tickets (fr_svc f3) i = Some q" "active_ref (fr_svc f3) q"
          "same_session (ticket_at f3 q) t"
        have le: "svc_le (fr_svc f2) (fr_svc f3)" using 3(1) by (simp add: frame_le_def)
        note b = svc_le_back [OF le idle_maps [OF idle2] q(1)]
        have "same_session (ticket_at f2 q) t" using q(3) same_identD [OF b(3)] by (auto simp: same_session_def)
        with found2 b q(2) Some have "q = p" by blast
        with superseded_inactive [of d p now f2 f3] f3 that q(2) show False by simp
      qed
      then show ?thesis
        using sessions_publish [OF sess3 3(2) frame_le_tickets [OF 3(1) free]] undo True Some
        by (cases z) (simp_all add: backfill_enqueue_def f1 f2 f3)
    qed
  next
    case False
    then show ?thesis
      using r(3) sess sessions_frame [OF sess2 conjunct2 [OF release_keeps [OF idle2]] idle2]
      by (cases x; cases y) (simp_all add: backfill_enqueue_def f1 f2)
  qed
qed

lemma NewBackfillTicket_fields:
  assumes "NewBackfillTicket i cfg ps arn now = Inr t"
  shows "tk_configurationName t = cfg_Name cfg" "tk_gameSessionARN t = arn" "tk_id t = i"
  using assms by (auto simp: NewBackfillTicket_def newTicket_def recordEvent_def split: if_splits)

lemma backfill_body_sess: "sess_ok (backfill_body d now cmd cfg) f"
  unfolding sess_ok_def
proof (intro impI)
  assume idle: "idle f" and sess: "sessions_ok (fr_svc f)"
  obtain x f1 where f1: "choose_id (bc_TicketID cmd) f = (x, f1)" by fastforce
  note c = choose_id_keeps [OF idle f1]
  let ?sup = "session_to_supersede (cfg_Name cfg) cmd (fr_svc f)"
  have "live r f1" if "?sup = Some r" for r
    using session_live [OF idle that] c by (simp add: live_def holds_def idle_def active_ref_def)
  then have live: "?sup = None \<or> (\<exists>r. ?sup = Some r \<and> live r f1)" by (cases ?sup) auto
  have enq: "sess_ok (backfill_enqueue d now cmd ?sup t) f1"
    if t: "NewBackfillTicket i cfg (bc_Players cmd) (bc_GameSessionARN cmd) now = Inr t" for i t
  proof (rule backfill_enqueue_sess [OF live])
    fix i q assume "sv_tickets (fr_svc f1) i = Some q" "active_ref (fr_svc f1) q"
      "same_session (ticket_at f1 q) t"
    with c show "?sup = Some q"
      by (intro session_searched [OF idle sess NewBackfillTicket_fields(1,2) [OF t], of i])
         (simp_all add: active_ref_def)
  qed
  have "idle f1" "sessions_ok (fr_svc f1)" using c sessions_frame [OF sess _ idle] by auto
  with sess enq show "sessions_ok (fr_svc (snd (backfill_body d now cmd cfg f)))"
    by (auto simp: backfill_body_def Let_def f1 sess_ok_def split: option.split sum.split)
qed

section \<open>Reachable services\<close>

lemma service_step_sess:
  assumes "service_step d s evs s'" and "svc_inv {} s" and "sessions_ok s"
  shows "sessions_ok s'"
  using assms(1)
proof cases
  case (step_start ctx now n cmd x)
  then show ?thesis
    using locked_configured_sess [OF assms(2,3) start_body_sess] by (simp add: Start_locked_def)
next
  case (step_backfill ctx now n bcmd x)
  then show ?thesis
    using locked_configured_sess [OF assms(2,3) backfill_body_sess] by (simp add: Backfill_locked_def)
next
  case (step_stop ctx i r y)
  then show ?thesis
    using on_ticket_sess [OF assms(2,3) conjunct1 [OF stop_body_keeps]]
    by (simp add: Stop_locked_def)
next
  case (step_accept ctx now acmd r y)
  then show ?thesis
    using on_ticket_sess [OF assms(2,3) conjunct1 [OF accept_body_keeps]]
    by (simp add: Accept_locked_def)
next
  case (step_tick ctx now n y)
  have "sess_ok (tick_body d n now cfg) f" for cfg f
    using sessions_shrink [of f] tick_body_keeps [of f] by (auto simp: sess_ok_def)
  with step_tick show ?thesis
    using locked_configured_sess [OF assms(2,3)] by (metis Tick_locked_def)
next
  case (step_engine n eng eng')
  then show ?thesis using assms(3) by (simp add: Register_sessions)
qed

lemma service_steps_sess:
  "service_steps d s evs s' \<Longrightarrow> svc_inv {} s \<and> sessions_ok s \<Longrightarrow> svc_inv {} s' \<and> sessions_ok s'"
  by (induction rule: service_steps.induct) (auto dest: service_step_keeps service_step_sess)

lemma service_reachable_inv:
  assumes "service_reachable d s"
  shows "svc_inv {} s \<and> sessions_ok s"
proof -
  obtain keep ids mids cfgs sets engine evs
    where "service_steps d (new_service keep ids mids cfgs sets engine) evs s"
    using assms by (auto simp: service_reachable_def)
  moreover have "sessions_ok (new_service keep ids mids cfgs sets engine)"
    by (simp add: sessions_ok_def new_service_empty)
  ultimately show ?thesis using service_steps_sess new_service_inv by blast
qed

text \<open>Whole commands lead from reachable services to reachable services.\<close>

lemma reachable_step: "service_reachable d s \<Longrightarrow> service_step d s evs s' \<Longrightarrow> service_reachable d s'"
  unfolding service_reachable_def by (blast intro: steps_more)

lemma parts_eq: "p = (fst p, fst (snd p), snd (snd p))"
  by simp

lemma locked_reachable:
  assumes "service_reachable d s"
  shows "service_reachable d (snd (snd (Start_locked d ctx now n cmd s)))"
    and "service_reachable d (snd (snd (Backfill_locked d ctx now n bcmd s)))"
    and "service_reachable d (snd (snd (Stop_locked d ctx i r s)))"
    and "service_reachable d (snd (snd (Accept_locked d ctx now acmd r s)))"
    and "service_reachable d (snd (snd (Tick_locked d ctx now n s)))"
  by (rule reachable_step [OF assms step_start [OF parts_eq]])
     (rule reachable_step [OF assms step_backfill [OF parts_eq]]
        reachable_step [OF assms step_stop [OF parts_eq]]
        reachable_step [OF assms step_accept [OF parts_eq]]
        reachable_step [OF assms step_tick [OF parts_eq]])+

lemma command_reachable:
  assumes "service_reachable d s"
  shows "service_reachable d (snd (snd (StartMatchmaking d env now cmd s)))"
    and "service_reachable d (snd (snd (StartMatchBackfill d env now bcmd s)))"
    and "service_reachable d (snd (snd (StopMatchmaking d env i s)))"
    and "service_reachable d (snd (snd (AcceptMatch d env now acmd s)))"
    and "service_reachable d (snd (snd (Tick d env now n s)))"
  using assms locked_reachable [OF assms]
  by (simp_all add: StartMatchmaking_def StartMatchBackfill_def StopMatchmaking_def AcceptMatch_def
      find_then_def Tick_def split: sum.split option.split)

end
