(* ===== verification/Sample_World.thy ===== *)
theory Sample_World
  imports Service_System
begin

text \<open>
  A small concrete world on which the properties are exercised: an engine that keeps the status
  of each ticket and reports the proposals and matches it was loaded with, one configuration,
  one rule set.
\<close>

record toy =
  ty_status :: "(string \<times> ticket_status) list"
  ty_pending :: "flexi_proposal list"
  ty_matches :: "flexi_match list"

definition toy_enqueue :: "flexi_ticket \<Rightarrow> toy \<Rightarrow> flexi_err option \<times> toy" where
  "toy_enqueue t e =
     (case map_of (ty_status e) (ft_ID t) of
        Some st \<Rightarrow> (Some FxDuplicateTicket, e)
      | None \<Rightarrow> (None, e\<lparr>ty_status := (ft_ID t, StatusSearching) # ty_status e\<rparr>))"

definition toy_set :: "ticket_status \<Rightarrow> string \<Rightarrow> toy \<Rightarrow> flexi_err option \<times> toy" where
  "toy_set st i e =
     (case map_of (ty_status e) i of
        None \<Rightarrow> (Some FxUnknownTicket, e)
      | Some old \<Rightarrow> (None, e\<lparr>ty_status := AList.update i st (ty_status e)\<rparr>))"

definition toy_answer :: "string \<Rightarrow> string \<Rightarrow> toy \<Rightarrow> flexi_err option \<times> toy" where
  "toy_answer i p e =
     (if list_ex (\<lambda>q. i \<in> set (fp_TicketIDs q)) (ty_pending e) then (None, e) else (Some FxUnknownProposal, e))"

definition toy_deps :: "toy deps" where
  "toy_deps =
     \<lparr>fx_Enqueue = toy_enqueue, fx_EnqueueBackfill = toy_enqueue, fx_Cancel = toy_set StatusCancelled,
      fx_Evict = (\<lambda>i e. (None, e\<lparr>ty_status := AList.delete i (ty_status e)\<rparr>)),
      fx_Accept = toy_answer, fx_Reject = toy_answer, fx_MarkCompleted = toy_set StatusCompleted,
      fx_Tick = (\<lambda>e. (Inr (ty_matches e), e\<lparr>ty_matches := []\<rparr>)),
      fx_PendingAcceptances = ty_pending,
      fx_Status = (\<lambda>i e. case map_of (ty_status e) i of None \<Rightarrow> Inl FxUnknownTicket | Some st \<Rightarrow> Inr st),
      fx_StatusReason = (\<lambda>_ _. None), fx_RuleMetrics = (\<lambda>_ _. None),
      js_PlayerAttributes = (\<lambda>_. Some []), go_range_proposals = (\<lambda>xs. xs), go_range_tickets = (\<lambda>xs. xs)\<rparr>"

lemma toy_range_ok: "range_ok toy_deps"
  by (simp add: range_ok_def toy_deps_def)

definition toy_engine :: toy where
  "toy_engine = \<lparr>ty_status = [], ty_pending = [], ty_matches = []\<rparr>"

definition toy_cfg :: configuration where
  "toy_cfg = \<lparr>cfg_Name = ''c'', cfg_ARN = ''arn:c'', cfg_RuleSetName = ''r'', cfg_RuleSetARN = ''arn:r'',
     cfg_RequestTimeout = 0, cfg_AcceptanceRequired = True, cfg_AcceptanceTimeout = 0,
     cfg_BackfillMode = ''MANUAL'', cfg_FlexMatchMode = ''STANDALONE'', cfg_NotificationTargetIDs = []\<rparr>"

definition toy_ruleset :: ruleset where
  "toy_ruleset = \<lparr>rs_Name = ''r'', rs_ARN = ''arn:r'', rs_Body = ''{}''\<rparr>"

definition toy_player :: "player_id \<Rightarrow> player" where
  "toy_player p = \<lparr>pl_ID = p, pl_Team = ''red'', pl_Attributes = [], pl_Latencies = []\<rparr>"

definition calm :: call_env where
  "calm = \<lparr>ce_reserve = None, ce_ctx = None\<rparr>"

definition toy_service :: "toy service" where
  "toy_service = new_service 0 (NewSequence ''t-'') (NewSequence ''m-'') [toy_cfg] [toy_ruleset] (\<lambda>_. toy_engine)"

definition toy_start :: "ticket_id \<Rightarrow> player_id \<Rightarrow> gotime \<Rightarrow> toy service \<Rightarrow> toy service" where
  "toy_start i p now s = snd (snd (StartMatchmaking toy_deps calm now
     \<lparr>sc_ConfigurationName = ''c'', sc_TicketID = i, sc_Players = [toy_player p]\<rparr> s))"

definition toy_backfill :: "ticket_id \<Rightarrow> string \<Rightarrow> gotime \<Rightarrow> toy service \<Rightarrow> (err + ref) \<times> recorded_event list \<times> toy service" where
  "toy_backfill i arn now s = StartMatchBackfill toy_deps calm now
     \<lparr>bc_ConfigurationName = ''c'', bc_TicketID = i, bc_GameSessionARN = arn, bc_Players = [toy_player ''q'']\<rparr> s"

definition toy_proposal :: flexi_proposal where
  "toy_proposal = \<lparr>fp_TicketIDs = [''a'', ''b''], fp_Teams = [(''red'', [toy_player ''p'']), (''blue'', [toy_player ''q''])],
     fp_RuleEvaluationMetrics = [], fp_CreatedAt = 20\<rparr>"

definition toy_match :: flexi_match where
  "toy_match = \<lparr>fm_TicketIDs = [''a'', ''b''], fm_Teams = [(''red'', [toy_player ''p'']), (''blue'', [toy_player ''q''])],
     fm_RuleEvaluationMetrics = []\<rparr>"

text \<open>Two tickets in the pool, with what the engine reports next.\<close>

definition toy_pool :: "toy service" where
  "toy_pool = toy_start ''b'' ''q'' 11 (toy_start ''a'' ''p'' 10 toy_service)"

definition toy_load :: "flexi_proposal list \<Rightarrow> flexi_match list \<Rightarrow> ticket_status \<Rightarrow> toy service \<Rightarrow> toy service" where
  "toy_load ps ms st = Register ''c''
     \<lparr>ty_status = [(''a'', st), (''b'', st)], ty_pending = ps, ty_matches = ms\<rparr>"

definition toy_tick :: "gotime \<Rightarrow> toy service \<Rightarrow> (err + unit) \<times> recorded_event list \<times> toy service" where
  "toy_tick now = Tick toy_deps calm now ''c''"

definition toy_proposed :: "toy service" where
  "toy_proposed = snd (snd (toy_tick 20 (toy_load [toy_proposal] [] StatusRequiresAcceptance toy_pool)))"

definition toy_status_of :: "ticket_id \<Rightarrow> toy service \<Rightarrow> ticket_status option" where
  "toy_status_of i s = (case sv_tickets s i of None \<Rightarrow> None | Some r \<Rightarrow> Some (tk_status (sv_heap s r)))"

text \<open>The definitions that a run of the commands unfolds; \<open>simp\<close> evaluates with them.\<close>

lemmas ticket_run_defs = ticket_defs NewTicket_def newTicket_def NewBackfillTicket_def canTransitionTo_def
  IsActive_def ValidatePlayerAcceptances_def hasPlayer_def PlayerTeam_def is_zero_time_def
lemmas store_run_defs = alloc_def put_ticket_def mutate_def LoadConfigurations_def LoadRuleSets_def
  GetConfiguration_def GetRuleSet_def Register_def EngineFor_def upd_tracker_def GetTicket_def
  syncTicketIndexLocked_def register_ticket_def SaveTicket_def reserveTicketID_def
  cancelTicketReservation_def commitTicket_def ActiveTicketIDsByConfiguration_def
  retention_def expired_ids_def is_expired_def remove_expired_def evict_one_def evictExpiredTickets_def
lemmas frame_run_defs = record_event_def on_svc_def on_eng_def batch_add_def addTicket_def with_engine_def
  locked_configured_def NewMatchID_def tracker_of_def on_tracker_def snapshot_ticket_def and_then_def
  eng_tolerant_def captureRuleMetrics_def NewID_def NewSequence_def sequence_id_def nat_digits.simps
lemmas tracker_run_defs = newProposalTracker_def known_def assignAt_def assign_def forget_def
  ticketsFor_def proposalKey_def proposals_def
lemmas command_run_defs = validateRequiredAttributes_def choose_id_def release_id_def publish_ticket_def
  start_enqueue_def start_body_def Start_locked_def StartMatchmaking_def isSupersedable_def
  findSessionBackfill_def supersedeBackfill_def undo_backfill_def backfill_enqueue_def
  session_to_supersede_def backfill_body_def Backfill_locked_def StartMatchBackfill_def
  on_ticket_def find_then_def stop_body_def Stop_locked_def StopMatchmaking_def answer_def
  accept_players_def engine_players_def answer_all_def match_roster_def accept_event_def accept_body_def
  Accept_locked_def AcceptMatch_def NewAcceptMatch_def
lemmas tick_run_defs = playerTeams_def has_rejection_def acceptanceFailureOutcome_def engine_reason_def
  transitionFromEngine_def capture_final_def settle_ticket_def still_pending_def became_match_def
  cancel_requested_def settle_one_def ranged_proposals_def settleOldProposals_def complete_ticket_def
  match_events_def finalize_known_def finalize_match_def finalizeMatches_def assign_ticket_def
  already_tracked_def apply_proposal_def applyNewProposals_def sync_roster_def announce_failure_def
  sync_one_def syncActiveTickets_def evict_phase_def apply_tick_def tick_body_def Tick_locked_def Tick_def
lemmas toy_defs = toy_enqueue_def toy_set_def toy_answer_def toy_deps_def toy_engine_def toy_cfg_def
  toy_ruleset_def toy_player_def calm_def toy_service_def new_service_def empty_service_def toy_start_def
  toy_backfill_def toy_proposal_def toy_match_def toy_pool_def toy_load_def toy_tick_def toy_proposed_def
  toy_status_of_def
lemmas run_defs = ticket_run_defs store_run_defs frame_run_defs tracker_run_defs command_run_defs
  tick_run_defs toy_defs Let_def

lemma toy_service_reachable: "service_reachable toy_deps toy_service"
  unfolding service_reachable_def toy_service_def by (blast intro: steps_done)

lemma toy_load_reachable:
  assumes "service_reachable d s" and "EngineFor ''c'' s = Inr eng"
  shows "service_reachable d (toy_load ps ms st s)"
  unfolding toy_load_def by (rule reachable_step [OF assms(1) step_engine [OF assms(2)]])

lemma toy_pool_reachable: "service_reachable toy_deps toy_pool"
  unfolding toy_pool_def toy_start_def by (intro command_reachable toy_service_reachable)

lemma toy_pool_engine: "EngineFor ''c'' toy_pool =
    Inr \<lparr>ty_status = [(''b'', StatusSearching), (''a'', StatusSearching)], ty_pending = [], ty_matches = []\<rparr>"
  by (simp add: run_defs)

lemma toy_proposed_reachable: "service_reachable toy_deps toy_proposed"
  unfolding toy_proposed_def toy_tick_def
  by (intro command_reachable toy_load_reachable [OF toy_pool_reachable toy_pool_engine])

lemma toy_pool_statuses: "map (\<lambda>i. toy_status_of i toy_pool) [''a'', ''b'', ''x''] =
    [Some StatusQueued, Some StatusQueued, None]"
  by (simp add: run_defs)

lemma toy_proposed_statuses: "map (\<lambda>i. toy_status_of i toy_proposed) [''a'', ''b''] =
    [Some StatusRequiresAcceptance, Some StatusRequiresAcceptance]"
  by (simp add: run_defs)

end
