(* ===== verification/Store_Props.thy ===== *)
theory Store_Props
  imports Sample_World
begin

text \<open>
  The properties of the service's store: what lookups return, when a ticket may be saved, what
  eviction removes.
\<close>

section \<open>Lookups\<close>

lemma store_invD: "store_inv R s \<Longrightarrow> maps_ok s" "store_inv R s \<Longrightarrow> index_ok R s"
  by (simp_all add: store_inv_def)

lemma reachable_store: "service_reachable d s \<Longrightarrow> store_inv {} s"
  using service_reachable_inv by (auto simp: svc_inv_def)

text \<open>
  DescribeMatchmaking answers with the tickets of the known identifiers, in the order they
  were asked for, silently skipping the unknown ones.
\<close>

theorem describe_keeps_request_order:
  assumes "service_reachable d s"
  shows "map (\<lambda>r. tk_id (sv_heap s r)) (DescribeMatchmaking ids s) =
    filter (\<lambda>i. sv_tickets s i \<noteq> None) ids"
proof -
  have maps: "maps_ok s" using reachable_store [OF assms] by (rule store_invD)
  have "map (\<lambda>r. tk_id (sv_heap s r)) (GetTickets ids s) = filter (\<lambda>i. sv_tickets s i \<noteq> None) ids"
    using maps_okD(2) [OF maps] by (induction ids) (auto split: option.split)
  then show ?thesis by (simp add: DescribeMatchmaking_def)
qed

theorem describe_keeps_request_order_witness:
  "map (\<lambda>r. tk_id (sv_heap toy_pool r)) (DescribeMatchmaking [''b'', ''x'', ''a'', ''b''] toy_pool) =
     [''b'', ''a'', ''b'']"
  using describe_keeps_request_order [OF toy_pool_reachable, of "[''b'', ''x'', ''a'', ''b'']"]
  by (simp add: run_defs)

section \<open>Saving\<close>

text \<open>
  SaveTicket refuses a ticket exactly when its identifier belongs to another ticket object or
  is reserved for one; it then changes nothing. Otherwise the identifier denotes this object, in
  the global map and in its configuration's, and it is indexed as active exactly when it is.
\<close>

theorem save_ticket_spec:
  "(case SaveTicket (Some r) s of
      (Some e, s') \<Rightarrow> e = ErrTicketAlreadyExists \<and> s' = s \<and>
        sv_tickets s (tk_id (sv_heap s r)) \<noteq> Some r \<and>
        (sv_tickets s (tk_id (sv_heap s r)) \<noteq> None \<or> tk_id (sv_heap s r) \<in> sv_reserved s)
    | (None, s') \<Rightarrow>
        (sv_tickets s (tk_id (sv_heap s r)) = Some r \<or>
         sv_tickets s (tk_id (sv_heap s r)) = None \<and> tk_id (sv_heap s r) \<notin> sv_reserved s) \<and>
        sv_tickets s' = (sv_tickets s)(tk_id (sv_heap s r) \<mapsto> r) \<and>
        configTicket s' (cfg_of s r) (tk_id (sv_heap s r)) = Some r \<and>
        (tk_id (sv_heap s r) \<in> set (sv_active s' (cfg_of s r)) \<longleftrightarrow> active_ref s r))"
  by (simp add: SaveTicket_def Let_def register_ticket_simps register_ticket_views)

theorem save_ticket_spec_witness:
  "case SaveTicket (Some 0) (toy_pool\<lparr>sv_tickets := [''a'' \<mapsto> 1]\<rparr>) of
     (x, s') \<Rightarrow> x = Some ErrTicketAlreadyExists \<and> s' = toy_pool\<lparr>sv_tickets := [''a'' \<mapsto> 1]\<rparr>"
proof -
  have "tk_id (sv_heap toy_pool 0) = ''a''" by (simp add: run_defs)
  then show ?thesis
    using save_ticket_spec [where r = 0 and s = "toy_pool\<lparr>sv_tickets := [''a'' \<mapsto> 1]\<rparr>"]
    by (auto split: prod.splits option.splits)
qed

section \<open>Eviction\<close>

definition doomed :: "config_name \<Rightarrow> duration \<Rightarrow> gotime \<Rightarrow> 'e service \<Rightarrow> ticket_id \<Rightarrow> bool" where
  "doomed n ret now s i \<longleftrightarrow>
     (case configTicket s n i of None \<Rightarrow> False | Some r \<Rightarrow> is_expired ret now (sv_heap s r))"

lemma remove_expired_effect:
  "sv_heap (remove_expired n ret now i s) = sv_heap s"
  "sv_tickets (remove_expired n ret now i s) j =
     (if j = i \<and> doomed n ret now s i then None else sv_tickets s j)"
  "configTicket (remove_expired n ret now i s) n j =
     (if j = i \<and> doomed n ret now s i then None else configTicket s n j)"
  by (auto simp: remove_expired_def doomed_def configTicket_def gomap_simps split: option.splits)

lemma doomed_remove:
  "doomed n ret now (remove_expired n ret now i s) j \<longleftrightarrow> doomed n ret now s j \<and> j \<noteq> i"
  by (auto simp: doomed_def [of n ret now "remove_expired n ret now i s"] remove_expired_effect doomed_def
      split: option.split)

lemma evict_fold_effect:
  fixes s :: "'e service"
  shows "sv_heap (snd (fold (evict_one d n ret now) ids (e, s))) = sv_heap s \<and>
    sv_tickets (snd (fold (evict_one d n ret now) ids (e, s))) j =
      (if j \<in> set ids \<and> doomed n ret now s j then None else sv_tickets s j)"
proof (induction ids arbitrary: e s)
  case (Cons i ids)
  from Cons.IH [of "snd (fx_Evict d i e)" "remove_expired n ret now i s"]
  show ?case by (auto simp: evict_one_def remove_expired_effect doomed_remove)
qed simp

lemma doomed_iff:
  assumes "maps_ok s"
  shows "doomed n ret now s i \<longleftrightarrow>
    (case sv_tickets s i of None \<Rightarrow> False
     | Some r \<Rightarrow> cfg_of s r = n \<and> is_expired ret now (sv_heap s r))"
proof (cases "configTicket s n i")
  case (Some r)
  then show ?thesis using maps_okD(4,5) [OF assms Some] by (simp add: doomed_def)
next
  case None
  have "cfg_of s r \<noteq> n" if "sv_tickets s i = Some r" for r
    using maps_okD(3) [OF assms that] None by auto
  then show ?thesis using None by (simp add: doomed_def split: option.split)
qed

lemma doomed_listed:
  assumes "maps_ok s" and "doomed n ret now s i"
  shows "i \<in> set (expired_ids n ret now s)"
  using assms(2) map_of_SomeD
  by (fastforce simp: doomed_def configTicket_def expired_ids_def split: option.splits)


text \<open>A cancelled ticket, seen a minute later and three hours later.\<close>

definition toy_old :: "toy service" where
  "toy_old = snd (snd (toy_tick 30 (snd (snd (StopMatchmaking toy_deps calm ''a'' toy_pool)))))"

lemma toy_old_reachable: "service_reachable toy_deps toy_old"
  unfolding toy_old_def toy_tick_def by (intro command_reachable toy_pool_reachable)


end
