(* ===== verification/Command_Props.thy ===== *)
theory Command_Props
  imports Sample_World
begin

text \<open>
  The properties of the commands: what a start adds, what a failed start leaves behind, what
  stopping and accepting change, and how backfill requests of one game session replace each
  other.
\<close>

section \<open>The parts of a start\<close>

lemma reserve_result:
  assumes "on_svc (reserveTicketID i) f = (x, g)"
  shows "if sv_tickets (fr_svc f) i \<noteq> None \<or> i \<in> sv_reserved (fr_svc f)
    then x = Some ErrTicketAlreadyExists \<and> g = f
    else x = None \<and> g = f\<lparr>fr_svc := (fr_svc f)\<lparr>sv_reserved := insert i (sv_reserved (fr_svc f))\<rparr>\<rparr>"
  using assms by (auto simp: on_svc_def reserveTicketID_def split: if_splits)

lemma choose_id_result:
  assumes "choose_id i f = (x, g)"
  shows "\<exists>ids. g = f\<lparr>fr_svc := (fr_svc f)\<lparr>sv_IDs := ids\<rparr>\<rparr> \<and> (i \<noteq> [] \<longrightarrow> x = Inr i)"
  using assms by (auto simp: choose_id_def split: if_splits prod.splits intro: exI [of _ "sv_IDs (fr_svc f)"])

lemma on_eng_result: "on_eng g f = (fst (g (fr_eng f)), f\<lparr>fr_eng := snd (g (fr_eng f))\<rparr>)"
  by (simp add: on_eng_def Let_def split: prod.split)

lemma start_enqueue_fails:
  assumes "start_enqueue d cmd t f = (Inl e, g)"
  shows "fr_svc g = fr_svc f \<and> fr_batch g = fr_batch f"
proof -
  obtain x f1 where f1: "on_svc (reserveTicketID (tk_id t)) f = (x, f1)" by fastforce
  from reserve_result [OF f1] assms f1 show ?thesis
    by (auto simp: start_enqueue_def on_eng_result release_id_def cancelTicketReservation_def
        publish_ticket_eq split: if_splits option.splits)
qed

lemma start_body_fails:
  assumes "start_body d now cmd cfg f = (Inl e, g)"
  shows "\<exists>ids. fr_svc g = (fr_svc f)\<lparr>sv_IDs := ids\<rparr>" and "fr_batch g = fr_batch f"
proof -
  have "(\<exists>ids. fr_svc g = (fr_svc f)\<lparr>sv_IDs := ids\<rparr>) \<and> fr_batch g = fr_batch f"
  proof (cases "validateRequiredAttributes d cfg (sc_Players cmd) (fr_svc f)")
    case None
    obtain x f1 where f1: "choose_id (sc_TicketID cmd) f = (x, f1)" by fastforce
    from choose_id_result [OF f1] obtain ids where ids: "f1 = f\<lparr>fr_svc := (fr_svc f)\<lparr>sv_IDs := ids\<rparr>\<rparr>"
      by auto
    show ?thesis
      using assms start_enqueue_fails [of d cmd _ f1 e g] ids
      by (auto simp: start_body_def None f1 split: sum.splits)
  next
    case (Some e')
    then have "fr_svc g = (fr_svc f)\<lparr>sv_IDs := sv_IDs (fr_svc f)\<rparr>" "fr_batch g = fr_batch f"
      using assms by (auto simp: start_body_def)
    then show ?thesis by blast
  qed
  then show "\<exists>ids. fr_svc g = (fr_svc f)\<lparr>sv_IDs := ids\<rparr>" "fr_batch g = fr_batch f" by auto
qed

lemma start_body_succeeds:
  assumes "start_body d now cmd cfg f = (Inr r, g)"
  shows "\<exists>i t ids eng. (sc_TicketID cmd \<noteq> [] \<longrightarrow> i = sc_TicketID cmd) \<and>
    NewTicket i cfg (sc_Players cmd) now = Inr t \<and> sv_tickets (fr_svc f) i = None \<and>
    publish_ticket t (f\<lparr>fr_svc := (fr_svc f)\<lparr>sv_IDs := ids, sv_reserved := insert i (sv_reserved (fr_svc f))\<rparr>,
      fr_eng := eng\<rparr>) = (Inr r, g)"
proof -
  obtain x f1 where f1: "choose_id (sc_TicketID cmd) f = (x, f1)" by fastforce
  from choose_id_result [OF f1] obtain ids where ids: "f1 = f\<lparr>fr_svc := (fr_svc f)\<lparr>sv_IDs := ids\<rparr>\<rparr>"
    and given: "sc_TicketID cmd \<noteq> [] \<longrightarrow> x = Inr (sc_TicketID cmd)" by auto
  from assms obtain i t where i: "x = Inr i" and t: "NewTicket i cfg (sc_Players cmd) now = Inr t"
    and enq: "start_enqueue d cmd t f1 = (Inr r, g)"
    by (auto simp: start_body_def f1 split: option.splits sum.splits)
  have ti: "tk_id t = i" using t by (auto simp: NewTicket_def newTicket_def recordEvent_def split: if_splits)
  obtain y f2 where f2: "on_svc (reserveTicketID i) f1 = (y, f2)" by fastforce
  with enq have y: "y = None" by (cases y) (simp_all add: start_enqueue_def ti)
  with reserve_result [OF f2]
  have free: "sv_tickets (fr_svc f1) i = None"
    and f2': "f2 = f1\<lparr>fr_svc := (fr_svc f1)\<lparr>sv_reserved := insert i (sv_reserved (fr_svc f1))\<rparr>\<rparr>"
    by (auto split: if_splits)
  let ?e = "fx_Enqueue d \<lparr>ft_ID = i, ft_Players = sc_Players cmd\<rparr> (fr_eng f2)"
  have "publish_ticket t (f2\<lparr>fr_eng := snd ?e\<rparr>) = (Inr r, g)"
    using enq by (cases "fst ?e") (simp_all add: start_enqueue_def ti f2 y on_eng_result)
  then show ?thesis
    using t free given i
    by (intro exI [of _ i] exI [of _ t] exI [of _ ids] exI [of _ "snd ?e"]) (simp add: f2' ids)
qed

lemma with_engine_result:
  "with_engine n body s =
     (case EngineFor n s of
        Inl e \<Rightarrow> (Inl e, [], s)
      | Inr eng \<Rightarrow>
          (case body (opened s eng) of (x, f) \<Rightarrow> (x, fr_batch f, Register n (fr_eng f) (fr_svc f))))"
  by (simp add: with_engine_def opened_def Let_def split: sum.split prod.split)

lemma re_event_record [simp]: "re_event (record_event s e) = e"
  by (simp add: record_event_def)

section \<open>StartMatchmaking\<close>

text \<open>
  C27. A successful StartMatchmaking adds exactly one ticket: a new object under an identifier that
  was free (the requested one, if any), queued, with the request's players; no other ticket is
  touched; the identifier is no longer reserved; and the one event handed over is that ticket's
  MatchmakingSearching with a snapshot of it.
\<close>

theorem start_adds_one_queued_ticket:
  assumes "StartMatchmaking d env now cmd s = (Inr r, evs, s')" and "service_reachable d s"
  shows "\<exists>i. (sc_TicketID cmd \<noteq> [] \<longrightarrow> i = sc_TicketID cmd) \<and> sv_tickets s i = None \<and>
    sv_tickets s' = (sv_tickets s)(i \<mapsto> r) \<and> r = sv_next s \<and> sv_next s' = Suc r \<and>
    (\<forall>q. q \<noteq> r \<longrightarrow> sv_heap s' q = sv_heap s q) \<and> sv_reserved s' = sv_reserved s - {i} \<and>
    tk_id (sv_heap s' r) = i \<and> tk_status (sv_heap s' r) = StatusQueued \<and>
    tk_players (sv_heap s' r) = sc_Players cmd \<and> tk_startTime (sv_heap s' r) = now \<and>
    tk_events (sv_heap s' r) = [] \<and> i \<in> set (sv_active s' (cfg_of s' r)) \<and>
    map re_event evs = [EventTicketSearchingStarted \<lparr>ev_configName = cfg_of s' r, ev_occurredAt = now\<rparr> i] \<and>
    map re_snapshot evs = [[i \<mapsto> snapshot_ticket i (sv_heap s' r)]]"
proof -
  obtain n cfg eng f where eng: "EngineFor n s = Inr eng"
    and body: "start_body d now cmd cfg (opened s eng) = (Inr r, f)"
    and evs: "evs = fr_batch f" and s': "s' = Register n (fr_eng f) (fr_svc f)"
    using assms(1)
    by (auto simp: StartMatchmaking_def Start_locked_def locked_configured_def with_engine_result
        split: if_splits sum.splits option.splits prod.splits)
  from start_body_succeeds [OF body] obtain i t ids e2
    where i: "sc_TicketID cmd \<noteq> [] \<longrightarrow> i = sc_TicketID cmd" and free: "sv_tickets s i = None"
      and t: "NewTicket i cfg (sc_Players cmd) now = Inr t"
      and pub: "publish_ticket t ((opened s eng)\<lparr>fr_svc := s\<lparr>sv_IDs := ids,
        sv_reserved := insert i (sv_reserved s)\<rparr>, fr_eng := e2\<rparr>) = (Inr r, f)"
    by auto
  let ?g = "(opened s eng)\<lparr>fr_svc := s\<lparr>sv_IDs := ids, sv_reserved := insert i (sv_reserved s)\<rparr>, fr_eng := e2\<rparr>"
  let ?ev = "EventTicketSearchingStarted \<lparr>ev_configName = cfg_Name cfg, ev_occurredAt = now\<rparr> i"
  have tf: "tk_id t = i" "tk_status t = StatusQueued" "tk_players t = sc_Players cmd"
    "tk_startTime t = now" "tk_events t = [?ev]" "tk_configurationName t = cfg_Name cfg"
    using t by (auto simp: NewTicket_def newTicket_def recordEvent_def split: if_splits)
  have r: "r = sv_next s" and f: "f = addTicket r (stored_new t ?g)"
    using pub by (auto simp: publish_ticket_eq)
  have tickets: "sv_tickets (fr_svc f) = (sv_tickets s)(i \<mapsto> r)"
    and heap: "sv_heap (fr_svc f) = (sv_heap s)(r := t\<lparr>tk_events := []\<rparr>)"
    and batch: "fr_batch f = [record_event (fr_svc f) ?ev]"
    unfolding f addTicket_frame
    by (simp_all add: stored_new_def commit_simps alloc_simps tf r addTicket_frame)
  have misc: "sv_next (fr_svc f) = Suc r" "sv_reserved (fr_svc f) = sv_reserved s - {i}"
    by (simp_all add: f addTicket_def Let_def fold_batch_add call_snd stored_new_def commit_simps alloc_simps r tf)
  have snap: "re_snapshot (record_event (fr_svc f) ?ev) = [i \<mapsto> snapshot_ticket i (sv_heap (fr_svc f) r)]"
    by (simp add: record_event_def GetTicket_def tickets)
  have "service_reachable d s'" using command_reachable(1) [OF assms(2), of env now cmd] assms(1) by simp
  then have "store_inv {} s'" using service_reachable_inv by (auto simp: svc_inv_def)
  from active_exact [OF this, of "cfg_of s' r"]
  have "i \<in> set (sv_active s' (cfg_of s' r))"
    by (simp add: s' Register_simps tickets heap active_ref_def IsActive_def tf)
  then show ?thesis
    using i free by (auto simp: s' Register_simps tickets heap misc evs batch r snap tf cfg_of_def
        intro!: exI [of _ i])
qed

theorem start_adds_one_queued_ticket_witness:
  "case StartMatchmaking toy_deps calm 10
      \<lparr>sc_ConfigurationName = ''c'', sc_TicketID = ''a'', sc_Players = [toy_player ''p'']\<rparr> toy_service of
     (x, evs, s') \<Rightarrow> x = Inr 0 \<and> tk_status (sv_heap s' 0) = StatusQueued \<and> length evs = 1"
proof -
  let ?cmd = "\<lparr>sc_ConfigurationName = ''c'', sc_TicketID = ''a'', sc_Players = [toy_player ''p'']\<rparr>"
  obtain x evs s' where r: "StartMatchmaking toy_deps calm 10 ?cmd toy_service = (x, evs, s')"
    by (metis prod_cases3)
  have "fst (StartMatchmaking toy_deps calm 10 ?cmd toy_service) = Inr 0" by (simp add: run_defs)
  with r have "StartMatchmaking toy_deps calm 10 ?cmd toy_service = (Inr 0, evs, s')" by simp
  from start_adds_one_queued_ticket [OF this toy_service_reachable] r this
  show ?thesis by (auto dest: arg_cong [where f = length])
qed

text \<open>
  C28. A failed StartMatchmaking leaves nothing behind but a consumed identifier: tickets, indexes,
  reservations, trackers and configurations are as before and no event is handed over.
\<close>

theorem failed_start_changes_nothing:
  assumes "StartMatchmaking d env now cmd s = (Inl e, evs, s')"
  shows "evs = [] \<and> (\<exists>ids engs. s' = s\<lparr>sv_IDs := ids, sv_engines := engs\<rparr> \<and> dom engs = dom (sv_engines s))"
proof -
  have same: "\<exists>ids engs. s = s\<lparr>sv_IDs := ids, sv_engines := engs\<rparr> \<and> dom engs = dom (sv_engines s)"
    by (intro exI [of _ "sv_IDs s"] exI [of _ "sv_engines s"]) simp
  from assms consider "evs = [] \<and> s' = s"
    | n cfg eng f where "EngineFor n s = Inr eng"
      "start_body d now cmd cfg (opened s eng) = (Inl e, f)" "evs = fr_batch f"
      "s' = Register n (fr_eng f) (fr_svc f)"
    by (auto simp: StartMatchmaking_def Start_locked_def locked_configured_def with_engine_result
        split: if_splits sum.splits option.splits prod.splits)
  then show ?thesis
  proof cases
    case (2 n cfg eng f)
    from start_body_fails [OF 2(2)] obtain ids where "fr_svc f = s\<lparr>sv_IDs := ids\<rparr>" "fr_batch f = []" by auto
    moreover have "n \<in> dom (sv_engines s)" using 2(1) by (auto simp: EngineFor_def split: option.splits)
    ultimately show ?thesis using 2(3,4)
      by (intro conjI exI [of _ ids] exI [of _ "(sv_engines s)(n \<mapsto> fr_eng f)"]) (auto simp: Register_def)
  qed (use same in auto)
qed

theorem failed_start_changes_nothing_witness:
  "case StartMatchmaking toy_deps calm 12
      \<lparr>sc_ConfigurationName = ''c'', sc_TicketID = ''a'', sc_Players = [toy_player ''p'']\<rparr> toy_pool of
     (x, evs, s') \<Rightarrow> x = Inl ErrTicketAlreadyExists \<and> evs = [] \<and> sv_tickets s' = sv_tickets toy_pool \<and>
       sv_reserved s' = sv_reserved toy_pool"
proof -
  let ?cmd = "\<lparr>sc_ConfigurationName = ''c'', sc_TicketID = ''a'', sc_Players = [toy_player ''p'']\<rparr>"
  obtain x evs s' where r: "StartMatchmaking toy_deps calm 12 ?cmd toy_pool = (x, evs, s')"
    by (metis prod_cases3)
  have "fst (StartMatchmaking toy_deps calm 12 ?cmd toy_pool) = Inl ErrTicketAlreadyExists"
    by (simp add: run_defs)
  with r have "StartMatchmaking toy_deps calm 12 ?cmd toy_pool = (Inl ErrTicketAlreadyExists, evs, s')" by simp
  from failed_start_changes_nothing [OF this] this show ?thesis by auto
qed

text \<open>
  An identifier that is in use or reserved is refused with ErrTicketAlreadyExists before the
  engine hears of the request: the service, the engine's state included, does not change.
\<close>

theorem duplicate_id_refused:
  assumes "sc_Players cmd \<noteq> []" and "ce_reserve env = None" and "ce_ctx env = None"
    and "GetConfiguration (sc_ConfigurationName cmd) s = Inr cfg"
    and "GetConfiguration (cfg_Name cfg) s = Inr cfg'" and "EngineFor (cfg_Name cfg) s = Inr eng"
    and "validateRequiredAttributes d cfg' (sc_Players cmd) s = None" and "sc_TicketID cmd \<noteq> []"
    and "sv_tickets s (sc_TicketID cmd) \<noteq> None \<or> sc_TicketID cmd \<in> sv_reserved s"
  shows "StartMatchmaking d env now cmd s = (Inl ErrTicketAlreadyExists, [], s)"
proof -
  obtain t where t: "NewTicket (sc_TicketID cmd) cfg' (sc_Players cmd) now = Inr t"
    and i: "tk_id t = sc_TicketID cmd"
    using assms(1,8) by (simp add: NewTicket_def newTicket_def recordEvent_def)
  have "on_svc (reserveTicketID (tk_id t)) (opened s eng) = (Some ErrTicketAlreadyExists, opened s eng)"
    using assms(9) by (auto simp: on_svc_def reserveTicketID_def i)
  then have "start_body d now cmd cfg' (opened s eng) = (Inl ErrTicketAlreadyExists, opened s eng)"
    using assms(7,8) t by (simp add: start_body_def choose_id_def start_enqueue_def)
  moreover have "Register (cfg_Name cfg) eng s = s"
    using assms(6) by (auto simp: EngineFor_def Register_def fun_upd_idem split: option.splits)
  ultimately show ?thesis
    using assms(1-6) by (simp add: StartMatchmaking_def Start_locked_def locked_configured_def with_engine_result)
qed

theorem duplicate_id_refused_witness:
  "StartMatchmaking toy_deps calm 12
     \<lparr>sc_ConfigurationName = ''arn:c'', sc_TicketID = ''a'', sc_Players = [toy_player ''p'']\<rparr> toy_pool =
   (Inl ErrTicketAlreadyExists, [], toy_pool)"
proof (rule duplicate_id_refused [of _ _ _ toy_cfg toy_cfg])
  show "EngineFor (cfg_Name toy_cfg) toy_pool =
      Inr \<lparr>ty_status = [(''b'', StatusSearching), (''a'', StatusSearching)], ty_pending = [], ty_matches = []\<rparr>"
    by (simp add: toy_cfg_def toy_pool_engine)
qed (simp_all add: run_defs)

section \<open>StopMatchmaking\<close>

text \<open>A method that cannot fail and does not touch the status, followed by a save.\<close>

lemma quiet_call_save:
  assumes "holds {} r f" and "ticket_step op (ticket_at f r) = Inr t" and "op_status op = None"
  shows "\<exists>g. and_then (call r op) (save r) f = (None, g) \<and> sv_heap (fr_svc g) = (sv_heap (fr_svc f))(r := t) \<and>
    sv_tickets (fr_svc g) = sv_tickets (fr_svc f) \<and> fr_batch g = fr_batch f \<and> fr_eng g = fr_eng f \<and>
    sv_trackers (fr_svc g) = sv_trackers (fr_svc f) \<and> holds {} r g"
proof -
  obtain f1 where c: "call r op f = (None, f1)" and f1: "f1 = f\<lparr>fr_svc := put_ticket r t (fr_svc f)\<rparr>"
    using assms(2) by (simp add: on_svc_def mutate_def)
  have h1: "holds {} r f1" by (rule runsD(2) [OF call_quiet [OF assms(3)] assms(1) c])
  then have s: "save r f1 = (None, f1\<lparr>fr_svc := register_ticket r (fr_svc f1)\<rparr>)"
    using SaveTicket_stored(1) [of "{}" "fr_svc f1" r] by (simp add: on_svc_def holds_def svc_inv_def)
  have h2: "holds {} r (f1\<lparr>fr_svc := register_ticket r (fr_svc f1)\<rparr>)"
    by (rule runsD(2) [OF save_quiet h1 s])
  have id: "tk_id t = tk_id (ticket_at f r)" using same_identD(1) [OF ticket_step_ident [OF assms(2)]] .
  have "(sv_tickets (fr_svc f))(tk_id t \<mapsto> r) = sv_tickets (fr_svc f)"
    using assms(1) by (simp add: holds_def id fun_upd_idem)
  with c s h2 show ?thesis
    by (simp add: and_then_def f1 register_ticket_simps)
qed

lemma on_ticket_found:
  assumes "on_ticket ctx i r body s = (x, evs, s')" and "GetTicket i s = Inr r" and "ctx = None"
  shows "on_ticket ctx i r body s = with_engine (tk_configurationName (sv_heap s r)) body s"
  using assms by (simp add: on_ticket_def)

lemma opened_holds:
  assumes "service_reachable d s" and "GetTicket i s = Inr r"
  shows "holds {} r (opened s eng) \<and> tk_id (sv_heap s r) = i"
  using found_holds [of "opened s eng" i r] service_reachable_inv [OF assms(1)] assms(2)
  by (simp add: idle_def)

text \<open>
  StopMatchmaking only records the wish to cancel: on success the ticket's cancel flag is set
  and nothing else of any ticket changes, its status included; on failure no ticket changes. It
  never hands over an event (the cancellation is announced by the tick that sees it).
\<close>

theorem stop_only_sets_cancel_flag:
  assumes "StopMatchmaking d env i s = (x, evs, s')" and "service_reachable d s"
  shows "evs = [] \<and> sv_tickets s' = sv_tickets s \<and>
    (case x of
       Inl e \<Rightarrow> sv_heap s' = sv_heap s
     | Inr u \<Rightarrow> \<exists>r. sv_tickets s i = Some r \<and>
         sv_heap s' = (sv_heap s)(r := (sv_heap s r)\<lparr>tk_cancelByAPI := True\<rparr>))"
proof (cases "GetTicket i s")
  case (Inr r)
  show ?thesis
  proof (cases "ce_reserve env = None \<and> ce_ctx env = None \<and> is_ok (EngineFor (tk_configurationName (sv_heap s r)) s)")
    case True
    then obtain eng where eng: "EngineFor (tk_configurationName (sv_heap s r)) s = Inr eng"
      by (auto simp: is_ok_iff)
    let ?n = "tk_configurationName (sv_heap s r)"
    let ?f = "opened s eng"
    let ?c = "fx_Cancel d (tk_id (sv_heap s r)) eng"
    have res: "StopMatchmaking d env i s =
        (case stop_body d r ?f of (x, f) \<Rightarrow> (x, fr_batch f, Register ?n (fr_eng f) (fr_svc f)))"
      using True Inr eng
      by (simp add: StopMatchmaking_def find_then_def Stop_locked_def on_ticket_def with_engine_result)
    have "holds {} r (?f\<lparr>fr_eng := snd ?c\<rparr>)"
      using opened_holds [OF assms(2) Inr, of eng] holds_svc by fastforce
    from quiet_call_save [OF this, of OpRequestCancel] obtain g
      where g: "and_then (call r OpRequestCancel) (save r) (?f\<lparr>fr_eng := snd ?c\<rparr>) = (None, g)"
        "sv_heap (fr_svc g) = (sv_heap s)(r := (sv_heap s r)\<lparr>tk_cancelByAPI := True\<rparr>)"
        "sv_tickets (fr_svc g) = sv_tickets s" "fr_batch g = []"
      by (auto simp: RequestCancel_def)
    show ?thesis
      using assms(1) g Inr
      by (cases "fst ?c") (auto simp: res stop_body_def on_eng_result Register_simps GetTicket_Inr)
  qed (use assms(1) Inr in \<open>auto simp: StopMatchmaking_def find_then_def Stop_locked_def on_ticket_def
      with_engine_result is_ok_iff split: option.splits sum.splits\<close>)
qed (use assms(1) in \<open>auto simp: StopMatchmaking_def find_then_def\<close>)

theorem stop_only_sets_cancel_flag_witness:
  "case StopMatchmaking toy_deps calm ''a'' toy_pool of
     (x, evs, s') \<Rightarrow> x = Inr () \<and> evs = [] \<and> tk_cancelByAPI (sv_heap s' 0) \<and> tk_status (sv_heap s' 0) = StatusQueued"
proof -
  obtain x evs s' where r: "StopMatchmaking toy_deps calm ''a'' toy_pool = (x, evs, s')"
    by (metis prod_cases3)
  have "fst (StopMatchmaking toy_deps calm ''a'' toy_pool) = Inr ()" by (simp add: run_defs)
  with r have x: "x = Inr ()" by simp
  have "sv_tickets toy_pool ''a'' = Some 0" "tk_status (sv_heap toy_pool 0) = StatusQueued"
    by (simp_all add: run_defs)
  with stop_only_sets_cancel_flag [OF r toy_pool_reachable] r x show ?thesis by auto
qed

section \<open>AcceptMatch\<close>

lemma dedupe_props: "set (dedupe ps acc) = set acc \<union> set ps" "distinct acc \<Longrightarrow> distinct (dedupe ps acc)"
  by (induction ps arbitrary: acc) auto

lemma answers_frame:
  "fr_batch (snd (foreach (answer d yes i) ps f)) = fr_batch f"
proof (induction ps arbitrary: f)
  case (Cons p ps)
  have "fr_batch (snd (answer d yes i p f)) = fr_batch f"
    by (simp add: answer_def on_eng_def Let_def split: prod.split)
  with Cons.IH [of "snd (answer d yes i p f)"] show ?case by (auto split: prod.split option.split)
qed simp

text \<open>The answers go to the engine, then to the ticket; the service itself changes only there.\<close>

lemma accept_prepared:
  fixes s :: "'e service"
  assumes "holds {} r (opened s eng)"
  obtains y f1 g where "answer_all d cmd (tk_id (sv_heap s r)) (opened s eng) = (y, f1)" "fr_svc f1 = s" "fr_batch f1 = []"
    "and_then (call r (OpRecordPlayerAcceptances ids yes)) (save r) f1 = (None, g)"
    "sv_heap (fr_svc g) = (sv_heap s)(r := RecordPlayerAcceptances ids yes (sv_heap s r))"
    "sv_tickets (fr_svc g) = sv_tickets s" "fr_batch g = []" "sv_trackers (fr_svc g) = sv_trackers s"
proof -
  let ?t = "sv_heap s r" and ?f = "opened s eng"
  obtain y f1 where f1: "answer_all d cmd (tk_id ?t) ?f = (y, f1)" by fastforce
  have svc1: "fr_svc f1 = s" "fr_batch f1 = []"
    using answers_svc [of d "ac_Accepted cmd" "tk_id ?t" "engine_players cmd" ?f]
      answers_frame [of d "ac_Accepted cmd" "tk_id ?t" "engine_players cmd" ?f] f1
    by (simp_all add: answer_all_def)
  have "holds {} r f1" using assms holds_svc [of "{}" r ?f f1] svc1 by simp
  from quiet_call_save [OF this, of "OpRecordPlayerAcceptances ids yes"] svc1 that f1 show ?thesis by auto
qed

lemma accept_event_roster:
  assumes "sv_heap (fr_svc g) = (sv_heap s)(r := RecordPlayerAcceptances ids yes (sv_heap s r))"
    and "sv_trackers (fr_svc g) = sv_trackers s"
  shows "\<exists>tids. accept_event (cfg_of s r) now r g =
      NewAcceptMatch (cfg_of s r) (tk_matchID (sv_heap s r)) tids (collect_acceptances (fr_svc g) tids Map.empty) now \<and>
    (ticketsFor (tk_matchID (sv_heap s r)) (sv_trackers s (cfg_of s r)) = Some tids \<or>
     ticketsFor (tk_matchID (sv_heap s r)) (sv_trackers s (cfg_of s r)) = None \<and> tids = [tk_id (sv_heap s r)])"
  by (rule exI [of _ "match_roster (cfg_of s r) (tk_matchID (sv_heap s r)) r g"])
     (auto simp: accept_event_def Let_def assms cfg_of_def RecordPlayerAcceptances_def match_roster_def tracker_of_def
       split: option.split)

lemma collect_registered:
  "collect_acceptances (Register n e s) ids m = collect_acceptances s ids m"
  by (induction ids arbitrary: m) (simp_all add: GetTicket_def Register_simps split: option.split)



section \<open>StartMatchBackfill\<close>

text \<open>
  A game session whose outstanding backfill request is already in a proposal or being placed
  cannot get a new one: StartMatchBackfill answers ErrBackfillInProgress and nothing changes, in
  the service or in the engine.
\<close>

theorem backfill_in_progress_refused:
  assumes "bc_Players cmd \<noteq> []" and "ce_reserve env = None" and "ce_ctx env = None"
    and "GetConfiguration (bc_ConfigurationName cmd) s = Inr cfg"
    and "GetConfiguration (cfg_Name cfg) s = Inr cfg'" and "EngineFor (cfg_Name cfg) s = Inr eng"
    and "validateRequiredAttributes d cfg' (bc_Players cmd) s = None" and "bc_GameSessionARN cmd \<noteq> []"
    and "findSessionBackfill (cfg_Name cfg') (bc_GameSessionARN cmd) s = Some q"
    and "tk_status (sv_heap s q) \<notin> {StatusQueued, StatusSearching}"
  shows "StartMatchBackfill d env now cmd s = (Inl ErrBackfillInProgress, [], s)"
proof -
  have "backfill_body d now cmd cfg' (opened s eng) = (Inl ErrBackfillInProgress, opened s eng)"
    using assms(7-10) by (simp add: backfill_body_def session_to_supersede_def isSupersedable_def)
  moreover have "Register (cfg_Name cfg) eng s = s"
    using assms(6) by (auto simp: EngineFor_def Register_def fun_upd_idem split: option.splits)
  ultimately show ?thesis
    using assms(1-6) by (simp add: StartMatchBackfill_def Backfill_locked_def locked_configured_def with_engine_result)
qed

text \<open>A session with a live backfill request, before and after the engine proposes a match for it.\<close>

definition toy_session :: "toy service" where
  "toy_session = snd (snd (toy_backfill ''f'' ''arn:s'' 15 toy_service))"

definition toy_session_proposed :: "toy service" where
  "toy_session_proposed = snd (snd (toy_tick 20 (Register ''c''
     \<lparr>ty_status = [(''f'', StatusRequiresAcceptance)],
      ty_pending = [\<lparr>fp_TicketIDs = [''f''], fp_Teams = [], fp_RuleEvaluationMetrics = [], fp_CreatedAt = 20\<rparr>],
      ty_matches = []\<rparr> toy_session)))"

theorem backfill_in_progress_refused_witness:
  "toy_backfill ''g'' ''arn:s'' 21 toy_session_proposed = (Inl ErrBackfillInProgress, [], toy_session_proposed)"
proof -
  obtain eng where eng: "EngineFor ''c'' toy_session_proposed = Inr eng"
    by (simp add: run_defs toy_session_def toy_session_proposed_def)
  show ?thesis
    unfolding toy_backfill_def
    by (rule backfill_in_progress_refused [of _ _ _ toy_cfg toy_cfg eng _ 0])
       (simp_all add: eng [unfolded run_defs] toy_cfg_def eng,
        simp_all add: run_defs toy_session_def toy_session_proposed_def)
qed

lemma backfill_enqueue_succeeds:
  assumes "backfill_enqueue d now cmd old t f = (Inr r, g)" and "idle f"
    and "old = None \<or> (\<exists>p. old = Some p \<and> live p f)"
  shows "\<exists>f3. frame_le f f3 \<and> idle f3 \<and> sv_tickets (fr_svc f3) (tk_id t) = None \<and>
    publish_ticket t f3 = (Inr r, g) \<and> (\<forall>p. old = Some p \<longrightarrow> superseded_ticket now (ticket_at f3 p))"
proof -
  obtain x f1 where f1: "on_svc (reserveTicketID (tk_id t)) f = (x, f1)" by fastforce
  note r = reserve_keeps [OF assms(2) f1]
  obtain y f2 where f2: "on_eng (fx_EnqueueBackfill d \<lparr>ft_ID = tk_id t, ft_Players = bc_Players cmd\<rparr>) f1 = (y, f2)"
    by fastforce
  note e = on_eng_keeps [OF f2]
  have xy: "x = None" "y = None"
    using assms(1) by (auto simp: backfill_enqueue_def f1 f2 split: option.splits)
  have idle2: "idle f2" and le2: "frame_le f f2" using r(1) e frame_le_trans by blast+
  have free: "sv_tickets (fr_svc f2) (tk_id t) = None" using r(2) e(2) xy by simp
  show ?thesis
  proof (cases old)
    case None
    then have "publish_ticket t f2 = (Inr r, g)" using assms(1) xy by (simp add: backfill_enqueue_def f1 f2)
    with idle2 le2 free None show ?thesis by blast
  next
    case (Some p)
    then have "live p f" using assms(3) by simp
    then have live2: "live p f2"
      using r(4,7) e(2) idle2 by (simp add: live_def holds_def idle_def active_ref_def)
    obtain z f3 where f3: "supersedeBackfill d p now f2 = (z, f3)" by fastforce
    have undo: "fst (undo_backfill d i e f) \<noteq> Inr r" for i e f
      by (simp add: undo_backfill_def split: prod.split option.split)
    have z: "z = None"
    proof (cases z)
      case (Some a)
      with assms(1) xy \<open>old = Some p\<close> have "undo_backfill d (tk_id t) a f3 = (Inr r, g)"
        by (simp add: backfill_enqueue_def f1 f2 f3)
      with undo [of "tk_id t" a f3] show ?thesis by simp
    qed
    note s = runsD(1,2) [OF supersedeBackfill_step live2 f3 [unfolded z]]
    have "publish_ticket t f3 = (Inr r, g)"
      using assms(1) xy Some z by (simp add: backfill_enqueue_def f1 f2 f3)
    with s superseded_result [OF f3 [unfolded z]] frame_le_trans [OF le2 s(1)] holds_idle
      frame_le_tickets [OF s(1) free] Some
    show ?thesis by blast
  qed
qed

text \<open>A successful backfill request: the request before it is cancelled, then the new ticket is stored.\<close>

lemma backfill_stored:
  assumes "StartMatchBackfill d env now cmd s = (Inr r, evs, s')" and "service_reachable d s"
  obtains cfg :: configuration and t f where "tk_isBackfill t" "tk_status t = StatusQueued"
    "tk_gameSessionARN t = bc_GameSessionARN cmd" "tk_configurationName t = cfg_Name cfg"
    "svc_le s (fr_svc f)" "r = sv_next (fr_svc f)"
    "\<And>p. session_to_supersede (cfg_Name cfg) cmd s = Some p \<Longrightarrow> superseded_ticket now (ticket_at f p)"
    "sv_heap s' = (sv_heap (fr_svc f))(r := t\<lparr>tk_events := []\<rparr>)"
    "sv_tickets s' = (sv_tickets (fr_svc f))(tk_id t \<mapsto> r)"
proof -
  obtain n cfg eng f where eng: "EngineFor n s = Inr eng"
    and body: "backfill_body d now cmd cfg (opened s eng) = (Inr r, f)"
    and s': "s' = Register n (fr_eng f) (fr_svc f)"
    using assms(1)
    by (auto simp: StartMatchBackfill_def Backfill_locked_def locked_configured_def with_engine_result
        split: if_splits sum.splits option.splits prod.splits)
  let ?f = "opened s eng" and ?sup = "session_to_supersede (cfg_Name cfg) cmd s"
  have idle: "idle ?f" using service_reachable_inv [OF assms(2)] by (simp add: idle_def)
  obtain x f1 where f1: "choose_id (bc_TicketID cmd) ?f = (x, f1)" by fastforce
  note c = choose_id_keeps [OF idle f1]
  from body obtain i t where t: "NewBackfillTicket i cfg (bc_Players cmd) (bc_GameSessionARN cmd) now = Inr t"
    and enq: "backfill_enqueue d now cmd ?sup t f1 = (Inr r, f)"
    by (auto simp: backfill_body_def Let_def f1 split: option.splits sum.splits if_splits)
  have tf: "tk_isBackfill t" "tk_status t = StatusQueued" "tk_gameSessionARN t = bc_GameSessionARN cmd"
    "tk_configurationName t = cfg_Name cfg"
    using t by (auto simp: NewBackfillTicket_def newTicket_def recordEvent_def split: if_splits)
  have "live p f1" if "?sup = Some p" for p
    using session_live [of ?f "cfg_Name cfg" cmd p] idle that c by (simp add: live_def holds_def idle_def active_ref_def)
  then have live: "?sup = None \<or> (\<exists>p. ?sup = Some p \<and> live p f1)" by (cases ?sup) auto
  from backfill_enqueue_succeeds [OF enq _ live] c obtain f3
    where f3: "frame_le f1 f3" "publish_ticket t f3 = (Inr r, f)"
      and cancelled: "\<And>p. ?sup = Some p \<Longrightarrow> superseded_ticket now (ticket_at f3 p)"
    by auto
  have r: "r = sv_next (fr_svc f3)" and f: "f = addTicket r (stored_new t f3)"
    using f3(2) by (auto simp: publish_ticket_eq)
  have "svc_le s (fr_svc f3)"
    using frame_le_trans [OF conjunct1 [OF conjunct2 [OF c]] f3(1)] by (simp add: frame_le_def)
  moreover have "sv_heap s' = (sv_heap (fr_svc f3))(r := t\<lparr>tk_events := []\<rparr>)"
    "sv_tickets s' = (sv_tickets (fr_svc f3))(tk_id t \<mapsto> r)"
    unfolding s' Register_simps f addTicket_frame
    by (auto simp: stored_new_def commit_simps alloc_simps r)
  ultimately show ?thesis using that [of t cfg f3] tf r cancelled by blast
qed



end
