(* ===== verification/Tick_Effects.thy ===== *)
theory Tick_Effects
  imports Tick_Laws
begin

text \<open>
  What the phases of a tick achieve when they do not fail: which tickets they change, to what, and
  what they add to the batch.
\<close>

section \<open>Changing one ticket without announcing anything\<close>

definition quiet :: "ref \<Rightarrow> 'e frame \<Rightarrow> 'e frame \<Rightarrow> bool" where
  "quiet r f f' \<longleftrightarrow> only r f f' \<and> fr_batch f' = fr_batch f"

lemma quiet_refl: "quiet r f f"
  by (simp add: quiet_def)

lemma quiet_trans: "quiet r f g \<Longrightarrow> quiet r g h \<Longrightarrow> quiet r f h"
  by (auto simp: quiet_def intro: only_trans)

interpretation quiet: state_order "quiet r"
  by unfold_locales (auto intro: quiet_refl quiet_trans)

abbreviation makes :: "ref \<Rightarrow> (ticket \<Rightarrow> bool) \<Rightarrow> ('e frame \<Rightarrow> err option \<times> 'e frame) \<Rightarrow>
    (ticket \<Rightarrow> bool) \<Rightarrow> bool" where
  "makes r P g Q \<equiv> runs (quiet r) (\<lambda>f. P (ticket_at f r)) g (\<lambda>f. Q (ticket_at f r)) (\<lambda>_. True)"

lemma quiet_call: "quiet r f (snd (call r op f))"
  using only_call [of r f op] by (simp add: quiet_def call_snd)

lemma makes_call:
  assumes "\<And>t t'. P t \<Longrightarrow> ticket_step op t = Inr t' \<Longrightarrow> Q t'"
  shows "makes r P (call r op) Q"
proof (rule runsI)
  fix f f' :: "'a frame" and e assume P: "P (ticket_at f r)"
  { assume ok: "call r op f = (None, f')"
    then obtain t where "ticket_step op (ticket_at f r) = Inr t"
      and "f' = f\<lparr>fr_svc := put_ticket r t (fr_svc f)\<rparr>"
      by (cases rule: mutate_cases [of op "fr_svc f" r]) (auto simp: on_svc_def)
    with assms [OF P] quiet_call [of r f op] ok show "quiet r f f' \<and> Q (ticket_at f' r)" by simp }
  { assume "call r op f = (Some e, f')"
    with quiet_call [of r f op] show "quiet r f f' \<and> True" by simp }
qed

lemma makes_save: "makes r P (save r) P"
proof (rule runsI)
  fix f f' :: "'a frame" and e assume P: "P (ticket_at f r)"
  have q: "quiet r f (snd (save r f))" "ticket_at (snd (save r f)) r = ticket_at f r"
    using only_save [of r f]
    by (auto simp: quiet_def on_svc_def SaveTicket_def Let_def register_ticket_simps)
  { assume "save r f = (None, f')" with q P show "quiet r f f' \<and> P (ticket_at f' r)" by simp }
  { assume "save r f = (Some e, f')" with q P show "quiet r f f' \<and> True" by simp }
qed

lemma makes_eng: "makes r P (\<lambda>f. eng_tolerant (g f) f) P"
  by (rule runsI) (auto simp: eng_tolerant_def on_eng_def quiet_def only_def split: prod.splits)

lemma makes_if:
  assumes "makes r (\<lambda>t. P t \<and> c t) g Q" and "makes r (\<lambda>t. P t \<and> \<not> c t) h Q"
  shows "makes r P (\<lambda>f. if c (ticket_at f r) then g f else h f) Q"
  using assms by (intro runs_if)

lemma makes_return: "(\<And>t. P t \<Longrightarrow> Q t) \<Longrightarrow> makes r P (\<lambda>f. (None, f)) Q"
  by (rule runsI) (auto simp: quiet_refl)

section \<open>Completing a match\<close>

definition completed_at :: "gotime \<Rightarrow> ticket \<Rightarrow> bool" where
  "completed_at now t \<longleftrightarrow> tk_status t = StatusCompleted \<and> tk_endTime t = now"

lemma complete_makes: "makes r (\<lambda>_. True) (complete_ticket d teams m now r) (completed_at now)"
proof -
  have top: "makes r (\<lambda>_. True) (call r op) (\<lambda>_. True)" for op by (rule makes_call) simp
  have place: "makes r (\<lambda>_. True) (\<lambda>f. if tk_status (ticket_at f r) = StatusPlacing then (None, f)
      else call r (OpMoveToPlacing m now) f) (\<lambda>_. True)"
    by (rule makes_if) (auto intro: makes_return makes_call)
  have complete: "makes r (\<lambda>_. True) (call r (OpComplete now)) (completed_at now)"
    by (rule makes_call) (auto simp: completed_at_def ticket_defs split: sum.splits if_splits)
  show ?thesis
    unfolding complete_ticket_def
    by (rule quiet.runs_and_then [OF top quiet.runs_and_then [OF place
          quiet.runs_and_then [OF makes_eng quiet.runs_and_then [OF complete makes_save]]]])
qed

lemma complete_result:
  assumes "complete_ticket d teams m now r f = (None, f')"
  shows "completed_at now (ticket_at f' r)" "quiet r f f'"
  using runsD(1,2) [OF complete_makes TrueI assms] by auto

lemma completed_stays:
  assumes "completed_at now (ticket_at f r)" and "frame_le f f'" and "r < sv_next (fr_svc f)"
  shows "completed_at now (ticket_at f' r)"
  using assms by (auto simp: completed_at_def frame_le_def svc_le_def hext_def ticket_le_def)

lemma idle_next: "idle f \<Longrightarrow> find_ticket i f = Inr r \<Longrightarrow> r < sv_next (fr_svc f)"
  using maps_okD(1) [OF idle_maps] by (simp add: GetTicket_Inr)

lemma find_ticket_le: "frame_le f f' \<Longrightarrow> find_ticket i f' = find_ticket i f"
  by (simp add: frame_le_def GetTicket_def)

lemma distinct_refs:
  assumes "idle f" and "find_ticket i f = Inr q" and "find_ticket j f = Inr r" and "i \<noteq> j"
  shows "q \<noteq> r"
  using found_holds [OF assms(1,2)] found_holds [OF assms(1,3)] assms(4) by auto

definition in_proposal :: "'e frame \<Rightarrow> ticket_id \<Rightarrow> bool" where
  "in_proposal f i \<longleftrightarrow>
     (case find_ticket i f of Inl e \<Rightarrow> False
      | Inr r \<Rightarrow> tk_status (ticket_at f r) = StatusRequiresAcceptance)"

lemma finalize_tickets_result:
  assumes "idle f" and "finalize_tickets d cfg teams m now ids settled f = (None, settled', f')"
  shows "fr_batch f' = fr_batch f \<and>
    (\<forall>i r. i \<in> set ids \<longrightarrow> find_ticket i f = Inr r \<longrightarrow> completed_at now (ticket_at f' r)) \<and>
    (settled' \<longleftrightarrow> settled \<or> cfg_AcceptanceRequired cfg \<and> (\<exists>i\<in>set ids. in_proposal f i))"
  using assms
proof (induction ids arbitrary: settled f)
  case (Cons i ids)
  from Cons.prems(1) show ?case
  proof (cases rule: found_cases [where i = i])
    case (missing e)
    then show ?thesis using Cons by (auto simp: in_proposal_def)
  next
    case (found r)
    let ?settled = "settled \<or> cfg_AcceptanceRequired cfg \<and> tk_status (ticket_at f r) = StatusRequiresAcceptance"
    obtain y g where c: "complete_ticket d teams m now r f = (y, g)" by fastforce
    with Cons.prems(2) found(1) have y: "y = None" by (cases y) (auto simp: Let_def)
    then have rest: "finalize_tickets d cfg teams m now ids ?settled g = (None, settled', f')"
      using Cons.prems(2) found(1) c by (simp add: Let_def)
    have g: "frame_le f g" "idle g"
      using runsD(1,2) [OF complete_ticket_step found(2)] c y by auto
    note fin = complete_result [OF c [unfolded y]]
    note IH = Cons.IH [OF g(2) rest]
    have le: "frame_le g f'" using finalize_tickets_keeps [OF g(2) rest] by simp
    have "r < sv_next (fr_svc g)"
      using idle_next [OF g(2), of i r] find_ticket_le [OF g(1)] found(1) by simp
    then have "completed_at now (ticket_at f' r)" by (rule completed_stays [OF fin(1) le])
    moreover have "in_proposal g j \<longleftrightarrow> in_proposal f j" if "j \<noteq> i" for j
    proof -
      have "ticket_at g q = ticket_at f q" if "find_ticket j f = Inr q" for q
        using fin(2) distinct_refs [OF Cons.prems(1) that found(1) \<open>j \<noteq> i\<close>] by (simp add: quiet_def only_def)
      then show ?thesis using find_ticket_le [OF g(1), of j] by (auto simp: in_proposal_def split: sum.split)
    qed
    moreover have "\<not> in_proposal g i"
      using fin(1) find_ticket_le [OF g(1), of i] found(1) by (simp add: in_proposal_def completed_at_def)
    moreover have "in_proposal f i \<longleftrightarrow> tk_status (ticket_at f r) = StatusRequiresAcceptance"
      using found(1) by (simp add: in_proposal_def)
    ultimately show ?thesis
      using IH fin(2) found(1) find_ticket_le [OF g(1)] unfolding quiet_def by auto metis+
  qed
qed simp

section \<open>Entering a proposal\<close>

definition assigned_to :: "match_id \<Rightarrow> ticket \<Rightarrow> bool" where
  "assigned_to m t \<longleftrightarrow> tk_status t = StatusRequiresAcceptance \<and> tk_matchID t = m \<and> tk_statusReason t = []"

lemma assign_makes:
  "makes r (\<lambda>_. True) (and_then (call r (OpAssignToProposal m now))
     (and_then (call r (OpSetPlayerTeams teams)) (save r))) (assigned_to m)"
proof -
  have 1: "makes r (\<lambda>_. True) (call r (OpAssignToProposal m now)) (assigned_to m)"
    by (rule makes_call) (auto simp: assigned_to_def ticket_defs split: sum.splits if_splits)
  have 2: "makes r (assigned_to m) (call r (OpSetPlayerTeams teams)) (assigned_to m)"
    by (rule makes_call) (auto simp: assigned_to_def ticket_defs)
  show ?thesis by (rule quiet.runs_and_then [OF 1 quiet.runs_and_then [OF 2 makes_save]])
qed

lemma assign_all_result:
  assumes "idle f" and "foreach (assign_ticket teams m now) ids f = (None, f')"
  shows "fr_batch f' = fr_batch f \<and>
    (\<forall>i r. i \<in> set ids \<longrightarrow> find_ticket i f = Inr r \<longrightarrow> assigned_to m (ticket_at f' r)) \<and>
    (\<forall>r. (\<forall>i\<in>set ids. find_ticket i f \<noteq> Inr r) \<longrightarrow> ticket_at f' r = ticket_at f r)"
  using assms
proof (induction ids arbitrary: f)
  case (Cons i ids)
  obtain y g where a: "assign_ticket teams m now i f = (y, g)" by fastforce
  with Cons.prems(2) have y: "y = None" by (cases y) auto
  then have rest: "foreach (assign_ticket teams m now) ids g = (None, f')" using Cons.prems(2) a by simp
  have g: "frame_le f g" "idle g" using runsD(1,2) [OF assign_ticket_step Cons.prems(1)] a y by auto
  note IH = Cons.IH [OF g(2) rest] and same = find_ticket_le [OF g(1)]
  from Cons.prems(1) show ?case
  proof (cases rule: found_cases [where i = i])
    case (missing e)
    then have "g = f" using a by (simp add: assign_ticket_def)
    with IH missing show ?thesis by auto
  next
    case (found r)
    from a y have step: "and_then (call r (OpAssignToProposal m now))
        (and_then (call r (OpSetPlayerTeams teams)) (save r)) f = (None, g)"
      by (simp add: assign_ticket_def found(1))
    have q: "quiet r f g" "assigned_to m (ticket_at g r)" using runsD(1,2) [OF assign_makes TrueI step] by auto
    have "assigned_to m (ticket_at f' r)"
    proof (cases "i \<in> set ids")
      case True
      then show ?thesis using IH same found(1) by simp
    next
      case False
      then have "\<forall>j\<in>set ids. find_ticket j g \<noteq> Inr r"
        using distinct_refs [OF Cons.prems(1) _ found(1)] same by metis
      then show ?thesis using IH q(2) by simp
    qed
    then show ?thesis using IH q(1) found(1) same unfolding quiet_def only_def by auto
  qed
qed simp

text \<open>Assigning tickets leaves the trackers alone.\<close>

definition same_trackers :: "'e frame \<Rightarrow> 'e frame \<Rightarrow> bool" where
  "same_trackers f f' \<longleftrightarrow> sv_trackers (fr_svc f') = sv_trackers (fr_svc f)"

interpretation same_trackers: state_order same_trackers
  by unfold_locales (simp_all add: same_trackers_def)

lemma assign_loop_trackers:
  assumes "foreach (assign_ticket teams m now) ids f = (None, f')"
  shows "sv_trackers (fr_svc f') = sv_trackers (fr_svc f)"
proof -
  let ?top = "\<lambda>_ :: 'a frame. True"
  have call: "runs same_trackers ?top (call r op) ?top ?top" for r op
    by (rule runsI) (auto simp: same_trackers_def on_svc_def split: prod.splits dest: arg_cong [where f = snd])
  have save: "runs same_trackers ?top (save r) ?top ?top" for r
    by (rule runsI) (auto simp: same_trackers_def on_svc_def SaveTicket_def Let_def register_ticket_simps
        split: if_splits)
  have "runs same_trackers ?top (assign_ticket teams m now i) ?top ?top" for i
  proof (rule runs_at)
    fix f :: "'a frame"
    show "reaches same_trackers ?top ?top f (assign_ticket teams m now i f)"
      using reaches_run [OF same_trackers.runs_and_then [OF call same_trackers.runs_and_then [OF call save]] TrueI]
      by (auto simp: assign_ticket_def same_trackers.reaches_return split: sum.split)
  qed
  from runsD(1) [OF same_trackers.runs_foreach [OF this] TrueI assms]
  show ?thesis by (simp add: same_trackers_def)
qed

section \<open>Following the engine's view\<close>

text \<open>The status of a ticket after a synchronisation, from the engine's status and its old one.\<close>

fun engine_view :: "ticket_status \<Rightarrow> ticket_status \<Rightarrow> ticket_status" where
  "engine_view StatusQueued old = (if old = StatusQueued then StatusQueued else StatusSearching)"
| "engine_view StatusSearching old = StatusSearching"
| "engine_view StatusCancelled old = StatusCancelled"
| "engine_view StatusTimedOut old = StatusTimedOut"
| "engine_view _ old = old"

lemma call_status:
  assumes "call r op f = (None, f')" and "op_status op = Some st"
  shows "tk_status (ticket_at f' r) = st"
proof -
  obtain t where "ticket_step op (ticket_at f r) = Inr t"
    and "f' = f\<lparr>fr_svc := put_ticket r t (fr_svc f)\<rparr>"
    using assms(1) by (cases rule: mutate_cases [of op "fr_svc f" r]) (auto simp: on_svc_def)
  with ticket_step_status [of op] assms(2) show ?thesis by simp
qed

lemma transition_status:
  assumes "transitionFromEngine d n r st now f = (oc, None, f')" and "st \<noteq> tk_status (ticket_at f r)"
  shows "tk_status (ticket_at f' r) = engine_view st (tk_status (ticket_at f r))"
proof (cases st)
  case StatusQueued
  with assms show ?thesis
    by (auto simp: transitionFromEngine_def Let_def split: if_splits dest: call_status)
next
  case StatusSearching
  with assms show ?thesis
    by (auto simp: transitionFromEngine_def Let_def split: if_splits dest: call_status)
next
  case StatusCancelled
  with assms show ?thesis
    by (auto simp: transitionFromEngine_def Let_def split: if_splits dest: call_status)
next
  case StatusTimedOut
  with assms show ?thesis
    by (auto simp: transitionFromEngine_def Let_def dest: call_status)
qed (use assms in \<open>auto simp: transitionFromEngine_def Let_def\<close>)

lemma on_svc_eng [simp]: "fr_eng (snd (on_svc g f)) = fr_eng f"
  by (simp add: on_svc_def Let_def split: prod.split)

lemma capture_final_status:
  "tk_status (ticket_at (snd (capture_final d r st f)) r) = tk_status (ticket_at f r)"
  by (auto simp: capture_final_def captureRuleMetrics_def on_svc_def mutate_def ticket_defs split: option.split)

lemma capture_final_eng: "fr_eng (snd (capture_final d r st f)) = fr_eng f"
  by (simp add: capture_final_def captureRuleMetrics_def split: option.split)

lemma transition_eng: "fr_eng (snd (snd (transitionFromEngine d n r st now f))) = fr_eng f"
  using transition_at [of d n r st now f] by (metis on_svc_eng snd_conv)

lemma addTicket_eng: "fr_eng (addTicket r f) = fr_eng f"
  by (simp add: addTicket_def Let_def fold_batch_add)

lemma addTicket_status: "tk_status (ticket_at (addTicket r f) q) = tk_status (ticket_at f q)"
  by (simp add: addTicket_def Let_def fold_batch_add on_svc_def mutate_def PullEvents_def)

lemma announce_failure_parts:
  "fr_eng (snd (announce_failure n now r m oc settled f)) = fr_eng f"
  "ticket_at (snd (announce_failure n now r m oc settled f)) = ticket_at f"
  by (simp_all add: announce_failure_def on_tracker_def upd_tracker_simps split: option.split)

lemma sync_one_result:
  assumes "sync_one d n now r st settled f = (None, settled', f')" and "st \<noteq> tk_status (ticket_at f r)"
  shows "tk_status (ticket_at f' r) = engine_view st (tk_status (ticket_at f r)) \<and> fr_eng f' = fr_eng f"
proof -
  let ?f1 = "snd (capture_final d r st f)"
  obtain oc y f2 where f2: "transitionFromEngine d n r st now ?f1 = (oc, y, f2)" by (metis prod_cases3)
  obtain z f3 where f3: "save r f2 = (z, f3)" by fastforce
  obtain settled3 f4 where f4: "announce_failure n now r (tk_matchID (ticket_at f r)) oc settled f3 = (settled3, f4)"
    by fastforce
  have yz: "y = None" "z = None" and f': "f' = addTicket r f4"
    using assms(1) by (auto simp: sync_one_def f2 f3 f4 Let_def split: option.splits)
  have "tk_status (ticket_at f2 r) = engine_view st (tk_status (ticket_at f r))"
    using transition_status [OF f2 [unfolded yz(1)]] assms(2) by (simp add: capture_final_status)
  moreover have "ticket_at f3 r = ticket_at f2 r"
    using f3 yz(2) by (auto simp: on_svc_def SaveTicket_def Let_def register_ticket_simps split: if_splits)
  moreover have "fr_eng f3 = fr_eng f"
    using f3 f2 transition_eng [of d n r st now ?f1] on_svc_eng [of "SaveTicket (Some r)" f2]
    by (simp add: capture_final_eng)
  moreover have "fr_eng f4 = fr_eng f3" "ticket_at f4 = ticket_at f3"
    using announce_failure_parts [of n now r "tk_matchID (ticket_at f r)" oc settled f3] f4 by simp_all
  ultimately show ?thesis by (simp add: f' addTicket_eng addTicket_status)
qed

lemma engine_view_same: "engine_view st st = st"
  by (cases st) auto

lemma sync_tickets_result:
  assumes "idle f" and "pending_live ids f" and "sync_tickets d n now ids settled f = (None, f')"
  shows "(\<forall>i r st. i \<in> set ids \<longrightarrow> find_ticket i f = Inr r \<longrightarrow> fx_Status d i (fr_eng f) = Inr st \<longrightarrow>
       tk_status (ticket_at f' r) = engine_view st (tk_status (ticket_at f r))) \<and>
    (\<forall>r. (\<forall>i\<in>set ids. find_ticket i f \<noteq> Inr r) \<longrightarrow> ticket_at f' r = ticket_at f r)"
  using assms
proof (induction ids arbitrary: settled f)
  case (Cons i ids)
  have rest: "pending_live ids f" and new: "i \<notin> set ids"
    using Cons.prems(2) by (auto simp: pending_live_def)
  note skip = Cons.IH [OF Cons.prems(1) rest]
  from Cons.prems(1) show ?case
  proof (cases rule: found_cases [where i = i])
    case (missing e)
    then show ?thesis using skip [of settled] Cons.prems(3) by auto
  next
    case (found r)
    then have live: "live r f" using Cons.prems(2) by (simp add: pending_live_def live_def)
    have others: "find_ticket j f \<noteq> Inr r" if "j \<in> set ids" for j
      using distinct_refs [OF Cons.prems(1) found(1)] that new by metis
    show ?thesis
    proof (cases "fx_Status d i (fr_eng f)")
      case (Inl e)
      then show ?thesis using skip [of settled] Cons.prems(3) found(1) by auto
    next
      case (Inr st)
      show ?thesis
      proof (cases "st = tk_status (ticket_at f r)")
        case True
        then have "sync_tickets d n now ids settled f = (None, f')"
          using Cons.prems(3) found(1) Inr by simp
        note IH = skip [OF this]
        have "ticket_at f' r = ticket_at f r" using IH others by blast
        with IH True Inr found(1) show ?thesis by (auto simp: engine_view_same)
      next
        case False
        obtain x settled' g where one: "sync_one d n now r st settled f = (x, settled', g)"
          by (metis prod_cases3)
        have x: "x = None" and next_: "sync_tickets d n now ids settled' g = (None, f')"
          using Cons.prems(3) found(1) Inr False one by (auto split: option.splits)
        note keeps = sync_one_keeps [OF live one] and here = sync_one_result [OF one [unfolded x] False]
        have same: "find_ticket j g = find_ticket j f" for j using keeps find_ticket_le by blast
        have "tk_id (ticket_at g r) = i" using found_holds [of g i r] keeps same found(1) by simp
        then have "pending_live ids g" using keeps pending_live_next [OF Cons.prems(2)] by blast
        note IH = Cons.IH [OF _ this next_]
        have at: "ticket_at g q = ticket_at f q" if "q \<noteq> r" for q
          using keeps that by (simp add: only_def)
        have "ticket_at f' r = ticket_at g r" using IH keeps others same by simp
        then have first: "tk_status (ticket_at f' r) = engine_view st (tk_status (ticket_at f r))"
          using here by simp
        show ?thesis
        proof (intro conjI allI impI)
          fix j q st'
          assume j: "j \<in> set (i # ids)" "find_ticket j f = Inr q" "fx_Status d j (fr_eng f) = Inr st'"
          show "tk_status (ticket_at f' q) = engine_view st' (tk_status (ticket_at f q))"
          proof (cases "j = i")
            case True
            with first j Inr found(1) show ?thesis by simp
          next
            case False
            then have "j \<in> set ids" "q \<noteq> r" using j others by auto
            with IH keeps here j same at show ?thesis by simp
          qed
        next
          fix q assume "\<forall>j\<in>set (i # ids). find_ticket j f \<noteq> Inr q"
          with IH keeps same at found(1) show "ticket_at f' q = ticket_at f q" by auto
        qed
      qed
    qed
  qed
qed simp

end
