(* ===== verification/Tick_Props.thy ===== *)
theory Tick_Props
  imports Sample_World Tick_Effects
begin

text \<open>
  The properties of the tick, phase by phase: how the engine's statuses, proposals and matches
  become statuses, assignments and events of the service's tickets.
\<close>

lemma opened_idle: "service_reachable d s \<Longrightarrow> idle (opened s eng)"
  using service_reachable_inv by (auto simp: idle_def)

section \<open>One ticket\<close>

text \<open>
  The engine's verdict on a ticket is translated case by case: searching tickets are observed
  or, coming out of a proposal, returned to the pool; a cancelled one is cancelled in the name of
  the caller when the caller had asked for it, and in the name of the failed acceptance
  otherwise; a timed-out one times out. Exactly a cancellation that ends a proposal and was not
  asked for reports an acceptance outcome.
\<close>

theorem engine_verdict_translated:
  assumes "transitionFromEngine d n r st now f = (oc, None, f')" and "st \<noteq> tk_status (ticket_at f r)"
  shows "tk_status (ticket_at f' r) = engine_view st (tk_status (ticket_at f r)) \<and>
    (st = StatusCancelled \<longrightarrow> tk_statusMessage (ticket_at f' r) =
       (if tk_cancelByAPI (ticket_at f r) then ''Matchmaking stopped by client''
        else ''A player failed to accept the proposed match'')) \<and>
    (oc \<noteq> None \<longleftrightarrow> st = StatusCancelled \<and> \<not> tk_cancelByAPI (ticket_at f r) \<and>
       tk_status (ticket_at f r) = StatusRequiresAcceptance)"
proof -
  have "tk_statusMessage (ticket_at f' r) =
      (if tk_cancelByAPI (ticket_at f r) then ''Matchmaking stopped by client''
       else ''A player failed to accept the proposed match'')" if st: "st = StatusCancelled"
  proof -
    let ?op = "if tk_cancelByAPI (ticket_at f r) then OpMarkCancelledByAPI now
      else OpMarkCancelledByAcceptanceFailure now"
    have c: "call r ?op f = (None, f')"
      using assms(1) st by (auto simp: transitionFromEngine_def Let_def split: if_splits)
    then obtain t where "ticket_step ?op (ticket_at f r) = Inr t"
      and "f' = f\<lparr>fr_svc := put_ticket r t (fr_svc f)\<rparr>"
      by (cases rule: mutate_cases [of ?op "fr_svc f" r]) (auto simp: on_svc_def)
    then show ?thesis by (auto simp: ticket_defs split: if_splits sum.splits)
  qed
  then show ?thesis
    using transition_status [OF assms] assms(1)
    by (cases st) (auto simp: transitionFromEngine_def Let_def split: if_splits)
qed

theorem engine_verdict_translated_witness:
  "case transitionFromEngine toy_deps ''c'' 0 StatusCancelled 30 (opened toy_proposed toy_engine) of
     (oc, x, f') \<Rightarrow> oc \<noteq> None \<and> tk_status (ticket_at f' 0) = StatusCancelled \<and>
       tk_statusMessage (ticket_at f' 0) = ''A player failed to accept the proposed match''"
proof -
  obtain oc x f' where t: "transitionFromEngine toy_deps ''c'' 0 StatusCancelled 30 (opened toy_proposed toy_engine) = (oc, x, f')"
    by (metis prod_cases3)
  have "fst (snd (transitionFromEngine toy_deps ''c'' 0 StatusCancelled 30 (opened toy_proposed toy_engine))) = None"
    and old: "tk_status (sv_heap toy_proposed 0) = StatusRequiresAcceptance"
      "\<not> tk_cancelByAPI (sv_heap toy_proposed 0)"
    by (simp_all add: run_defs opened_def)
  with t have x: "x = None" by simp
  have ne: "StatusCancelled \<noteq> tk_status (ticket_at (opened toy_proposed toy_engine) 0)"
    using old by simp
  from engine_verdict_translated [OF t [unfolded x] ne] old
  show ?thesis by (simp add: t)
qed

text \<open>
  A failed acceptance counts as rejected exactly when a player of one of the match's tickets
  is on record as having rejected it, and as timed out otherwise.
\<close>

theorem acceptance_failure_outcome:
  "acceptanceFailureOutcome n m s = AcceptanceRejected \<longleftrightarrow>
     (\<exists>ids i r p. ticketsFor m (sv_trackers s n) = Some ids \<and> i \<in> set ids \<and> sv_tickets s i = Some r \<and>
        (p, False) \<in> set (tk_playerAcceptances (sv_heap s r)))"
proof -
  have rejected: "has_rejection s i \<longleftrightarrow>
      (\<exists>r p. sv_tickets s i = Some r \<and> (p, False) \<in> set (tk_playerAcceptances (sv_heap s r)))" for i
    by (cases "sv_tickets s i") (force simp: has_rejection_def GetTicket_def list_ex_iff)+
  show ?thesis
    by (cases "ticketsFor m (sv_trackers s n)")
      (auto simp: acceptanceFailureOutcome_def list_ex_iff rejected)
qed

section \<open>Matches\<close>

text \<open>A match under its identifier: its tickets are completed, its events published, its roster forgotten.\<close>

lemma finalize_known_result:
  fixes g :: "'e frame"
  assumes fin: "finalize_known d cfg now fm m direct g = (None, f')" and idle: "idle g"
  shows "(\<forall>i r. i \<in> set (fm_TicketIDs fm) \<longrightarrow> find_ticket i g = Inr r \<longrightarrow> completed_at now (ticket_at f' r)) \<and>
    (\<exists>settled. (settled \<longleftrightarrow> cfg_AcceptanceRequired cfg \<and> (\<exists>i\<in>set (fm_TicketIDs fm). in_proposal g i)) \<and>
       map re_event (fr_batch f') = map re_event (fr_batch g) @ match_events cfg m fm direct settled now) \<and>
    ticketsFor m (tracker_of (cfg_Name cfg) f') = None"
proof -
  obtain x settled h where h: "finalize_tickets d cfg (playerTeams (fm_Teams fm)) m now
      (fm_TicketIDs fm) False g = (x, settled, h)"
    by (metis prod_cases3)
  have x: "x = None" and f': "f' = on_tracker (cfg_Name cfg) (forget m)
      (fold batch_add (match_events cfg m fm direct settled now) h)"
    using fin by (auto simp: finalize_known_def h split: option.splits)
  have rec: "re_event (record_event s e) = e" for s :: "'e service" and e
    by (simp add: record_event_def)
  have "map re_event (fr_batch f') = map re_event (fr_batch h) @ match_events cfg m fm direct settled now"
    by (simp add: f' on_tracker_def fold_batch_add rec comp_def)
  moreover have "ticketsFor m (tracker_of (cfg_Name cfg) f') = None"
    by (simp add: f' tracker_of_def on_tracker_def upd_tracker_simps ticketsFor_forget)
  moreover have "ticket_at f' r = ticket_at h r" for r
    by (simp add: f' on_tracker_def upd_tracker_simps fold_batch_add)
  ultimately show ?thesis using finalize_tickets_result [OF idle h [unfolded x]] by auto
qed



section \<open>Proposals\<close>

text \<open>
  C32. A new proposal puts every one of its tickets the service knows into REQUIRES_ACCEPTANCE
  under one match identifier, enters the roster with its creation time into the tracker, and
  hands over exactly one PotentialMatchCreated for the whole match with the configuration's
  acceptance policy. A proposal that is already tracked changes nothing.
\<close>

theorem proposal_assigned_once:
  assumes "apply_proposal cfg now p f = (None, f')" and "idle f"
  shows "if already_tracked p (tracker_of (cfg_Name cfg) f) then f' = f
    else \<exists>m. (\<forall>i r. i \<in> set (fp_TicketIDs p) \<longrightarrow> find_ticket i f = Inr r \<longrightarrow>
        tk_status (ticket_at f' r) = StatusRequiresAcceptance \<and> tk_matchID (ticket_at f' r) = m) \<and>
      already_tracked p (tracker_of (cfg_Name cfg) f') \<and>
      ticketsFor m (tracker_of (cfg_Name cfg) f') = Some (fp_TicketIDs p) \<and>
      map re_event (fr_batch f') = map re_event (fr_batch f) @
        [NewPotentialMatchCreated (cfg_Name cfg) m (fp_TicketIDs p)
           (toRuleMetrics (fp_RuleEvaluationMetrics p)) (cfg_AcceptanceRequired cfg)
           (cfg_AcceptanceTimeout cfg) now]"
proof (cases "already_tracked p (tracker_of (cfg_Name cfg) f)")
  case True
  then show ?thesis using assms(1) by (simp add: apply_proposal_def)
next
  case False
  obtain m f1 where new: "NewMatchID f = (m, f1)" by fastforce
  let ?g = "on_tracker (cfg_Name cfg) (assignAt (fp_TicketIDs p) m (fp_CreatedAt p)) f1"
  note entered = new_match_idle [OF assms(2) new, of "cfg_Name cfg" "fp_TicketIDs p" "fp_CreatedAt p"]
  let ?ev = "NewPotentialMatchCreated (cfg_Name cfg) m (fp_TicketIDs p)
           (toRuleMetrics (fp_RuleEvaluationMetrics p)) (cfg_AcceptanceRequired cfg)
           (cfg_AcceptanceTimeout cfg) now"
  obtain y h where h: "foreach (assign_ticket (playerTeams (fp_Teams p)) m now) (fp_TicketIDs p) ?g = (y, h)"
    by fastforce
  have y: "y = None" and f': "f' = batch_add ?ev h"
    using assms(1) False h by (cases y; simp add: apply_proposal_def new and_then_def)+
  note loop = assign_all_result [OF entered(1) h [unfolded y]]
  have tr: "sv_trackers (fr_svc h) = sv_trackers (fr_svc ?g)"
    by (rule assign_loop_trackers [OF h [unfolded y]])
  have same: "find_ticket i ?g = find_ticket i f" "fr_batch ?g = fr_batch f" for i
    using new by (auto simp: NewMatchID_def on_svc_def on_tracker_def upd_tracker_simps GetTicket_def
        split: prod.splits)
  have "already_tracked p (tracker_of (cfg_Name cfg) f')"
    "ticketsFor m (tracker_of (cfg_Name cfg) f') = Some (fp_TicketIDs p)"
    using tr by (simp_all add: f' tracker_of_def on_tracker_def upd_tracker_simps already_tracked_def
        known_assignAt ticketsFor_assignAt, simp add: assignAt_def)
  moreover have "map re_event (fr_batch f') = map re_event (fr_batch f) @ [?ev]"
    using loop by (simp add: f' batch_add_def same record_event_def)
  ultimately show ?thesis
    using False loop by (auto simp: f' same assigned_to_def)
qed

theorem proposal_assigned_once_witness:
  "case apply_proposal toy_cfg 20 toy_proposal (opened toy_pool toy_engine) of
     (x, f') \<Rightarrow> x = None \<and> tk_status (ticket_at f' 0) = StatusRequiresAcceptance \<and>
       map (EventName \<circ> re_event) (fr_batch f') = [''PotentialMatchCreated'']"
proof -
  let ?f = "opened toy_pool toy_engine"
  obtain x f' where r: "apply_proposal toy_cfg 20 toy_proposal ?f = (x, f')" by fastforce
  have "fst (apply_proposal toy_cfg 20 toy_proposal ?f) = None"
    by (simp add: run_defs opened_def)
  with r have x: "x = None" by simp
  have k: "\<not> already_tracked toy_proposal (tracker_of (cfg_Name toy_cfg) ?f)"
    "find_ticket ''a'' ?f = Inr 0" "fr_batch ?f = []"
    by (simp_all add: run_defs opened_def)
  obtain m where
    status: "\<forall>i r. i \<in> set (fp_TicketIDs toy_proposal) \<longrightarrow> find_ticket i ?f = Inr r \<longrightarrow>
        tk_status (ticket_at f' r) = StatusRequiresAcceptance \<and> tk_matchID (ticket_at f' r) = m" and
    batch: "map re_event (fr_batch f') = map re_event (fr_batch ?f) @
        [NewPotentialMatchCreated (cfg_Name toy_cfg) m (fp_TicketIDs toy_proposal)
           (toRuleMetrics (fp_RuleEvaluationMetrics toy_proposal)) (cfg_AcceptanceRequired toy_cfg)
           (cfg_AcceptanceTimeout toy_cfg) 20]"
    using proposal_assigned_once [OF r [unfolded x] opened_idle [OF toy_pool_reachable],
        unfolded if_not_P [OF k(1)]] by blast
  have "map EventName (map re_event (fr_batch f')) = [''PotentialMatchCreated'']"
    unfolding batch by (simp add: k(3) NewPotentialMatchCreated_def)
  moreover have "''a'' \<in> set (fp_TicketIDs toy_proposal)" by (simp add: toy_proposal_def)
  ultimately show ?thesis using status k(2) by (simp add: r x)
qed

section \<open>The view of the engine\<close>

text \<open>
  C34. After a synchronisation every active ticket of the configuration has the status the engine
  reports for it, translated; a ticket that is not active under the configuration is untouched.
\<close>

theorem sync_follows_engine:
  assumes "syncActiveTickets d cfg now f = (None, f')" and "idle f" and "find_ticket i f = Inr r"
  shows "if i \<in> set (ActiveTicketIDsByConfiguration (cfg_Name cfg) (fr_svc f))
    then (case fx_Status d i (fr_eng f) of
            Inl e \<Rightarrow> True
          | Inr st \<Rightarrow> tk_status (ticket_at f' r) = engine_view st (tk_status (ticket_at f r)))
    else ticket_at f' r = ticket_at f r"
proof -
  let ?ids = "ActiveTicketIDsByConfiguration (cfg_Name cfg) (fr_svc f)"
  note all = sync_tickets_result [OF assms(2) pending_live_active [OF assms(2)]
      assms(1) [unfolded syncActiveTickets_def]]
  have "ticket_at f' r = ticket_at f r" if "i \<notin> set ?ids"
  proof -
    have "find_ticket j f \<noteq> Inr r" if "j \<in> set ?ids" for j
      using distinct_refs [OF assms(2) _ assms(3)] that \<open>i \<notin> set ?ids\<close> by metis
    with all show ?thesis by blast
  qed
  with all assms(3) show ?thesis by (auto split: sum.split)
qed

theorem sync_follows_engine_witness:
  "case syncActiveTickets toy_deps toy_cfg 30
      (opened toy_pool (toy_engine\<lparr>ty_status := [(''a'', StatusTimedOut), (''b'', StatusSearching)]\<rparr>)) of
     (x, f') \<Rightarrow> x = None \<and> tk_status (ticket_at f' 0) = StatusTimedOut \<and>
       tk_status (ticket_at f' 1) = StatusSearching"
proof -
  let ?f = "opened toy_pool (toy_engine\<lparr>ty_status := [(''a'', StatusTimedOut), (''b'', StatusSearching)]\<rparr>)"
  obtain x f' where r: "syncActiveTickets toy_deps toy_cfg 30 ?f = (x, f')" by fastforce
  have "fst (syncActiveTickets toy_deps toy_cfg 30 ?f) = None"
    by (simp add: run_defs opened_def)
  with r have x: "x = None" by simp
  have ids: "''a'' \<in> set (ActiveTicketIDsByConfiguration (cfg_Name toy_cfg) (fr_svc ?f))"
      "''b'' \<in> set (ActiveTicketIDsByConfiguration (cfg_Name toy_cfg) (fr_svc ?f))"
    and found: "find_ticket ''a'' ?f = Inr 0" "find_ticket ''b'' ?f = Inr 1"
    and st: "fx_Status toy_deps ''a'' (fr_eng ?f) = Inr StatusTimedOut"
      "fx_Status toy_deps ''b'' (fr_eng ?f) = Inr StatusSearching"
    by (simp_all add: run_defs opened_def)
  note sync = sync_follows_engine [OF r [unfolded x] opened_idle [OF toy_pool_reachable]]
  from sync [OF found(1)] sync [OF found(2)] ids st
  show ?thesis by (simp add: r x)
qed

text \<open>
  When the engine's tick fails, the tick reports the engine's error and publishes nothing: no
  ticket, tracker or index of the service changes, only the engine moves on.
\<close>

theorem tick_engine_error:
  assumes "EngineFor n s = Inr eng" and "GetConfiguration n s = Inr cfg"
    and "fx_Tick d eng = (Inl e, eng')"
  shows "Tick_locked d None now n s = (Inl (ErrEngine e), [], Register n eng' s)"
  using assms
  by (simp add: Tick_locked_def locked_configured_def with_engine_def tick_body_def on_eng_def)

theorem tick_engine_error_witness:
  "Tick_locked (toy_deps\<lparr>fx_Tick := \<lambda>e. (Inl FxUnknownTicket, e)\<rparr>) None 5 ''c'' toy_service =
     (Inl (ErrEngine FxUnknownTicket), [], Register ''c'' toy_engine toy_service)"
proof -
  have "EngineFor ''c'' toy_service = Inr toy_engine" "GetConfiguration ''c'' toy_service = Inr toy_cfg"
    by (simp_all add: run_defs)
  then show ?thesis by (rule tick_engine_error) simp
qed

section \<open>Settling an ended proposal\<close>

text \<open>The status a ticket leaves an ended proposal with, from the engine's status.\<close>

definition settled_status :: "ticket_status \<Rightarrow> ticket_status" where
  "settled_status st = (if st = StatusRequiresAcceptance then StatusSearching
     else engine_view st StatusRequiresAcceptance)"

lemma settle_ticket_result:
  assumes "settle_ticket d cfg now i f = (None, g)" and "find_ticket i f = Inr r"
  shows "fr_eng g = fr_eng f \<and> only r f g \<and>
    tk_status (ticket_at g r) =
      (if tk_status (ticket_at f r) \<noteq> StatusRequiresAcceptance then tk_status (ticket_at f r)
       else case fx_Status d i (fr_eng f) of Inl e \<Rightarrow> StatusRequiresAcceptance | Inr st \<Rightarrow> settled_status st)"
proof (cases "tk_status (ticket_at f r) = StatusRequiresAcceptance")
  case False
  with assms show ?thesis by (simp add: settle_ticket_def)
next
  case RA: True
  show ?thesis
  proof (cases "fx_Status d i (fr_eng f)")
    case (Inl e)
    with RA assms show ?thesis by (simp add: settle_ticket_def)
  next
    case (Inr st)
    let ?turn = "\<lambda>f. if st = StatusRequiresAcceptance
      then call r (OpReturnToSearching ''ACCEPTANCE_FAILED'' now) f
      else snd (transitionFromEngine d (cfg_Name cfg) r st now f)"
    let ?f1 = "snd (capture_final d r st f)"
    obtain y f2 where f2: "?turn ?f1 = (y, f2)" by fastforce
    obtain z f3 where f3: "save r f2 = (z, f3)" by fastforce
    have f1: "capture_final d r st f = (None, ?f1)" using capture_final_ok by (metis prod.collapse)
    have yz: "y = None" "z = None" and g: "g = addTicket r f3"
      using assms RA Inr f1 f2 f3
      by (auto simp: settle_ticket_def and_then_def split: option.splits prod.splits if_splits)
    have "tk_status (ticket_at f2 r) = settled_status st"
    proof (cases "st = StatusRequiresAcceptance")
      case True
      with f2 yz(1) show ?thesis by (auto simp: settled_status_def dest: call_status)
    next
      case False
      then obtain oc where "transitionFromEngine d (cfg_Name cfg) r st now ?f1 = (oc, None, f2)"
        using f2 yz(1) by (metis prod.collapse)
      from transition_status [OF this] False RA show ?thesis
        by (simp add: settled_status_def capture_final_status)
    qed
    moreover have "ticket_at f3 r = ticket_at f2 r"
      using f3 yz(2) by (auto simp: on_svc_def SaveTicket_def Let_def register_ticket_simps split: if_splits)
    moreover have turn: "fr_eng f2 = fr_eng ?f1" "only r ?f1 f2"
      using f2 transition_eng [of d "cfg_Name cfg" r st now ?f1] only_transition [of r ?f1 d "cfg_Name cfg" st now]
        only_call [of r ?f1 "OpReturnToSearching ''ACCEPTANCE_FAILED'' now"]
        on_svc_eng [of "mutate r (OpReturnToSearching ''ACCEPTANCE_FAILED'' now)" ?f1]
      by (cases "st = StatusRequiresAcceptance"; simp)+
    moreover have "fr_eng f3 = fr_eng f2" "only r f2 f3"
      using f3 only_save [of r f2] on_svc_eng [of "SaveTicket (Some r)" f2] by simp_all
    ultimately show ?thesis
      using RA Inr only_trans [OF only_capture only_trans [OF turn(2) only_trans [OF _ only_addTicket]]]
      by (simp add: g addTicket_eng addTicket_status capture_final_eng)
  qed
qed

lemma settle_all_result:
  assumes "foreach (settle_ticket d cfg now) ids f = (None, g)" and "idle f"
    and "find_ticket i f = Inr r"
  shows "tk_status (ticket_at g r) =
      (if i \<notin> set ids \<or> tk_status (ticket_at f r) \<noteq> StatusRequiresAcceptance then tk_status (ticket_at f r)
       else case fx_Status d i (fr_eng f) of Inl e \<Rightarrow> StatusRequiresAcceptance | Inr st \<Rightarrow> settled_status st)"
  using assms
proof (induction ids arbitrary: f)
  case (Cons j ids)
  obtain y h where a: "settle_ticket d cfg now j f = (y, h)" by fastforce
  with Cons.prems(1) have y: "y = None" by (cases y) auto
  then have rest: "foreach (settle_ticket d cfg now) ids h = (None, g)" using Cons.prems(1) a by simp
  have h: "frame_le f h" "idle h" using runsD(1,2) [OF settle_ticket_step Cons.prems(2)] a y by auto
  then have found: "find_ticket i h = Inr r" using Cons.prems(3) by (simp add: find_ticket_le)
  note IH = Cons.IH [OF rest h(2) found]
  show ?case
  proof (cases "j = i")
    case True
    note here = settle_ticket_result [OF a [unfolded y True] Cons.prems(3)]
    show ?thesis
      using IH here True by (cases "fx_Status d i (fr_eng f)") auto
  next
    case False
    have "fr_eng h = fr_eng f \<and> ticket_at h r = ticket_at f r"
    proof (cases "find_ticket j f")
      case (Inl e)
      with a show ?thesis by (simp add: settle_ticket_def)
    next
      case (Inr q)
      with settle_ticket_result [OF a [unfolded y] Inr] distinct_refs [OF Cons.prems(2) Inr Cons.prems(3) False]
      show ?thesis by (auto simp: only_def)
    qed
    with IH False show ?thesis by simp
  qed
qed simp



end
