(* ===== verification/System_Props.thy ===== *)
theory System_Props
  imports Sample_World
begin

text \<open>
  The properties of the whole service: they hold in every state that commands, ticks and engines
  of any configurations can reach, in any order.
\<close>

section \<open>The indexes\<close>

text \<open>
  C1. In every reachable service the derived views are exact: a configuration's own map holds
  exactly its tickets, its active index lists exactly its non-terminal tickets, each once, every
  ticket is stored under its own identifier, and no identifier is reserved and in use at once.
\<close>

theorem reachable_views_exact:
  assumes "service_reachable d s"
  shows "(configTicket s n i = Some r \<longleftrightarrow> sv_tickets s i = Some r \<and> cfg_of s r = n) \<and>
    (i \<in> set (ActiveTicketIDsByConfiguration n s) \<longleftrightarrow>
       (\<exists>q. sv_tickets s i = Some q \<and> cfg_of s q = n \<and> IsActive (tk_status (sv_heap s q)))) \<and>
    distinct (ActiveTicketIDsByConfiguration n s) \<and>
    (case sv_tickets s i of None \<Rightarrow> True | Some q \<Rightarrow> tk_id (sv_heap s q) = i \<and> i \<notin> sv_reserved s)"
proof -
  have inv: "store_inv {} s" using service_reachable_inv [OF assms] by (simp add: svc_inv_def)
  then have maps: "maps_ok s" and index: "index_ok {} s" by (simp_all add: store_inv_def)
  note m = maps_okD [OF maps]
  have "configTicket s n i = Some r \<longleftrightarrow> sv_tickets s i = Some r \<and> cfg_of s r = n"
    using m(3,4,5) by blast
  moreover have "i \<notin> sv_reserved s \<and> tk_id (sv_heap s q) = i" if "sv_tickets s i = Some q" for q
    using m(2,7) that by auto
  ultimately show ?thesis
    using active_exact [OF inv, of n] index_okD(1) [OF index, of n]
    by (auto simp: ActiveTicketIDsByConfiguration_def active_ref_def split: option.split)
qed

theorem reachable_views_exact_witness:
  "''a'' \<in> set (ActiveTicketIDsByConfiguration ''c'' toy_pool) \<and>
   configTicket toy_pool ''c'' ''b'' = Some 1 \<and> configTicket toy_pool ''e'' ''b'' = None"
proof -
  note all = reachable_views_exact [OF toy_pool_reachable]
  have "sv_tickets toy_pool ''a'' = Some 0" "cfg_of toy_pool 0 = ''c''"
    "IsActive (tk_status (sv_heap toy_pool 0))" "sv_tickets toy_pool ''b'' = Some 1" "cfg_of toy_pool 1 = ''c''"
    by (simp_all add: run_defs cfg_of_def)
  note found = this
  have "configTicket toy_pool ''c'' ''b'' = Some 1"
    using conjunct1 [OF all, of "''c''" "''b''" 1] found(4,5) by simp
  moreover have "configTicket toy_pool ''e'' ''b'' \<noteq> Some r" for r
    using conjunct1 [OF all, of "''e''" "''b''" r] found(4,5) by auto
  moreover have "''a'' \<in> set (ActiveTicketIDsByConfiguration ''c'' toy_pool)"
    using conjunct1 [OF conjunct2 [OF all], of "''a''" "''c''"] found(1-3) by blast
  ultimately show ?thesis by (meson option.exhaust)
qed

section \<open>Backfill\<close>

text \<open>
  C3. A game session has at most one live backfill request per configuration: two live requests
  of a reachable service with the same configuration and the same non-empty session are the same
  ticket.
\<close>

theorem one_backfill_per_session:
  assumes "service_reachable d s"
    and "sv_tickets s i = Some q" and "sv_tickets s j = Some r"
    and "IsActive (tk_status (sv_heap s q))" and "IsActive (tk_status (sv_heap s r))"
    and "tk_isBackfill (sv_heap s q)" and "tk_isBackfill (sv_heap s r)"
    and "cfg_of s q = cfg_of s r"
    and "tk_gameSessionARN (sv_heap s q) = tk_gameSessionARN (sv_heap s r)"
    and "tk_gameSessionARN (sv_heap s q) \<noteq> []"
  shows "i = j"
proof -
  have "sessions_ok s" and inv: "svc_inv {} s" using service_reachable_inv [OF assms(1)] by simp_all
  moreover have "same_session (sv_heap s q) (sv_heap s r)"
    using assms(6-10) by (simp add: same_session_def cfg_of_def)
  ultimately have "q = r" using assms(2-5) unfolding sessions_ok_def active_ref_def by blast
  moreover have "tk_id (sv_heap s q) = i" "tk_id (sv_heap s r) = j"
    using inv assms(2,3) maps_okD(2) by (auto simp: svc_inv_def store_inv_def)
  ultimately show ?thesis by simp
qed

definition toy_filled :: "toy service" where
  "toy_filled = snd (snd (toy_backfill ''f2'' ''arn:s'' 50
     (snd (snd (toy_backfill ''f1'' ''arn:s'' 40 toy_service)))))"

theorem one_backfill_per_session_witness:
  "toy_status_of ''f2'' toy_filled = Some StatusQueued \<and> sv_tickets toy_filled ''f1'' = Some 0 \<and>
   \<not> IsActive (tk_status (sv_heap toy_filled 0))"
proof -
  have reach: "service_reachable toy_deps toy_filled"
    unfolding toy_filled_def toy_backfill_def by (intro command_reachable toy_service_reachable)
  have new: "sv_tickets toy_filled ''f2'' = Some 1" "tk_status (sv_heap toy_filled 1) = StatusQueued"
    "tk_isBackfill (sv_heap toy_filled 1)" "cfg_of toy_filled 1 = ''c''"
    "tk_gameSessionARN (sv_heap toy_filled 1) = ''arn:s''"
    and old: "sv_tickets toy_filled ''f1'' = Some 0" "tk_isBackfill (sv_heap toy_filled 0)"
    "cfg_of toy_filled 0 = ''c''" "tk_gameSessionARN (sv_heap toy_filled 0) = ''arn:s''"
    by (simp_all add: toy_filled_def run_defs cfg_of_def)
  have act: "IsActive (tk_status (sv_heap toy_filled 1))" using new(2) by (simp add: IsActive_def)
  have "''f1'' = ''f2''" if "IsActive (tk_status (sv_heap toy_filled 0))"
    by (rule one_backfill_per_session [OF reach old(1) new(1) that act old(2) new(3)])
       (simp_all only: new old, simp_all)
  then show ?thesis using new(1,2) old(1) by (auto simp: toy_status_of_def)
qed

section \<open>The life of a ticket\<close>

text \<open>
  Whatever happens to the service, a ticket object keeps its identity (identifier,
  configuration, players, kind, session, start time), and once it has reached a terminal status
  it keeps that status and its end time.
\<close>

theorem tickets_evolve_one_way:
  assumes "service_reachable d s" and "service_steps d s evs s'" and "r < sv_next s"
  shows "same_ident (sv_heap s r) (sv_heap s' r) \<and>
    (if IsTerminal (tk_status (sv_heap s r))
     then tk_status (sv_heap s' r) = tk_status (sv_heap s r) \<and> tk_endTime (sv_heap s' r) = tk_endTime (sv_heap s r)
     else True)"
proof -
  have "ticket_le (sv_heap s r) (sv_heap s' r)"
    using service_steps_keep [OF assms(2) conjunct1 [OF service_reachable_inv [OF assms(1)]]] assms(3)
    by (simp add: svc_grow_def hext_def)
  then show ?thesis unfolding ticket_le_def if_bool_eq_conj by blast
qed

definition toy_cancelled :: "toy service" where
  "toy_cancelled = snd (snd (toy_tick 30 (toy_load [] [] StatusCancelled toy_pool)))"

theorem tickets_evolve_one_way_witness:
  "tk_status (sv_heap toy_cancelled 0) = StatusCancelled \<and>
   tk_status (sv_heap (Register ''c'' toy_engine toy_cancelled) 0) = StatusCancelled \<and>
   tk_id (sv_heap (Register ''c'' toy_engine toy_cancelled) 0) = ''a''"
proof -
  have reach: "service_reachable toy_deps toy_cancelled"
    unfolding toy_cancelled_def toy_tick_def
    by (intro command_reachable toy_load_reachable [OF toy_pool_reachable toy_pool_engine])
  have st: "tk_status (sv_heap toy_cancelled 0) = StatusCancelled" "tk_id (sv_heap toy_cancelled 0) = ''a''"
    "sv_next toy_cancelled = 2"
    and eng: "EngineFor ''c'' toy_cancelled =
      Inr \<lparr>ty_status = [(''a'', StatusCancelled), (''b'', StatusCancelled)], ty_pending = [], ty_matches = []\<rparr>"
    by (simp_all add: toy_cancelled_def run_defs time_sub_def min_duration_def max_duration_def
        hour_def minute_def second_def defaultTicketRetention_def)
  have steps: "service_steps toy_deps toy_cancelled ([] @ []) (Register ''c'' toy_engine toy_cancelled)"
    by (rule steps_more [OF steps_done step_engine [OF eng]])
  from tickets_evolve_one_way [OF reach steps, of 0] st
  have "same_ident (sv_heap toy_cancelled 0) (sv_heap (Register ''c'' toy_engine toy_cancelled) 0)"
    "tk_status (sv_heap (Register ''c'' toy_engine toy_cancelled) 0) = StatusCancelled"
    by simp_all
  then show ?thesis using st by (auto dest: same_identD(1))
qed

section \<open>Matches\<close>


text \<open>A generator that counts in unary, and a service with it.\<close>

definition unary_ids :: idgen where
  "unary_ids = \<lparr>ig_seq = (\<lambda>n. replicate n CHR ''x''), ig_calls = 0\<rparr>"

definition unary_service :: "toy service" where
  "unary_service = snd (snd (toy_tick 20 (toy_load [toy_proposal] [] StatusRequiresAcceptance
     (toy_start ''b'' ''q'' 11 (toy_start ''a'' ''p'' 10
       (new_service 0 (NewSequence ''t-'') unary_ids [toy_cfg] [toy_ruleset] (\<lambda>_. toy_engine)))))))"


end
