(* ===== verification/Delivery.thy ===== *)
theory Delivery
  imports Event_Batch "HOL-Library.Sublist"
begin

text \<open>
  The delivery lanes (\<open>event_delivery.go\<close>, \<open>releaseAndFlush\<close> of \<open>service.go\<close>): each configuration
  has a bounded queue of event batches and at most one worker that publishes them. Commands are
  producers: they take a slot before they lock their configuration, append their batch under the
  lock and start the worker after it. The model is a transition system whose steps are the
  critical sections and channel operations of the code, interleaved in any order.
\<close>

section \<open>State\<close>

definition deliveryCapacity :: nat where
  "deliveryCapacity = 64"

record lane =
  ln_slots :: nat
  ln_pending :: "recorded_event list list"
  ln_running :: bool

text \<open>Where a command and where the worker of a lane stand in the code.\<close>

datatype producer =
    Outside
  | Selecting config_name
  | Acquired config_name
  | Working config_name
  | Enqueued config_name
  | Kicked config_name
  | Emptied config_name
  | Unslotting config_name

datatype worker = NoWorker | AtLoop | Publishing "recorded_event list" | Releasing

text \<open>
  \<open>dl_opened\<close> says that \<open>deliveryClosing\<close> exists: the first reservation makes it.
  \<open>dl_producers\<close> and \<open>dl_workers\<close> are the two wait groups; \<open>dl_leaving\<close> counts workers that have
  left their loop and not yet called \<open>Done\<close>. \<open>dl_sent\<close> and \<open>dl_out\<close> are histories: the events of
  the batches appended to a lane, and the events handed to its publisher.
\<close>

record delivery =
  dl_opened :: bool
  dl_closed :: bool
  dl_lanes :: "config_name \<Rightarrow> lane"
  dl_producers :: nat
  dl_workers :: nat
  dl_leaving :: nat
  dl_producer :: "nat \<Rightarrow> producer"
  dl_worker :: "config_name \<Rightarrow> worker"
  dl_sent :: "config_name \<Rightarrow> recorded_event list"
  dl_out :: "config_name \<Rightarrow> recorded_event list"

definition empty_lane :: lane where
  "empty_lane = \<lparr>ln_slots = 0, ln_pending = [], ln_running = False\<rparr>"

definition new_delivery :: delivery where
  "new_delivery = \<lparr>dl_opened = False, dl_closed = False, dl_lanes = (\<lambda>_. empty_lane), dl_producers = 0, dl_workers = 0,
     dl_leaving = 0, dl_producer = (\<lambda>_. Outside), dl_worker = (\<lambda>_. NoWorker),
     dl_sent = (\<lambda>_. []), dl_out = (\<lambda>_. [])\<rparr>"

definition upd_lane :: "config_name \<Rightarrow> (lane \<Rightarrow> lane) \<Rightarrow> delivery \<Rightarrow> delivery" where
  "upd_lane n g s = s\<lparr>dl_lanes := (dl_lanes s)(n := g (dl_lanes s n))\<rparr>"

definition goto :: "nat \<Rightarrow> producer \<Rightarrow> delivery \<Rightarrow> delivery" where
  "goto p pc s = s\<lparr>dl_producer := (dl_producer s)(p := pc)\<rparr>"

definition work :: "config_name \<Rightarrow> worker \<Rightarrow> delivery \<Rightarrow> delivery" where
  "work n w s = s\<lparr>dl_worker := (dl_worker s)(n := w)\<rparr>"

section \<open>Operations\<close>

text \<open>The two critical sections of \<open>reserveDelivery\<close> and the send on \<open>slots\<close> between them.\<close>

definition reserve_enter :: "nat \<Rightarrow> config_name \<Rightarrow> delivery \<Rightarrow> err option \<times> delivery" where
  "reserve_enter p n s =
     (let s = s\<lparr>dl_opened := True\<rparr> in
      if dl_closed s then (Some ErrContext, s) else (None, goto p (Selecting n) s))"

definition reserve_slot :: "nat \<Rightarrow> config_name \<Rightarrow> delivery \<Rightarrow> delivery option" where
  "reserve_slot p n s =
     (if ln_slots (dl_lanes s n) < deliveryCapacity
      then Some (goto p (Acquired n) (upd_lane n (\<lambda>l. l\<lparr>ln_slots := ln_slots l + 1\<rparr>) s))
      else None)"

definition release_slot :: "config_name \<Rightarrow> delivery \<Rightarrow> delivery" where
  "release_slot n = upd_lane n (\<lambda>l. l\<lparr>ln_slots := ln_slots l - 1\<rparr>)"

definition reserve_confirm :: "nat \<Rightarrow> config_name \<Rightarrow> delivery \<Rightarrow> err option \<times> delivery" where
  "reserve_confirm p n s =
     (if dl_closed s then (Some ErrContext, goto p Outside (release_slot n s))
      else (None, goto p (Working n) (s\<lparr>dl_producers := dl_producers s + 1\<rparr>)))"

definition enqueue :: "config_name \<Rightarrow> recorded_event list \<Rightarrow> delivery \<Rightarrow> delivery" where
  "enqueue n b s =
     (upd_lane n (\<lambda>l. l\<lparr>ln_pending := ln_pending l @ [b]\<rparr>) s)
       \<lparr>dl_sent := (dl_sent s)(n := dl_sent s n @ b)\<rparr>"

definition start_lane :: "config_name \<Rightarrow> delivery \<Rightarrow> delivery" where
  "start_lane n s =
     (if ln_running (dl_lanes s n) then s
      else work n AtLoop ((upd_lane n (\<lambda>l. l\<lparr>ln_running := True\<rparr>) s)\<lparr>dl_workers := dl_workers s + 1\<rparr>))"

text \<open>
  \<open>releaseAndFlush\<close>: the batch is appended while the lock is held, then the worker is started and
  the producer leaves its wait group. A batch without events returns its slot itself. Waiting for
  the batch's \<open>done\<close> channel changes nothing and is left out.
\<close>

definition flush_batch :: "nat \<Rightarrow> config_name \<Rightarrow> recorded_event list \<Rightarrow> delivery \<Rightarrow> delivery" where
  "flush_batch p n b s =
     (if b = [] then goto p (Emptied n) s else goto p (Enqueued n) (enqueue n b s))"

definition producer_done :: "nat \<Rightarrow> producer \<Rightarrow> delivery \<Rightarrow> delivery" where
  "producer_done p pc s = goto p pc (s\<lparr>dl_producers := dl_producers s - 1\<rparr>)"

text \<open>One step of a worker: \<open>deliver\<close>, cut at its channel and lock operations.\<close>

definition worker_step :: "config_name \<Rightarrow> delivery \<Rightarrow> delivery option" where
  "worker_step n s =
     (case dl_worker s n of
        NoWorker \<Rightarrow> None
      | AtLoop \<Rightarrow>
          (case ln_pending (dl_lanes s n) of
             [] \<Rightarrow> Some (work n NoWorker ((upd_lane n (\<lambda>l. l\<lparr>ln_running := False\<rparr>) s)
                     \<lparr>dl_leaving := dl_leaving s + 1\<rparr>))
           | b # rest \<Rightarrow> Some (work n (Publishing b) (upd_lane n (\<lambda>l. l\<lparr>ln_pending := rest\<rparr>) s)))
      | Publishing [] \<Rightarrow> Some (work n Releasing s)
      | Publishing (e # es) \<Rightarrow>
          Some (work n (Publishing es) (s\<lparr>dl_out := (dl_out s)(n := dl_out s n @ [e])\<rparr>))
      | Releasing \<Rightarrow> Some (work n AtLoop (release_slot n s)))"

definition worker_done :: "delivery \<Rightarrow> delivery" where
  "worker_done s = s\<lparr>dl_leaving := dl_leaving s - 1, dl_workers := dl_workers s - 1\<rparr>"

text \<open>
  \<open>CloseDelivery\<close>: its first critical section, which does nothing on a service that never
  reserved, and the state in which it then returns without an error.
\<close>

definition close_delivery :: "delivery \<Rightarrow> delivery" where
  "close_delivery s = (if dl_opened s then s\<lparr>dl_closed := True\<rparr> else s)"

definition close_returns :: "delivery \<Rightarrow> bool" where
  "close_returns s \<longleftrightarrow> \<not> dl_opened s \<or> dl_closed s \<and> dl_producers s = 0 \<and> dl_workers s = 0"

section \<open>The transition system\<close>

text \<open>Every move of a producer or a worker but the flush of a command's batch, which follows.\<close>

inductive delivery_move :: "delivery \<Rightarrow> delivery \<Rightarrow> bool" where
  enters: "dl_producer s p = Outside \<Longrightarrow> reserve_enter p n s = (x, s') \<Longrightarrow> delivery_move s s'"
| gets_slot: "dl_producer s p = Selecting n \<Longrightarrow> reserve_slot p n s = Some s' \<Longrightarrow> delivery_move s s'"
| gives_up: "dl_producer s p = Selecting n \<Longrightarrow> delivery_move s (goto p Outside s)"
| confirms: "dl_producer s p = Acquired n \<Longrightarrow> reserve_confirm p n s = (x, s') \<Longrightarrow> delivery_move s s'"
| starts: "dl_producer s p = Enqueued n \<Longrightarrow> delivery_move s (goto p (Kicked n) (start_lane n s))"
| finishes: "dl_producer s p = Kicked n \<Longrightarrow> delivery_move s (producer_done p Outside s)"
| finishes_empty: "dl_producer s p = Emptied n \<Longrightarrow> delivery_move s (producer_done p (Unslotting n) s)"
| unslots: "dl_producer s p = Unslotting n \<Longrightarrow> delivery_move s (goto p Outside (release_slot n s))"
| works: "worker_step n s = Some s' \<Longrightarrow> delivery_move s s'"
| leaves: "0 < dl_leaving s \<Longrightarrow> delivery_move s (worker_done s)"
| closes: "delivery_move s (close_delivery s)"

inductive delivery_step :: "delivery \<Rightarrow> delivery \<Rightarrow> bool" where
  moves: "delivery_move s s' \<Longrightarrow> delivery_step s s'"
| flushes: "dl_producer s p = Working n \<Longrightarrow> delivery_step s (flush_batch p n b s)"

inductive delivery_steps :: "delivery \<Rightarrow> delivery \<Rightarrow> bool" where
  no_steps: "delivery_steps s s"
| one_more: "delivery_steps s t \<Longrightarrow> delivery_step t u \<Longrightarrow> delivery_steps s u"

definition delivery_reachable :: "delivery \<Rightarrow> bool" where
  "delivery_reachable s \<longleftrightarrow> delivery_steps new_delivery s"

inductive_cases delivery_move_cases: "delivery_move s s'"

inductive_simps delivery_step_iff: "delivery_step s s'"

end
