(* ===== verification/Delivery_Laws.thy ===== *)
theory Delivery_Laws
  imports Delivery
begin

text \<open>
  The invariant of the delivery lanes and what follows from it: nothing is lost, reordered or
  published twice, the queue is bounded, and a closed service has published everything.
\<close>

section \<open>Counting processes\<close>

definition tally :: "('b \<Rightarrow> bool) \<Rightarrow> ('a \<Rightarrow> 'b) \<Rightarrow> nat" where
  "tally P f = card {x. P (f x)}"

definition settled :: "'b \<Rightarrow> ('a \<Rightarrow> 'b) \<Rightarrow> bool" where
  "settled z f \<longleftrightarrow> finite {x. f x \<noteq> z}"

lemma settled_upd [simp]: "settled z f \<Longrightarrow> settled z (f(x := y))"
  unfolding settled_def by (rule finite_subset [of _ "insert x {x. f x \<noteq> z}"]) auto

lemma tally_split:
  assumes "settled z f" and "\<not> P z"
  shows "tally P f = card {w. w \<noteq> x \<and> P (f w)} + (if P (f x) then 1 else 0)"
proof -
  let ?rest = "{w. w \<noteq> x \<and> P (f w)}"
  have "finite ?rest"
    using assms by (auto simp: settled_def elim!: rev_finite_subset)
  moreover have "{w. P (f w)} = (if P (f x) then insert x ?rest else ?rest)" by auto
  ultimately show ?thesis by (simp add: tally_def)
qed

lemma tally_upd:
  assumes "settled z f" and "\<not> P z"
  shows "tally P (f(x := y)) + (if P (f x) then 1 else 0) = tally P f + (if P y then 1 else 0)"
proof -
  have "{w. w \<noteq> x \<and> P ((f(x := y)) w)} = {w. w \<noteq> x \<and> P (f w)}" by auto
  with tally_split [where P = P and x = x and f = "f(x := y)", OF settled_upd [OF assms(1)] assms(2)]
    tally_split [where P = P and x = x and f = f, OF assms]
  show ?thesis by simp
qed

lemma tally_pos: "settled z f \<Longrightarrow> \<not> P z \<Longrightarrow> P (f x) \<Longrightarrow> 0 < tally P f"
  unfolding tally_def settled_def
  by (subst card_gt_0_iff) (auto elim!: rev_finite_subset)

section \<open>The invariant\<close>

definition owns_slot :: "config_name \<Rightarrow> producer \<Rightarrow> bool" where
  "owns_slot n pc \<longleftrightarrow> pc \<in> {Acquired n, Working n, Emptied n, Unslotting n}"

definition counted :: "producer \<Rightarrow> bool" where
  "counted pc \<longleftrightarrow> (\<exists>n. pc \<in> {Working n, Enqueued n, Kicked n, Emptied n})"

definition holds_batch :: "worker \<Rightarrow> bool" where
  "holds_batch w \<longleftrightarrow> w \<noteq> NoWorker \<and> w \<noteq> AtLoop"

fun in_hand :: "worker \<Rightarrow> recorded_event list" where
  "in_hand (Publishing es) = es"
| "in_hand w = []"

text \<open>
  The slots of a lane are held by producers, by waiting batches and by the batch being published;
  the wait groups count what they are meant to count; what was sent is what was published, then
  what the worker holds, then what waits; and waiting batches have a worker or are about to.
\<close>

definition kicking :: "config_name \<Rightarrow> (nat \<Rightarrow> producer) \<Rightarrow> bool" where
  "kicking n f \<longleftrightarrow> (\<exists>p. f p = Enqueued n)"

lemma kicking_upd: "f p \<noteq> Enqueued n \<Longrightarrow> kicking n (f(p := pc)) \<longleftrightarrow> pc = Enqueued n \<or> kicking n f"
  by (auto simp: kicking_def)

lemma kicking_other: "m \<noteq> n \<Longrightarrow> f p = Enqueued n \<Longrightarrow> kicking m (f(p := pc)) \<longleftrightarrow> pc = Enqueued m \<or> kicking m f"
  by (rule kicking_upd) simp

definition lane_ok :: "delivery \<Rightarrow> config_name \<Rightarrow> bool" where
  "lane_ok s n \<longleftrightarrow>
     ln_slots (dl_lanes s n) = tally (owns_slot n) (dl_producer s) + length (ln_pending (dl_lanes s n)) +
       (if holds_batch (dl_worker s n) then 1 else 0) \<and>
     ln_slots (dl_lanes s n) \<le> deliveryCapacity \<and>
     (ln_running (dl_lanes s n) \<longleftrightarrow> dl_worker s n \<noteq> NoWorker) \<and>
     (ln_pending (dl_lanes s n) \<noteq> [] \<longrightarrow>
        ln_running (dl_lanes s n) \<or> kicking n (dl_producer s)) \<and>
     dl_out s n @ in_hand (dl_worker s n) @ concat (ln_pending (dl_lanes s n)) = dl_sent s n"

definition counts_ok :: "delivery \<Rightarrow> bool" where
  "counts_ok s \<longleftrightarrow>
     settled Outside (dl_producer s) \<and> settled NoWorker (dl_worker s) \<and>
     dl_producers s = tally counted (dl_producer s) \<and>
     dl_workers s = tally (\<lambda>w. w \<noteq> NoWorker) (dl_worker s) + dl_leaving s \<and>
     (\<not> dl_opened s \<longrightarrow> (\<forall>p. dl_producer s p = Outside))"

definition delivery_inv :: "delivery \<Rightarrow> bool" where
  "delivery_inv s \<longleftrightarrow> counts_ok s \<and> (\<forall>n. lane_ok s n)"

lemma new_delivery_inv: "delivery_inv new_delivery"
  by (simp add: delivery_inv_def counts_ok_def lane_ok_def new_delivery_def settled_def tally_def
      owns_slot_def counted_def holds_batch_def empty_lane_def)

section \<open>Every step keeps it\<close>

lemmas move_defs = goto_def work_def upd_lane_def release_slot_def producer_done_def worker_done_def

lemma counts_okD:
  assumes "delivery_inv s"
  shows "settled Outside (dl_producer s)" "settled NoWorker (dl_worker s)"
    "dl_producers s = tally counted (dl_producer s)"
    "dl_workers s = tally (\<lambda>w. w \<noteq> NoWorker) (dl_worker s) + dl_leaving s"
    "\<not> dl_opened s \<Longrightarrow> dl_producer s p = Outside"
  using assms by (auto simp: delivery_inv_def counts_ok_def)

text \<open>What a move of one producer does to the counts.\<close>

lemma producer_moves:
  assumes "delivery_inv s"
  shows "tally (owns_slot n) ((dl_producer s)(p := pc)) + (if owns_slot n (dl_producer s p) then 1 else 0) =
      tally (owns_slot n) (dl_producer s) + (if owns_slot n pc then 1 else 0)"
    and "tally counted ((dl_producer s)(p := pc)) + (if counted (dl_producer s p) then 1 else 0) =
      tally counted (dl_producer s) + (if counted pc then 1 else 0)"
  by (rule tally_upd [OF counts_okD(1) [OF assms]], simp add: owns_slot_def counted_def)+

lemma producer_moves_pos:
  assumes "delivery_inv s"
  shows "owns_slot n (dl_producer s p) \<Longrightarrow> 0 < tally (owns_slot n) (dl_producer s)"
    and "counted (dl_producer s p) \<Longrightarrow> 0 < tally counted (dl_producer s)"
  by (rule tally_pos [OF counts_okD(1) [OF assms]]; simp add: owns_slot_def counted_def)+

lemma worker_moves:
  assumes "delivery_inv s"
  shows "tally (\<lambda>w. w \<noteq> NoWorker) ((dl_worker s)(n := w)) + (if dl_worker s n \<noteq> NoWorker then 1 else 0) =
      tally (\<lambda>w. w \<noteq> NoWorker) (dl_worker s) + (if w \<noteq> NoWorker then 1 else 0)"
  by (rule tally_upd [OF counts_okD(2) [OF assms]]) simp

lemma lane_okD: "delivery_inv s \<Longrightarrow> lane_ok s n"
  by (simp add: delivery_inv_def)

lemma delivery_invI:
  assumes "counts_ok s" and "\<And>n. lane_ok s n"
  shows "delivery_inv s"
  using assms by (simp add: delivery_inv_def)

lemma enter_inv:
  assumes "delivery_inv s" and "dl_producer s p = Outside" and "reserve_enter p n s = (x, s')"
  shows "delivery_inv s'"
proof (rule delivery_invI)
  note moves = producer_moves [OF assms(1), where p = p and pc = "Selecting n"]
  show "counts_ok s'"
    using assms moves(2) by (auto simp: reserve_enter_def Let_def counts_ok_def delivery_inv_def goto_def
        counted_def split: if_splits)
  show "lane_ok s' m" for m
    using lane_okD [OF assms(1), of m] assms(2,3) moves(1) [where n = m]
    by (auto simp: reserve_enter_def Let_def lane_ok_def goto_def owns_slot_def kicking_upd split: if_splits)
qed

lemma gives_up_inv:
  assumes "delivery_inv s" and "dl_producer s p = Selecting n"
  shows "delivery_inv (goto p Outside s)"
proof (rule delivery_invI)
  note moves = producer_moves [OF assms(1), where p = p and pc = Outside]
  show "counts_ok (goto p Outside s)"
    using assms moves(2) by (auto simp: counts_ok_def delivery_inv_def goto_def counted_def)
  show "lane_ok (goto p Outside s) m" for m
    using lane_okD [OF assms(1), of m] assms(2) moves(1) [where n = m]
    by (auto simp: lane_ok_def goto_def owns_slot_def kicking_upd)
qed

lemma gets_slot_inv:
  assumes "delivery_inv s" and "dl_producer s p = Selecting n" and "reserve_slot p n s = Some s'"
  shows "delivery_inv s'"
proof (rule delivery_invI)
  note moves = producer_moves [OF assms(1), where p = p and pc = "Acquired n"]
  have "dl_opened s" using counts_okD(5) [OF assms(1), of p] assms(2) by auto
  then show "counts_ok s'"
    using assms moves(2) by (auto simp: reserve_slot_def counts_ok_def delivery_inv_def move_defs
        counted_def split: if_splits)
  show "lane_ok s' m" for m
    using lane_okD [OF assms(1), of m] assms(2,3) moves(1) [where n = m]
    by (auto simp: reserve_slot_def lane_ok_def move_defs owns_slot_def kicking_upd split: if_splits)
qed

lemma confirms_inv:
  assumes "delivery_inv s" and "dl_producer s p = Acquired n" and "reserve_confirm p n s = (x, s')"
  shows "delivery_inv s'"
proof (rule delivery_invI)
  note out = producer_moves [OF assms(1), where p = p and pc = Outside]
    and inn = producer_moves [OF assms(1), where p = p and pc = "Working n"]
  have "dl_opened s" using counts_okD(5) [OF assms(1), of p] assms(2) by auto
  then show "counts_ok s'"
    using assms out(2) inn(2) by (auto simp: reserve_confirm_def counts_ok_def delivery_inv_def move_defs
        counted_def split: if_splits)
  show "lane_ok s' m" for m
  proof (cases "dl_closed s")
    case True
    then have s': "s' = goto p Outside (release_slot n s)" using assms(3) by (simp add: reserve_confirm_def)
    show ?thesis
      unfolding s' using lane_okD [OF assms(1), of m] assms(2) out(1) [where n = m]
      by (cases "m = n") (auto simp: lane_ok_def move_defs owns_slot_def kicking_upd)
  next
    case False
    then have s': "s' = goto p (Working n) (s\<lparr>dl_producers := dl_producers s + 1\<rparr>)"
      using assms(3) by (simp add: reserve_confirm_def)
    show ?thesis
      unfolding s' using lane_okD [OF assms(1), of m] assms(2) inn(1) [where n = m]
      by (cases "m = n") (auto simp: lane_ok_def move_defs owns_slot_def kicking_upd)
  qed
qed

lemma flush_inv:
  assumes "delivery_inv s" and "dl_producer s p = Working n"
  shows "delivery_inv (flush_batch p n b s)"
proof (rule delivery_invI)
  note empty = producer_moves [OF assms(1), where p = p and pc = "Emptied n"]
    and full = producer_moves [OF assms(1), where p = p and pc = "Enqueued n"]
  have "dl_opened s" using counts_okD(5) [OF assms(1), of p] assms(2) by auto
  then show "counts_ok (flush_batch p n b s)"
    using assms empty(2) full(2) by (auto simp: flush_batch_def enqueue_def counts_ok_def delivery_inv_def
        move_defs counted_def)
  note ok = lane_okD [OF assms(1)]
  show "lane_ok (flush_batch p n b s) m" for m
    using ok [of m] assms(2) empty(1) [where n = m] full(1) [where n = m]
    by (auto simp: flush_batch_def enqueue_def lane_ok_def move_defs owns_slot_def kicking_upd)
qed

lemma starts_inv:
  assumes "delivery_inv s" and "dl_producer s p = Enqueued n"
  shows "delivery_inv (goto p (Kicked n) (start_lane n s))"
proof (rule delivery_invI)
  note moves = producer_moves [OF assms(1), where p = p and pc = "Kicked n"]
  have opened: "dl_opened s" using counts_okD(5) [OF assms(1), of p] assms(2) by auto
  note ok = lane_okD [OF assms(1)]
  show "counts_ok (goto p (Kicked n) (start_lane n s))"
    using assms(2) opened moves(2) worker_moves [OF assms(1), of n AtLoop] ok [of n] counts_okD [OF assms(1)]
    by (auto simp: start_lane_def counts_ok_def lane_ok_def move_defs counted_def)
  show "lane_ok (goto p (Kicked n) (start_lane n s)) m" for m
    using ok [of m] assms(2) moves(1) [where n = m]
    by (cases "m = n")
       (auto simp: start_lane_def lane_ok_def move_defs owns_slot_def holds_batch_def kicking_other)
qed

lemma finishes_inv:
  assumes "delivery_inv s" and "dl_producer s p = Kicked n"
  shows "delivery_inv (producer_done p Outside s)"
proof (rule delivery_invI)
  note moves = producer_moves [OF assms(1), where p = p and pc = Outside]
  show "counts_ok (producer_done p Outside s)"
    using assms moves(2) by (auto simp: counts_ok_def delivery_inv_def move_defs counted_def)
  show "lane_ok (producer_done p Outside s) m" for m
    using lane_okD [OF assms(1), of m] assms(2) moves(1) [where n = m]
    by (auto simp: lane_ok_def move_defs owns_slot_def kicking_upd)
qed

lemma finishes_empty_inv:
  assumes "delivery_inv s" and "dl_producer s p = Emptied n"
  shows "delivery_inv (producer_done p (Unslotting n) s)"
proof (rule delivery_invI)
  note moves = producer_moves [OF assms(1), where p = p and pc = "Unslotting n"]
  have "dl_opened s" using counts_okD(5) [OF assms(1), of p] assms(2) by auto
  then show "counts_ok (producer_done p (Unslotting n) s)"
    using assms moves(2) by (auto simp: counts_ok_def delivery_inv_def move_defs counted_def)
  show "lane_ok (producer_done p (Unslotting n) s) m" for m
    using lane_okD [OF assms(1), of m] assms(2) moves(1) [where n = m]
    by (auto simp: lane_ok_def move_defs owns_slot_def kicking_upd)
qed

lemma unslots_inv:
  assumes "delivery_inv s" and "dl_producer s p = Unslotting n"
  shows "delivery_inv (goto p Outside (release_slot n s))"
proof (rule delivery_invI)
  note moves = producer_moves [OF assms(1), where p = p and pc = Outside]
  show "counts_ok (goto p Outside (release_slot n s))"
    using assms moves(2) by (auto simp: counts_ok_def delivery_inv_def move_defs counted_def)
  show "lane_ok (goto p Outside (release_slot n s)) m" for m
    using lane_okD [OF assms(1), of m] assms(2) moves(1) [where n = m]
    by (auto simp: lane_ok_def move_defs owns_slot_def kicking_upd)
qed

lemma works_inv:
  assumes "delivery_inv s" and "worker_step n s = Some s'"
  shows "delivery_inv s'"
proof (rule delivery_invI)
  note moves = worker_moves [OF assms(1), of n] and counts = counts_okD [OF assms(1)]
  have same: "dl_producer s' = dl_producer s" "dl_producers s' = dl_producers s" "dl_opened s' = dl_opened s"
    using assms(2) by (auto simp: worker_step_def move_defs split: worker.splits list.splits)
  show "counts_ok s'"
  proof (cases "dl_worker s n")
    case AtLoop
    then show ?thesis
      using assms(2) moves [of NoWorker] moves [of "Publishing (hd (ln_pending (dl_lanes s n)))"] counts
      by (cases "ln_pending (dl_lanes s n)") (auto simp: worker_step_def move_defs counts_ok_def)
  next
    case (Publishing es)
    then show ?thesis
      using assms(2) moves [of Releasing] moves [of "Publishing (tl es)"] counts
      by (cases es) (auto simp: worker_step_def move_defs counts_ok_def)
  next
    case Releasing
    then show ?thesis
      using assms(2) moves [of AtLoop] counts by (auto simp: worker_step_def move_defs counts_ok_def)
  qed (use assms(2) in \<open>simp add: worker_step_def\<close>)
  show "lane_ok s' m" for m
  proof (cases "m = n")
    case False
    then have "dl_lanes s' m = dl_lanes s m \<and> dl_worker s' m = dl_worker s m \<and>
        dl_out s' m = dl_out s m \<and> dl_sent s' m = dl_sent s m"
      using assms(2) by (auto simp: worker_step_def move_defs split: worker.splits list.splits)
    then have "lane_ok s' m = lane_ok s m" by (simp add: lane_ok_def same)
    with lane_okD [OF assms(1), of m] show ?thesis by simp
  next
    case True
    have ok: "lane_ok s n" by (rule lane_okD [OF assms(1)])
    show ?thesis
    proof (cases "dl_worker s n")
      case AtLoop
      with ok assms(2) True show ?thesis
        by (cases "ln_pending (dl_lanes s n)")
           (auto simp: worker_step_def lane_ok_def move_defs holds_batch_def)
    next
      case (Publishing es)
      with ok assms(2) True show ?thesis
        by (cases es) (auto simp: worker_step_def lane_ok_def move_defs holds_batch_def)
    next
      case Releasing
      with ok assms(2) True show ?thesis
        by (auto simp: worker_step_def lane_ok_def move_defs holds_batch_def)
    qed (use assms(2) in \<open>simp add: worker_step_def\<close>)
  qed
qed

lemma leaves_inv:
  assumes "delivery_inv s" and "0 < dl_leaving s"
  shows "delivery_inv (worker_done s)"
proof (rule delivery_invI)
  show "counts_ok (worker_done s)"
    using assms by (auto simp: delivery_inv_def counts_ok_def worker_done_def)
  show "lane_ok (worker_done s) m" for m
  proof -
    have "lane_ok (worker_done s) m = lane_ok s m" by (simp add: lane_ok_def worker_done_def)
    with lane_okD [OF assms(1), of m] show ?thesis by simp
  qed
qed

lemma closes_inv:
  assumes "delivery_inv s"
  shows "delivery_inv (close_delivery s)"
proof (rule delivery_invI)
  show "counts_ok (close_delivery s)"
    using assms by (simp add: delivery_inv_def counts_ok_def close_delivery_def)
  show "lane_ok (close_delivery s) m" for m
  proof -
    have "lane_ok (close_delivery s) m = lane_ok s m" by (simp add: lane_ok_def close_delivery_def)
    with lane_okD [OF assms, of m] show ?thesis by simp
  qed
qed

lemma delivery_move_inv: "delivery_move s s' \<Longrightarrow> delivery_inv s \<Longrightarrow> delivery_inv s'"
  by (erule delivery_move.cases)
     (auto intro: enter_inv gets_slot_inv gives_up_inv confirms_inv starts_inv finishes_inv
        finishes_empty_inv unslots_inv works_inv leaves_inv closes_inv)

lemma delivery_step_inv: "delivery_step s s' \<Longrightarrow> delivery_inv s \<Longrightarrow> delivery_inv s'"
  by (auto simp: delivery_step_iff intro: delivery_move_inv flush_inv)

lemma delivery_reachable_inv:
  assumes "delivery_reachable s"
  shows "delivery_inv s"
proof -
  have "delivery_steps t s \<Longrightarrow> delivery_inv t \<Longrightarrow> delivery_inv s" for t
    by (induction rule: delivery_steps.induct) (auto intro: delivery_step_inv)
  then show ?thesis using assms new_delivery_inv by (auto simp: delivery_reachable_def)
qed

section \<open>Draining\<close>

text \<open>What is left to do for the worker of a lane, in worker steps.\<close>

fun batch_work :: "recorded_event list \<Rightarrow> nat" where
  "batch_work b = length b + 3"

fun hand_work :: "worker \<Rightarrow> nat" where
  "hand_work NoWorker = 0"
| "hand_work AtLoop = 1"
| "hand_work Releasing = 2"
| "hand_work (Publishing es) = length es + 3"

definition lane_work :: "config_name \<Rightarrow> delivery \<Rightarrow> nat" where
  "lane_work n s = hand_work (dl_worker s n) + sum_list (map batch_work (ln_pending (dl_lanes s n)))"

lemma worker_step_work: "worker_step n s = Some s' \<Longrightarrow> lane_work n s = lane_work n s' + 1"
  by (auto simp: worker_step_def lane_work_def move_defs split: worker.splits list.splits)

lemma worker_step_none: "worker_step n s = None \<longleftrightarrow> dl_worker s n = NoWorker"
  by (auto simp: worker_step_def split: worker.splits list.splits)

lemma worker_step_sent: "worker_step n s = Some s' \<Longrightarrow> dl_sent s' = dl_sent s"
  by (auto simp: worker_step_def move_defs split: worker.splits list.splits)

text \<open>The worker alone: its loop, as many steps as it takes.\<close>

fun run_worker :: "nat \<Rightarrow> config_name \<Rightarrow> delivery \<Rightarrow> delivery" where
  "run_worker 0 n s = s"
| "run_worker (Suc k) n s = (case worker_step n s of None \<Rightarrow> s | Some s' \<Rightarrow> run_worker k n s')"

lemma run_worker_inv: "delivery_inv s \<Longrightarrow> delivery_inv (run_worker k n s)"
proof (induction k arbitrary: s)
  case (Suc k)
  then show ?case using works_inv [of s n] by (cases "worker_step n s") simp_all
qed simp

lemma run_worker_sent: "dl_sent (run_worker k n s) = dl_sent s"
proof (induction k arbitrary: s)
  case (Suc k)
  then show ?case using worker_step_sent [of n s] by (cases "worker_step n s") simp_all
qed simp

lemma run_worker_ends: "lane_work n s \<le> k \<Longrightarrow> dl_worker (run_worker k n s) n = NoWorker"
proof (induction k arbitrary: s)
  case 0
  then show ?case by (cases "dl_worker s n") (auto simp: lane_work_def)
next
  case (Suc k)
  show ?case
  proof (cases "worker_step n s")
    case None
    then show ?thesis using worker_step_none [of n s] by simp
  next
    case (Some s')
    then show ?thesis using Suc worker_step_work [OF Some] by simp
  qed
qed

lemma run_worker_empties:
  assumes "dl_worker s n \<noteq> NoWorker" and "lane_work n s \<le> k"
  shows "ln_pending (dl_lanes (run_worker k n s) n) = []"
  using assms
proof (induction k arbitrary: s)
  case 0
  then show ?case by (cases "dl_worker s n") (auto simp: lane_work_def)
next
  case (Suc k)
  then obtain s' where s': "worker_step n s = Some s'" using worker_step_none [of n s] by auto
  show ?case
  proof (cases "dl_worker s' n = NoWorker")
    case True
    then have "ln_pending (dl_lanes s' n) = []"
      using s' by (auto simp: worker_step_def move_defs split: worker.splits list.splits)
    moreover have "worker_step n s' = None" using True worker_step_none [of n s'] by simp
    then have "run_worker k n s' = s'" by (cases k) simp_all
    ultimately show ?thesis by (simp add: s')
  next
    case False
    then show ?thesis using Suc s' worker_step_work [OF s'] by simp
  qed
qed

lemma run_worker_delivers:
  assumes "delivery_inv s" and "dl_worker s n \<noteq> NoWorker"
  shows "dl_worker (run_worker (lane_work n s) n s) n = NoWorker"
    "dl_out (run_worker (lane_work n s) n s) n = dl_sent s n"
proof -
  let ?t = "run_worker (lane_work n s) n s"
  show stop: "dl_worker ?t n = NoWorker" by (rule run_worker_ends) simp
  show "dl_out ?t n = dl_sent s n"
    using lane_okD [OF run_worker_inv [OF assms(1)], of "lane_work n s" n n]
      run_worker_empties [OF assms(2) order_refl] stop
    by (simp add: lane_ok_def run_worker_sent)
qed

text \<open>A worker only stops on an empty lane.\<close>

lemma stopped_empty:
  assumes "delivery_inv s" and "dl_worker s n = NoWorker" and "\<not> kicking n (dl_producer s)"
  shows "ln_pending (dl_lanes s n) = []" "dl_out s n = dl_sent s n"
  using lane_okD [OF assms(1), of n] assms(2,3) by (auto simp: lane_ok_def)

lemma close_returns_drained:
  assumes "delivery_inv s" and "close_returns s" and "dl_opened s"
  shows "dl_out s n = dl_sent s n"
proof -
  note counts = counts_okD [OF assms(1)]
  have closed: "dl_producers s = 0" "dl_workers s = 0" using assms(2,3) by (simp_all add: close_returns_def)
  have "\<not> kicking n (dl_producer s)"
  proof
    assume "kicking n (dl_producer s)"
    then obtain p where "dl_producer s p = Enqueued n" by (auto simp: kicking_def)
    then have "counted (dl_producer s p)" by (simp add: counted_def)
    from producer_moves_pos(2) [OF assms(1) this] counts(3) closed(1) show False by simp
  qed
  moreover have "dl_worker s n = NoWorker"
    using tally_pos [OF counts(2), of "\<lambda>w. w \<noteq> NoWorker" n] counts(4) closed by auto
  ultimately show ?thesis using stopped_empty [OF assms(1)] by blast
qed

text \<open>Nothing is sent after a close has returned.\<close>

lemma closed_quiet:
  assumes "delivery_inv s" and "dl_closed s" and "dl_producers s = 0" and "dl_workers s = 0"
  shows "\<not> counted (dl_producer s p)" "dl_worker s n = NoWorker" "dl_leaving s = 0"
  using producer_moves_pos(2) [OF assms(1), of p] counts_okD(3,4) [OF assms(1)] assms(3,4)
    tally_pos [OF counts_okD(2) [OF assms(1)], of "\<lambda>w. w \<noteq> NoWorker" n]
  by auto

lemma closed_step:
  assumes "delivery_step s s'" and "delivery_inv s"
    and closed: "dl_closed s" "dl_producers s = 0" "dl_workers s = 0"
  shows "dl_closed s' \<and> dl_producers s' = 0 \<and> dl_workers s' = 0 \<and> dl_sent s' = dl_sent s"
proof -
  note quiet = closed_quiet [OF assms(2) closed]
  have no: "dl_producer s p \<noteq> Working n" "dl_producer s p \<noteq> Enqueued n" "dl_producer s p \<noteq> Kicked n"
    "dl_producer s p \<noteq> Emptied n" for p n
    using quiet(1) [of p] by (auto simp: counted_def)
  have "worker_step n s = None" for n using quiet(2) worker_step_none by blast
  with assms(1) quiet(3) closed show ?thesis
    by (auto simp: delivery_step_iff no reserve_enter_def Let_def reserve_slot_def reserve_confirm_def
        move_defs close_delivery_def split: if_splits elim!: delivery_move_cases)
qed

end
