(* ===== verification/Delivery_System.thy ===== *)
theory Delivery_System
  imports Delivery_Laws Service_System
begin

text \<open>
  Commands and delivery together: what a command generates under its configuration's lock is what
  its lane publishes, in that order.
\<close>

section \<open>The interface\<close>

text \<open>
  What the application relies on: a channel that hands over what was sent, in order, and
  completely when it is at rest.
\<close>

locale ordered_delivery =
  fixes ok :: "'s \<Rightarrow> bool"
    and sent :: "'s \<Rightarrow> 'n \<Rightarrow> 'a list"
    and out :: "'s \<Rightarrow> 'n \<Rightarrow> 'a list"
    and at_rest :: "'s \<Rightarrow> 'n \<Rightarrow> bool"
  assumes in_order: "ok s \<Longrightarrow> prefix (out s n) (sent s n)"
    and complete: "ok s \<Longrightarrow> at_rest s n \<Longrightarrow> out s n = sent s n"
begin

lemma only_sent: "ok s \<Longrightarrow> set (out s n) \<subseteq> set (sent s n)"
  by (rule set_mono_prefix [OF in_order])

lemma at_most_once: "ok s \<Longrightarrow> count_list (out s n) e \<le> count_list (sent s n) e"
  using in_order [of s n] by (auto simp: prefix_def)

lemma kept_order: "ok s \<Longrightarrow> k < length (out s n) \<Longrightarrow> out s n ! k = sent s n ! k"
  using in_order [of s n] by (auto simp: prefix_def nth_append)

end

definition lane_at_rest :: "delivery \<Rightarrow> config_name \<Rightarrow> bool" where
  "lane_at_rest s n \<longleftrightarrow> dl_worker s n = NoWorker \<and> \<not> kicking n (dl_producer s)"

interpretation lanes: ordered_delivery delivery_inv dl_sent dl_out lane_at_rest
proof unfold_locales
  fix s n assume inv: "delivery_inv s"
  have "dl_out s n @ in_hand (dl_worker s n) @ concat (ln_pending (dl_lanes s n)) = dl_sent s n"
    using lane_okD [OF inv, of n] by (simp add: lane_ok_def)
  then show "prefix (dl_out s n) (dl_sent s n)" by (metis prefixI)
  show "lane_at_rest s n \<Longrightarrow> dl_out s n = dl_sent s n"
    using stopped_empty(2) [OF inv] by (simp add: lane_at_rest_def)
qed

section \<open>The composed system\<close>

text \<open>One locked section of a command or a tick, with the configuration whose lane it uses.\<close>

inductive locked_step ::
  "'e deps \<Rightarrow> config_name \<Rightarrow> 'e service \<Rightarrow> recorded_event list \<Rightarrow> 'e service \<Rightarrow> bool"
  for d :: "'e deps" where
  run_start: "Start_locked d ctx now n cmd s = (x, evs, s') \<Longrightarrow> locked_step d n s evs s'"
| run_backfill: "Backfill_locked d ctx now n bcmd s = (x, evs, s') \<Longrightarrow> locked_step d n s evs s'"
| run_stop: "tk_configurationName (sv_heap s r) = n \<Longrightarrow> Stop_locked d ctx i r s = (y, evs, s') \<Longrightarrow>
    locked_step d n s evs s'"
| run_accept: "tk_configurationName (sv_heap s r) = n \<Longrightarrow> Accept_locked d ctx now acmd r s = (y, evs, s') \<Longrightarrow>
    locked_step d n s evs s'"
| run_tick: "Tick_locked d ctx now n s = (y, evs, s') \<Longrightarrow> locked_step d n s evs s'"

lemma locked_step_service: "locked_step d n s evs s' \<Longrightarrow> service_step d s evs s'"
  by (erule locked_step.cases) (blast intro: service_step.intros)+

text \<open>
  The command of a producer runs and flushes its batch under the lock; everything else is
  interleaved. The trace lists the batches with their lanes.
\<close>

inductive system_run ::
  "'e deps \<Rightarrow> 'e service \<Rightarrow> (config_name \<times> recorded_event list) list \<Rightarrow> 'e service \<Rightarrow> delivery \<Rightarrow> bool"
  for d :: "'e deps" and s0 :: "'e service" where
  run_begin: "system_run d s0 [] s0 new_delivery"
| run_command: "system_run d s0 tr s dl \<Longrightarrow> dl_producer dl p = Working n \<Longrightarrow> locked_step d n s evs s' \<Longrightarrow>
    system_run d s0 (tr @ [(n, evs)]) s' (flush_batch p n evs dl)"
| run_delivery: "system_run d s0 tr s dl \<Longrightarrow> delivery_move dl dl' \<Longrightarrow> system_run d s0 tr s dl'"
| run_engine: "system_run d s0 tr s dl \<Longrightarrow> EngineFor n s = Inr eng \<Longrightarrow> system_run d s0 tr (Register n eng' s) dl"

definition generated :: "(config_name \<times> recorded_event list) list \<Rightarrow> config_name \<Rightarrow> recorded_event list" where
  "generated tr n = concat [evs. (m, evs) \<leftarrow> tr, m = n]"

lemma generated_snoc:
  "generated (tr @ [(m, evs)]) n = generated tr n @ (if m = n then evs else [])"
  by (simp add: generated_def)

lemma delivery_move_sent: "delivery_move s s' \<Longrightarrow> dl_sent s' = dl_sent s"
  by (auto simp: reserve_enter_def Let_def reserve_slot_def reserve_confirm_def start_lane_def move_defs
      close_delivery_def worker_step_sent split: if_splits elim!: delivery_move_cases)

lemma flush_sent: "dl_sent (flush_batch p n b s) = (dl_sent s)(n := dl_sent s n @ b)"
  by (auto simp: flush_batch_def enqueue_def goto_def upd_lane_def)

lemma system_run_parts:
  assumes "system_run d s0 tr s dl"
  shows "(\<exists>evs. service_steps d s0 evs s) \<and> delivery_reachable dl \<and> dl_sent dl = generated tr"
  using assms
proof (induction rule: system_run.induct)
  case run_begin
  have "dl_sent new_delivery = generated []"
    by (rule ext) (simp add: new_delivery_def generated_def)
  then show ?case by (auto simp: delivery_reachable_def intro: steps_done no_steps)
next
  case (run_command tr s dl p n evs s')
  have "generated (tr @ [(n, evs)]) = (dl_sent dl)(n := dl_sent dl n @ evs)"
    using run_command.IH by (auto simp: generated_snoc)
  then show ?case
    using run_command locked_step_service [OF run_command.hyps(3)]
    by (auto simp: flush_sent delivery_reachable_def intro: steps_more one_more flushes)
next
  case (run_delivery tr s dl dl')
  then show ?case
    by (auto simp: delivery_move_sent delivery_reachable_def intro: one_more moves)
next
  case (run_engine tr s dl n eng eng')
  then show ?case by (blast intro: steps_more step_engine)
qed

end
