(* ===== verification/Delivery_Props.thy ===== *)
theory Delivery_Props
  imports Delivery_System Sample_World
begin

text \<open>
  The properties of event delivery: order, completeness, bounds, draining and closing.
\<close>

section \<open>A sample run\<close>

text \<open>One command gets a lane, runs, flushes its batch and starts the worker.\<close>

definition sample_event :: recorded_event where
  "sample_event = \<lparr>re_event = NewMatchmakingSucceeded ''c'' ''m'' [''a''] 5, re_snapshot = Map.empty\<rparr>"

definition sample_working :: delivery where
  "sample_working =
     (let s1 = snd (reserve_enter 0 ''c'' new_delivery); s2 = the (reserve_slot 0 ''c'' s1)
      in snd (reserve_confirm 0 ''c'' s2))"

definition sample_kicked :: "recorded_event list \<Rightarrow> delivery" where
  "sample_kicked b = goto 0 (Kicked ''c'') (start_lane ''c'' (flush_batch 0 ''c'' b sample_working))"

lemmas delivery_run_defs = new_delivery_def empty_lane_def reserve_enter_def reserve_slot_def
  reserve_confirm_def goto_def work_def upd_lane_def release_slot_def flush_batch_def enqueue_def
  start_lane_def producer_done_def worker_step_def worker_done_def close_delivery_def close_returns_def
  deliveryCapacity_def sample_event_def sample_working_def sample_kicked_def Let_def

lemma sample_moves:
  "delivery_move new_delivery (snd (reserve_enter 0 ''c'' new_delivery))"
  "delivery_move (snd (reserve_enter 0 ''c'' new_delivery))
     (the (reserve_slot 0 ''c'' (snd (reserve_enter 0 ''c'' new_delivery))))"
  "delivery_move (the (reserve_slot 0 ''c'' (snd (reserve_enter 0 ''c'' new_delivery)))) sample_working"
proof -
  let ?s1 = "snd (reserve_enter 0 ''c'' new_delivery)"
  let ?s2 = "the (reserve_slot 0 ''c'' ?s1)"
  have "reserve_enter 0 ''c'' new_delivery = (None, ?s1)" "dl_producer ?s1 0 = Selecting ''c''"
    "reserve_slot 0 ''c'' ?s1 = Some ?s2" "dl_producer ?s2 0 = Acquired ''c''"
    "reserve_confirm 0 ''c'' ?s2 = (None, sample_working)"
    by (simp_all add: delivery_run_defs)
  note run = this
  show "delivery_move new_delivery ?s1" by (rule enters [OF _ run(1)]) (simp add: new_delivery_def)
  show "delivery_move ?s1 ?s2" by (rule gets_slot [OF run(2,3)])
  show "delivery_move ?s2 sample_working" by (rule confirms [OF run(4,5)])
qed

lemma sample_working_at: "dl_producer sample_working 0 = Working ''c''"
  by (simp add: delivery_run_defs)

lemma sample_kicks:
  assumes "b \<noteq> []"
  shows "delivery_move (flush_batch 0 ''c'' b sample_working) (sample_kicked b)"
  unfolding sample_kicked_def
  by (rule starts) (use assms in \<open>simp add: flush_batch_def goto_def\<close>)

lemma sample_kicked_reachable:
  assumes "b \<noteq> []"
  shows "delivery_reachable (sample_kicked b)"
proof -
  have "delivery_steps new_delivery sample_working"
    using sample_moves by (blast intro: no_steps one_more moves)
  then have "delivery_steps new_delivery (flush_batch 0 ''c'' b sample_working)"
    by (rule one_more) (rule flushes [OF sample_working_at])
  then show ?thesis
    unfolding delivery_reachable_def using sample_kicks [OF assms] by (blast intro: one_more moves)
qed

section \<open>Order\<close>

text \<open>
  C4. What the publisher of a configuration has been handed, followed by what its worker holds and
  what waits in its queue, is exactly what the commands and ticks of the configuration generated,
  in the order in which they held its lock: nothing is lost, reordered, duplicated or taken from
  another configuration, however producers, workers and shutdown interleave.
\<close>

theorem published_in_generation_order:
  assumes "system_run d s0 tr s dl"
  shows "dl_out dl n @ in_hand (dl_worker dl n) @ concat (ln_pending (dl_lanes dl n)) = generated tr n \<and>
    prefix (dl_out dl n) (generated tr n) \<and> (\<exists>evs. service_steps d s0 evs s)"
proof -
  note parts = system_run_parts [OF assms]
  then have inv: "delivery_inv dl" using delivery_reachable_inv by blast
  then have "dl_out dl n @ in_hand (dl_worker dl n) @ concat (ln_pending (dl_lanes dl n)) = dl_sent dl n"
    using lane_okD [OF inv, of n] by (simp add: lane_ok_def)
  with parts lanes.in_order [OF inv, of n] show ?thesis by simp
qed

theorem published_in_generation_order_witness:
  "case Start_locked toy_deps None 10 ''c''
      \<lparr>sc_ConfigurationName = ''c'', sc_TicketID = ''a'', sc_Players = [toy_player ''p'']\<rparr> toy_service of
     (x, evs, s') \<Rightarrow> length evs = 1 \<and>
       concat (ln_pending (dl_lanes (sample_kicked evs) ''c'')) = generated [(''c'', evs)] ''c''"
proof -
  let ?cmd = "\<lparr>sc_ConfigurationName = ''c'', sc_TicketID = ''a'', sc_Players = [toy_player ''p'']\<rparr>"
  obtain x evs s' where r: "Start_locked toy_deps None 10 ''c'' ?cmd toy_service = (x, evs, s')"
    by (metis prod_cases3)
  have "length (fst (snd (Start_locked toy_deps None 10 ''c'' ?cmd toy_service))) = 1"
    by (simp add: run_defs)
  then have len: "length evs = 1" by (simp add: r)
  then have ne: "evs \<noteq> []" by auto
  have "system_run toy_deps toy_service [] toy_service sample_working"
    using sample_moves by (blast intro: run_begin run_delivery)
  from run_command [OF this sample_working_at run_start [OF r]]
  have "system_run toy_deps toy_service [(''c'', evs)] s' (flush_batch 0 ''c'' evs sample_working)" by simp
  then have run: "system_run toy_deps toy_service [(''c'', evs)] s' (sample_kicked evs)"
    by (rule run_delivery) (rule sample_kicks [OF ne])
  have "dl_out (sample_kicked evs) ''c'' = []" "dl_worker (sample_kicked evs) ''c'' = AtLoop"
    using ne by (simp_all add: delivery_run_defs)
  with published_in_generation_order [OF run, of "''c''"] len show ?thesis by (simp add: r)
qed

section \<open>Bounds\<close>

text \<open>
  C8. A lane never holds more than 64 batches: the waiting batches and the one being published,
  with the commands that hold a slot, fill at most the capacity of its slot channel.
\<close>

theorem delivery_bounded:
  assumes "delivery_reachable s"
  shows "length (ln_pending (dl_lanes s n)) + (if holds_batch (dl_worker s n) then 1 else 0) +
      card {p. owns_slot n (dl_producer s p)} = ln_slots (dl_lanes s n) \<and>
    ln_slots (dl_lanes s n) \<le> 64"
  using lane_okD [OF delivery_reachable_inv [OF assms], of n]
  by (simp add: lane_ok_def tally_def deliveryCapacity_def)

theorem delivery_bounded_witness:
  "length (ln_pending (dl_lanes (sample_kicked [sample_event]) ''c'')) = 1 \<and>
   ln_slots (dl_lanes (sample_kicked [sample_event]) ''c'') = 1 \<and>
   card {p. owns_slot ''c'' (dl_producer (sample_kicked [sample_event]) p)} = 0"
proof -
  have "length (ln_pending (dl_lanes (sample_kicked [sample_event]) ''c'')) = 1"
    "ln_slots (dl_lanes (sample_kicked [sample_event]) ''c'') = 1"
    by (simp_all add: delivery_run_defs)
  with delivery_bounded [OF sample_kicked_reachable, of "[sample_event]" "''c''"] show ?thesis by simp
qed

section \<open>Progress\<close>

text \<open>
  C9. A waiting batch is never forgotten: its lane has a worker, or the command that queued a
  batch is about to start one. The loop of a worker terminates: left alone it publishes
  everything that was sent and stops, after the number of steps that the waiting batches fix.
\<close>

theorem worker_drains_lane:
  assumes "delivery_reachable s"
  shows "if dl_worker s n = NoWorker
    then ln_pending (dl_lanes s n) = [] \<or> (\<exists>p. dl_producer s p = Enqueued n)
    else dl_worker (run_worker (lane_work n s) n s) n = NoWorker \<and>
      dl_out (run_worker (lane_work n s) n s) n = dl_sent s n"
  using lane_okD [OF delivery_reachable_inv [OF assms], of n]
    run_worker_delivers [OF delivery_reachable_inv [OF assms]]
  by (auto simp: lane_ok_def kicking_def)

theorem worker_drains_lane_witness:
  "lane_work ''c'' (sample_kicked [sample_event, sample_event]) = 6 \<and>
   dl_out (run_worker 6 ''c'' (sample_kicked [sample_event, sample_event])) ''c'' = [sample_event, sample_event]"
proof -
  let ?s = "sample_kicked [sample_event, sample_event]"
  have "dl_worker ?s ''c'' \<noteq> NoWorker" "lane_work ''c'' ?s = 6"
    "dl_sent ?s ''c'' = [sample_event, sample_event]"
    by (simp_all add: delivery_run_defs lane_work_def)
  with worker_drains_lane [OF sample_kicked_reachable, of "[sample_event, sample_event]" "''c''"]
  show ?thesis by simp
qed

section \<open>Shutdown\<close>

text \<open>
  When CloseDelivery has returned without an error on a service that was in use, everything
  that was ever sent has been published, and this stays so: no later step sends anything.
\<close>

theorem close_delivers_everything:
  assumes "delivery_reachable s" and "close_returns s" and "dl_opened s" and "delivery_steps s t"
  shows "dl_out t n = dl_sent s n \<and> dl_sent t n = dl_sent s n \<and> close_returns t"
proof -
  have start: "delivery_inv s" "dl_closed s" "dl_producers s = 0" "dl_workers s = 0"
    using delivery_reachable_inv [OF assms(1)] assms(2,3) by (simp_all add: close_returns_def)
  from assms(4) start have "delivery_inv t \<and> dl_closed t \<and> dl_producers t = 0 \<and> dl_workers t = 0 \<and>
      dl_sent t = dl_sent s"
    by (induction rule: delivery_steps.induct) (auto dest: closed_step delivery_step_inv)
  then have t: "delivery_inv t" "close_returns t" "dl_sent t = dl_sent s"
    and rest: "lane_at_rest t n"
    using closed_quiet [of t] by (auto simp: close_returns_def lane_at_rest_def kicking_def counted_def)
  with lanes.complete [OF t(1) rest] show ?thesis by simp
qed

lemma run_worker_steps: "delivery_steps r u \<Longrightarrow> delivery_steps r (run_worker k n u)"
proof (induction k arbitrary: u)
  case (Suc k)
  show ?case
  proof (cases "worker_step n u")
    case (Some u')
    then show ?thesis using Suc.IH one_more [OF Suc.prems moves [OF works [OF Some]]] by simp
  qed (use Suc.prems in simp)
qed simp

definition sample_closed :: delivery where
  "sample_closed = worker_done (run_worker 5 ''c''
     (close_delivery (producer_done 0 Outside (sample_kicked [sample_event]))))"

theorem close_delivers_everything_witness:
  "close_returns sample_closed \<and> dl_out sample_closed ''c'' = [sample_event]"
proof -
  let ?s1 = "close_delivery (producer_done 0 Outside (sample_kicked [sample_event]))"
  have "delivery_move (sample_kicked [sample_event]) (producer_done 0 Outside (sample_kicked [sample_event]))"
    by (rule finishes [where n = "''c''"]) (simp add: delivery_run_defs)
  moreover have "delivery_steps new_delivery (sample_kicked [sample_event])"
    using sample_kicked_reachable [of "[sample_event]"] by (simp add: delivery_reachable_def)
  ultimately have "delivery_steps new_delivery ?s1"
    by (rule one_more [OF one_more [OF _ moves] moves [OF closes], rotated])
  then have "delivery_steps new_delivery (run_worker 5 ''c'' ?s1)" by (rule run_worker_steps)
  then have reach: "delivery_reachable sample_closed"
    unfolding delivery_reachable_def sample_closed_def
    by (rule one_more [OF _ moves [OF leaves]]) (simp add: delivery_run_defs numeral_eq_Suc)
  have "close_returns sample_closed" "dl_opened sample_closed" "dl_sent sample_closed ''c'' = [sample_event]"
    by (simp_all add: sample_closed_def delivery_run_defs numeral_eq_Suc)
  with close_delivers_everything [OF reach _ _ no_steps, of "''c''"] show ?thesis by simp
qed

end
