(* ===== verification/Delivery_Calls.thy ===== *)
theory Delivery_Calls
  imports Delivery_Laws
begin

text \<open>
  The callers of the delivery: a command that waits for the done channel of its batch at the end
  of \<open>releaseAndFlush\<close>, and \<open>CloseDelivery\<close> with its two waits and the expiry of its context. Their
  states are laid over the lanes of \<open>Delivery\<close>: each batch has a channel of its own, which its
  worker closes after the batch's last event.
\<close>

section \<open>State\<close>

text \<open>A channel is a number, the index of its batch among all batches ever enqueued.\<close>

type_synonym channel = nat

datatype closer =
    NotClosing
  | AwaitProducers
  | AwaitWorkers
  | Draining
  | Closed "err option"

text \<open>
  \<open>cl_queue\<close> and \<open>cl_hand\<close> have the channels of the waiting batches and of the batch a worker
  holds; \<open>cl_done\<close> lists the closed channels of a lane, the last one closed at the end.
  \<open>cl_mine\<close> is the channel of the batch a command enqueued last, \<open>cl_wait\<close> what it waits for.
  \<open>cl_batch\<close> and \<open>cl_live\<close> are histories: the events of the batches, and the events handed to the
  publisher while the context of the deliveries was not cancelled.
\<close>

record calls =
  cl_delivery :: delivery
  cl_queue :: "config_name \<Rightarrow> channel list"
  cl_hand :: "config_name \<Rightarrow> channel option"
  cl_done :: "config_name \<Rightarrow> channel list"
  cl_next :: channel
  cl_mine :: "nat \<Rightarrow> channel"
  cl_wait :: "nat \<Rightarrow> (config_name \<times> channel) option"
  cl_batch :: "channel \<Rightarrow> recorded_event list"
  cl_closer :: "nat \<Rightarrow> closer"
  cl_cancelled :: bool
  cl_live :: "config_name \<Rightarrow> recorded_event list"

definition new_calls :: calls where
  "new_calls = \<lparr>cl_delivery = new_delivery, cl_queue = (\<lambda>_. []), cl_hand = (\<lambda>_. None), cl_done = (\<lambda>_. []),
     cl_next = 0, cl_mine = (\<lambda>_. 0), cl_wait = (\<lambda>_. None), cl_batch = (\<lambda>_. []), cl_closer = (\<lambda>_. NotClosing),
     cl_cancelled = False, cl_live = (\<lambda>_. [])\<rparr>"

section \<open>Commands and workers\<close>

text \<open>\<open>releaseAndFlush\<close> under the lock: a batch with events is queued with a fresh channel.\<close>

definition flush_call :: "nat \<Rightarrow> config_name \<Rightarrow> recorded_event list \<Rightarrow> calls \<Rightarrow> calls" where
  "flush_call p n b s =
     (let d = flush_batch p n b (cl_delivery s); k = cl_next s in
      if b = [] then s\<lparr>cl_delivery := d\<rparr>
      else s\<lparr>cl_delivery := d, cl_queue := (cl_queue s)(n := cl_queue s n @ [k]), cl_next := Suc k,
             cl_mine := (cl_mine s)(p := k), cl_batch := (cl_batch s)(k := b)\<rparr>)"

text \<open>The end of \<open>releaseAndFlush\<close>: out of the wait group, into the wait for the channel.\<close>

definition await_call :: "nat \<Rightarrow> config_name \<Rightarrow> calls \<Rightarrow> calls" where
  "await_call p n s =
     s\<lparr>cl_delivery := producer_done p Outside (cl_delivery s), cl_wait := (cl_wait s)(p \<mapsto> (n, cl_mine s p))\<rparr>"

text \<open>One step of a worker, with the channel of the batch it takes and closes.\<close>

definition worker_call :: "config_name \<Rightarrow> calls \<Rightarrow> calls option" where
  "worker_call n s =
     (case worker_step n (cl_delivery s) of
        None \<Rightarrow> None
      | Some d \<Rightarrow>
          Some (let t = s\<lparr>cl_delivery := d\<rparr> in
            case dl_worker (cl_delivery s) n of
              AtLoop \<Rightarrow>
                (case cl_queue s n of
                   [] \<Rightarrow> t
                 | k # ks \<Rightarrow> t\<lparr>cl_queue := (cl_queue s)(n := ks), cl_hand := (cl_hand s)(n := Some k)\<rparr>)
            | Publishing [] \<Rightarrow>
                (case cl_hand s n of
                   None \<Rightarrow> t
                 | Some k \<Rightarrow> t\<lparr>cl_hand := (cl_hand s)(n := None), cl_done := (cl_done s)(n := cl_done s n @ [k])\<rparr>)
            | Publishing (e # es) \<Rightarrow>
                if cl_cancelled s then t else t\<lparr>cl_live := (cl_live s)(n := cl_live s n @ [e])\<rparr>
            | _ \<Rightarrow> t))"

section \<open>Closing\<close>

definition set_closer :: "nat \<Rightarrow> closer \<Rightarrow> calls \<Rightarrow> calls" where
  "set_closer c x s = s\<lparr>cl_closer := (cl_closer s)(c := x)\<rparr>"

definition close_enter :: "nat \<Rightarrow> calls \<Rightarrow> calls" where
  "close_enter c s =
     (if dl_opened (cl_delivery s)
      then set_closer c AwaitProducers (s\<lparr>cl_delivery := close_delivery (cl_delivery s)\<rparr>)
      else set_closer c (Closed None) s)"

definition cancel_delivery :: "calls \<Rightarrow> calls" where
  "cancel_delivery s = s\<lparr>cl_cancelled := True\<rparr>"

text \<open>
  The waits of \<open>CloseDelivery\<close>. A wait that is over goes on, a context that expires while it lasts
  cancels the deliveries: at once an error in the first wait, in the second one after the workers.
\<close>

definition close_proceed :: "nat \<Rightarrow> calls \<Rightarrow> calls option" where
  "close_proceed c s =
     (case cl_closer s c of
        AwaitProducers \<Rightarrow>
          if dl_producers (cl_delivery s) = 0 then Some (set_closer c AwaitWorkers s) else None
      | AwaitWorkers \<Rightarrow>
          if dl_workers (cl_delivery s) = 0 then Some (set_closer c (Closed None) (cancel_delivery s)) else None
      | Draining \<Rightarrow>
          if dl_workers (cl_delivery s) = 0 then Some (set_closer c (Closed (Some ErrContext)) s) else None
      | _ \<Rightarrow> None)"

definition close_expire :: "nat \<Rightarrow> calls \<Rightarrow> calls option" where
  "close_expire c s =
     (case cl_closer s c of
        AwaitProducers \<Rightarrow> Some (set_closer c (Closed (Some ErrContext)) (cancel_delivery s))
      | AwaitWorkers \<Rightarrow> Some (set_closer c Draining (cancel_delivery s))
      | _ \<Rightarrow> None)"

section \<open>The transition system\<close>

text \<open>The moves of the lanes that concern neither a worker nor a channel.\<close>

inductive lane_move :: "delivery \<Rightarrow> delivery \<Rightarrow> bool" where
  lane_slot: "dl_producer s p = Selecting n \<Longrightarrow> reserve_slot p n s = Some s' \<Longrightarrow> lane_move s s'"
| lane_gives_up: "dl_producer s p = Selecting n \<Longrightarrow> lane_move s (goto p Outside s)"
| lane_confirms: "dl_producer s p = Acquired n \<Longrightarrow> reserve_confirm p n s = (x, s') \<Longrightarrow> lane_move s s'"
| lane_starts: "dl_producer s p = Enqueued n \<Longrightarrow> lane_move s (goto p (Kicked n) (start_lane n s))"
| lane_empty: "dl_producer s p = Emptied n \<Longrightarrow> lane_move s (producer_done p (Unslotting n) s)"
| lane_unslots: "dl_producer s p = Unslotting n \<Longrightarrow> lane_move s (goto p Outside (release_slot n s))"
| lane_leaves: "0 < dl_leaving s \<Longrightarrow> lane_move s (worker_done s)"

text \<open>A command that waits cannot start another one; its wait ends with the channel or its context.\<close>

inductive call_step :: "calls \<Rightarrow> calls \<Rightarrow> bool" where
  call_enters: "dl_producer (cl_delivery s) p = Outside \<Longrightarrow> cl_wait s p = None \<Longrightarrow>
    reserve_enter p n (cl_delivery s) = (x, d) \<Longrightarrow> call_step s (s\<lparr>cl_delivery := d\<rparr>)"
| call_moves: "lane_move (cl_delivery s) d \<Longrightarrow> call_step s (s\<lparr>cl_delivery := d\<rparr>)"
| call_flushes: "dl_producer (cl_delivery s) p = Working n \<Longrightarrow> call_step s (flush_call p n b s)"
| call_awaits: "dl_producer (cl_delivery s) p = Kicked n \<Longrightarrow> call_step s (await_call p n s)"
| call_works: "worker_call n s = Some s' \<Longrightarrow> call_step s s'"
| call_returns: "cl_wait s p = Some (n, k) \<Longrightarrow> k \<in> set (cl_done s n) \<Longrightarrow> call_step s (s\<lparr>cl_wait := (cl_wait s)(p := None)\<rparr>)"
| call_expires: "cl_wait s p = Some (n, k) \<Longrightarrow> call_step s (s\<lparr>cl_wait := (cl_wait s)(p := None)\<rparr>)"
| call_closes: "cl_closer s c = NotClosing \<Longrightarrow> call_step s (close_enter c s)"
| call_proceeds: "close_proceed c s = Some s' \<Longrightarrow> call_step s s'"
| call_close_expires: "close_expire c s = Some s' \<Longrightarrow> call_step s s'"

inductive call_reachable :: "calls \<Rightarrow> bool" where
  calls_begin: "call_reachable new_calls"
| calls_more: "call_reachable s \<Longrightarrow> call_step s s' \<Longrightarrow> call_reachable s'"

end
