(* ===== verification/Call_Laws.thy ===== *)
theory Call_Laws
  imports Delivery_Calls
begin

text \<open>
  The invariant of the callers: the channels follow the batches through queue, worker and
  publisher, and a single call of \<open>CloseDelivery\<close> only ends well with everything published.
\<close>

section \<open>Channels\<close>

text \<open>What the publisher of a lane has got: the batches whose channels are closed, and a part of the one in hand.\<close>

definition hand_ok :: "calls \<Rightarrow> config_name \<Rightarrow> bool" where
  "hand_ok s n \<longleftrightarrow>
     (let out = dl_out (cl_delivery s) n; finished = concat (map (cl_batch s) (cl_done s n)) in
      case dl_worker (cl_delivery s) n of
        Publishing es \<Rightarrow> (\<exists>k pre. cl_hand s n = Some k \<and> cl_batch s k = pre @ es \<and> out = finished @ pre)
      | _ \<Rightarrow> cl_hand s n = None \<and> out = finished)"

definition channels :: "calls \<Rightarrow> config_name \<Rightarrow> channel set" where
  "channels s n = set (cl_done s n) \<union> set_option (cl_hand s n) \<union> set (cl_queue s n)"

definition lane_calls_ok :: "calls \<Rightarrow> config_name \<Rightarrow> bool" where
  "lane_calls_ok s n \<longleftrightarrow>
     map (cl_batch s) (cl_queue s n) = ln_pending (dl_lanes (cl_delivery s) n) \<and> hand_ok s n \<and>
     channels s n \<subseteq> {..< cl_next s}"

definition callers_ok :: "calls \<Rightarrow> bool" where
  "callers_ok s \<longleftrightarrow>
     (\<forall>p n k. cl_wait s p = Some (n, k) \<longrightarrow> k \<in> channels s n) \<and>
     (\<forall>p n. dl_producer (cl_delivery s) p \<in> {Enqueued n, Kicked n} \<longrightarrow> cl_mine s p \<in> channels s n)"

definition calls_inv :: "calls \<Rightarrow> bool" where
  "calls_inv s \<longleftrightarrow> delivery_reachable (cl_delivery s) \<and> (\<forall>n. lane_calls_ok s n) \<and> callers_ok s"

lemma hand_ok_cong:
  assumes "cl_batch s' = cl_batch s" "cl_hand s' n = cl_hand s n" "cl_done s' n = cl_done s n"
    "dl_worker (cl_delivery s') n = dl_worker (cl_delivery s) n" "dl_out (cl_delivery s') n = dl_out (cl_delivery s) n"
  shows "hand_ok s' n = hand_ok s n"
  using assms by (simp add: hand_ok_def Let_def split: worker.split)

lemma calls_invD:
  assumes "calls_inv s"
  shows "delivery_reachable (cl_delivery s)" "lane_calls_ok s n" "callers_ok s"
  using assms by (simp_all add: calls_inv_def)

lemma new_calls_inv: "calls_inv new_calls"
proof -
  have "delivery_reachable new_delivery" by (simp add: delivery_reachable_def no_steps)
  then show ?thesis
    by (simp add: calls_inv_def lane_calls_ok_def hand_ok_def channels_def callers_ok_def new_calls_def
        new_delivery_def empty_lane_def)
qed

lemma reachable_more: "delivery_reachable s \<Longrightarrow> delivery_step s s' \<Longrightarrow> delivery_reachable s'"
  unfolding delivery_reachable_def by (rule one_more)

lemma lane_move_delivery: "lane_move s s' \<Longrightarrow> delivery_move s s'"
  by (induction rule: lane_move.induct) (blast intro: delivery_move.intros)+

text \<open>
  A move of the lanes changes no queue and no publisher, starts a worker at its loop, and brings
  a command only to places where it has a channel already.
\<close>

definition same_lane :: "delivery \<Rightarrow> delivery \<Rightarrow> bool" where
  "same_lane s s' \<longleftrightarrow> dl_out s' = dl_out s \<and> dl_sent s' = dl_sent s \<and>
     (\<forall>n. ln_pending (dl_lanes s' n) = ln_pending (dl_lanes s n)) \<and>
     (\<forall>n. dl_worker s' n = dl_worker s n \<or> dl_worker s n = NoWorker \<and> dl_worker s' n = AtLoop) \<and>
     (\<forall>p n. dl_producer s' p \<in> {Enqueued n, Kicked n} \<longrightarrow> dl_producer s p \<in> {Enqueued n, Kicked n})"

lemma same_laneD:
  assumes "same_lane s s'"
  shows "dl_out s' = dl_out s" "dl_sent s' = dl_sent s" "ln_pending (dl_lanes s' n) = ln_pending (dl_lanes s n)"
    "dl_worker s' n = dl_worker s n \<or> dl_worker s n = NoWorker \<and> dl_worker s' n = AtLoop"
    "dl_producer s' p \<in> {Enqueued n, Kicked n} \<Longrightarrow> dl_producer s p \<in> {Enqueued n, Kicked n}"
  using assms unfolding same_lane_def by blast+

lemma start_lane_same:
  assumes "delivery_inv s" and "dl_producer s p = Enqueued n"
  shows "same_lane s (goto p (Kicked n) (start_lane n s))"
proof -
  have "ln_running (dl_lanes s n) \<longleftrightarrow> dl_worker s n \<noteq> NoWorker"
    using lane_okD [OF assms(1), of n] by (simp add: lane_ok_def)
  with assms(2) show ?thesis by (auto simp: same_lane_def start_lane_def move_defs)
qed

lemma lane_move_same:
  assumes "lane_move s s'" and "delivery_inv s"
  shows "same_lane s s'"
  using assms
proof (induction rule: lane_move.induct)
  case (lane_starts s p n)
  then show ?case by (intro start_lane_same)
qed (auto simp: same_lane_def reserve_slot_def reserve_confirm_def move_defs split: if_splits)

lemma same_lane_inv:
  assumes "calls_inv s" and "same_lane (cl_delivery s) d" and "delivery_reachable d"
  shows "calls_inv (s\<lparr>cl_delivery := d\<rparr>)"
proof -
  note same = same_laneD [OF assms(2)]
  have "lane_calls_ok (s\<lparr>cl_delivery := d\<rparr>) n" for n
    using calls_invD(2) [OF assms(1), of n] same(1) same(3,4) [of n]
    by (auto simp: lane_calls_ok_def hand_ok_def channels_def Let_def split: worker.splits)
  moreover have "callers_ok (s\<lparr>cl_delivery := d\<rparr>)"
    using calls_invD(3) [OF assms(1)] same(5) by (simp add: callers_ok_def channels_def) blast
  ultimately show ?thesis using assms(3) by (simp add: calls_inv_def)
qed

text \<open>A new batch gets a channel that nothing refers to yet.\<close>

lemma fresh_channel:
  assumes "lane_calls_ok s m"
  shows "cl_next s \<notin> set (cl_done s m)" "cl_next s \<notin> set (cl_queue s m)" "cl_hand s m \<noteq> Some (cl_next s)"
  using assms by (auto simp: lane_calls_ok_def channels_def)

lemma flush_call_inv:
  assumes "calls_inv s" and "dl_producer (cl_delivery s) p = Working n"
  shows "calls_inv (flush_call p n b s)"
proof (cases "b = []")
  case True
  have "same_lane (cl_delivery s) (flush_batch p n b (cl_delivery s))"
    using True assms(2) by (auto simp: same_lane_def flush_batch_def goto_def)
  moreover have "delivery_reachable (flush_batch p n b (cl_delivery s))"
    by (rule reachable_more [OF calls_invD(1) [OF assms(1)] flushes [OF assms(2)]])
  ultimately show ?thesis
    using same_lane_inv [OF assms(1)] True by (simp add: flush_call_def Let_def)
next
  case False
  let ?s = "flush_call p n b s"
  note defs = flush_call_def Let_def flush_batch_def enqueue_def goto_def upd_lane_def
  have reach: "delivery_reachable (cl_delivery ?s)"
    using reachable_more [OF calls_invD(1) [OF assms(1)] flushes [OF assms(2), where b = b]] False
    by (simp add: flush_call_def Let_def)
  have "lane_calls_ok ?s m" for m
  proof -
    have ok: "lane_calls_ok s m" by (rule calls_invD(2) [OF assms(1)])
    note fresh = fresh_channel [OF ok]
    have "hand_ok s m" using ok by (simp add: lane_calls_ok_def)
    then have hand: "hand_ok ?s m"
      using False fresh by (auto simp: hand_ok_def defs split: worker.splits)
    have pending: "map (cl_batch s) (cl_queue s m) = ln_pending (dl_lanes (cl_delivery s) m)"
      and below: "channels s m \<subseteq> {..< cl_next s}"
      using ok by (simp_all add: lane_calls_ok_def)
    have "channels ?s m \<subseteq> {..< cl_next ?s}"
      using below False by (auto simp: channels_def defs)
    moreover have "map (cl_batch ?s) (cl_queue ?s m) = ln_pending (dl_lanes (cl_delivery ?s) m)"
      using pending fresh False by (auto simp: defs)
    ultimately show ?thesis using hand by (simp add: lane_calls_ok_def)
  qed
  moreover have "callers_ok ?s"
    using calls_invD(3) [OF assms(1)] False unfolding callers_ok_def
    by (auto simp: channels_def defs)
  ultimately show ?thesis using reach by (simp add: calls_inv_def)
qed

lemma waits_inv:
  assumes "calls_inv s" and "\<And>q m k. w q = Some (m, k) \<Longrightarrow> k \<in> channels s m"
  shows "calls_inv (s\<lparr>cl_wait := w\<rparr>)"
proof -
  have "hand_ok (s\<lparr>cl_wait := w\<rparr>) n = hand_ok s n" "channels (s\<lparr>cl_wait := w\<rparr>) n = channels s n" for n
    by (rule hand_ok_cong, simp_all add: channels_def)
  then show ?thesis using assms by (simp add: calls_inv_def lane_calls_ok_def callers_ok_def)
qed

lemma wait_channel: "calls_inv s \<Longrightarrow> cl_wait s p = Some (n, k) \<Longrightarrow> k \<in> channels s n"
  unfolding calls_inv_def callers_ok_def by blast

lemma await_inv:
  assumes "calls_inv s" and "dl_producer (cl_delivery s) p = Kicked n"
  shows "calls_inv (await_call p n s)"
proof -
  let ?d = "producer_done p Outside (cl_delivery s)"
  have "same_lane (cl_delivery s) ?d" by (auto simp: same_lane_def producer_done_def goto_def)
  moreover have "delivery_reachable ?d"
    by (rule reachable_more [OF calls_invD(1) [OF assms(1)] moves [OF finishes [OF assms(2)]]])
  ultimately have inv: "calls_inv (s\<lparr>cl_delivery := ?d\<rparr>)" by (rule same_lane_inv [OF assms(1)])
  have mine: "cl_mine s p \<in> channels (s\<lparr>cl_delivery := ?d\<rparr>) n"
    using calls_invD(3) [OF assms(1)] assms(2) unfolding callers_ok_def by (simp add: channels_def)
  have "calls_inv (s\<lparr>cl_delivery := ?d\<rparr>\<lparr>cl_wait := (cl_wait s)(p \<mapsto> (n, cl_mine s p))\<rparr>)"
    by (rule waits_inv [OF inv]) (use mine wait_channel [OF inv] in \<open>auto split: if_splits\<close>)
  then show ?thesis by (simp add: await_call_def)
qed

text \<open>A worker moves the channels of its lane along: from the queue to its hand to the closed ones.\<close>

lemma worker_call_delivery:
  "worker_call n s = Some s' \<Longrightarrow> worker_step n (cl_delivery s) = Some (cl_delivery s')"
  by (auto simp: worker_call_def Let_def split: option.splits worker.splits list.splits)

lemma worker_call_channels:
  assumes "worker_call n s = Some s'" and "lane_calls_ok s n"
  shows "channels s' m = channels s m"
proof -
  have "cl_queue s n = [] \<longleftrightarrow> ln_pending (dl_lanes (cl_delivery s) n) = []"
    using assms(2) by (auto simp: lane_calls_ok_def)
  moreover have "dl_worker (cl_delivery s) n = AtLoop \<Longrightarrow> cl_hand s n = None"
    using assms(2) by (simp add: lane_calls_ok_def hand_ok_def Let_def)
  ultimately show ?thesis
    using assms(1)
    by (auto simp: worker_call_def channels_def Let_def split: option.splits worker.splits list.splits if_splits)
qed

text \<open>What a step of a worker does to its own lane, and that it leaves the others alone.\<close>

lemma worker_call_own:
  assumes "worker_call n s = Some s'" and "lane_calls_ok s n"
  shows "map (cl_batch s') (cl_queue s' n) = ln_pending (dl_lanes (cl_delivery s') n) \<and> hand_ok s' n"
proof -
  have pending: "map (cl_batch s) (cl_queue s n) = ln_pending (dl_lanes (cl_delivery s) n)" and hand: "hand_ok s n"
    using assms(2) by (simp_all add: lane_calls_ok_def)
  note defs = worker_call_def worker_step_def hand_ok_def move_defs Let_def
  show ?thesis
  proof (cases "dl_worker (cl_delivery s) n")
    case AtLoop
    then show ?thesis using assms(1) hand
      by (cases "cl_queue s n") (auto simp: defs pending [symmetric])
  next
    case (Publishing es)
    then show ?thesis using assms(1) pending hand by (cases es) (auto simp: defs)
  next
    case Releasing
    then show ?thesis using assms(1) pending hand by (auto simp: defs)
  qed (use assms(1) in \<open>simp add: defs\<close>)
qed

lemma worker_step_fields:
  assumes "worker_step n d = Some d'"
  shows "dl_producer d' = dl_producer d" "dl_closed d' = dl_closed d" "dl_producers d' = dl_producers d" "m \<noteq> n \<Longrightarrow> dl_worker d' m = dl_worker d m"
    "m \<noteq> n \<Longrightarrow> dl_lanes d' m = dl_lanes d m" "m \<noteq> n \<Longrightarrow> dl_out d' m = dl_out d m"
  using assms by (auto simp: worker_step_def move_defs split: worker.splits list.splits)

lemma worker_call_fields:
  assumes "worker_call n s = Some s'"
  shows "cl_batch s' = cl_batch s" "cl_next s' = cl_next s" "cl_mine s' = cl_mine s" "cl_wait s' = cl_wait s"
    "cl_closer s' = cl_closer s" "cl_cancelled s' = cl_cancelled s"
    "m \<noteq> n \<Longrightarrow> cl_queue s' m = cl_queue s m" "m \<noteq> n \<Longrightarrow> cl_hand s' m = cl_hand s m"
    "m \<noteq> n \<Longrightarrow> cl_done s' m = cl_done s m"
  using assms
  by (auto simp: worker_call_def Let_def split: option.splits worker.splits list.splits if_splits)

lemma worker_call_other:
  assumes "worker_call n s = Some s'" and "m \<noteq> n"
  shows "hand_ok s' m = hand_ok s m" "cl_queue s' m = cl_queue s m"
    "ln_pending (dl_lanes (cl_delivery s') m) = ln_pending (dl_lanes (cl_delivery s) m)"
proof -
  note same = worker_call_fields(1,7-9) [OF assms(1)] worker_step_fields(4-6) [OF worker_call_delivery [OF assms(1)]]
  show "hand_ok s' m = hand_ok s m" by (rule hand_ok_cong) (simp_all add: same assms(2))
  show "cl_queue s' m = cl_queue s m"
    "ln_pending (dl_lanes (cl_delivery s') m) = ln_pending (dl_lanes (cl_delivery s) m)"
    by (simp_all add: same assms(2))
qed

lemma worker_inv:
  assumes "calls_inv s" and "worker_call n s = Some s'"
  shows "calls_inv s'"
proof -
  note ok = calls_invD(2) [OF assms(1)] and fields = worker_call_fields [OF assms(2)]
  note chans = worker_call_channels [OF assms(2) ok]
  have "delivery_reachable (cl_delivery s')"
    by (rule reachable_more [OF calls_invD(1) [OF assms(1)] moves [OF works [OF worker_call_delivery [OF assms(2)]]]])
  moreover have "lane_calls_ok s' m" for m
    using ok [of m] worker_call_own [OF assms(2) ok] worker_call_other [OF assms(2), of m]
    by (cases "m = n") (simp_all add: lane_calls_ok_def chans fields(1,2))
  moreover have "callers_ok s'"
    using calls_invD(3) [OF assms(1)] worker_step_fields(1) [OF worker_call_delivery [OF assms(2)]]
    by (simp add: callers_ok_def chans fields(3,4))
  ultimately show ?thesis by (simp add: calls_inv_def)
qed

section \<open>Closing\<close>

text \<open>The steps of a closer touch only the closing flag of the lanes.\<close>

lemma closing_inv:
  assumes "calls_inv s" and "d = cl_delivery s \<or> d = close_delivery (cl_delivery s)"
  shows "calls_inv (s\<lparr>cl_delivery := d, cl_cancelled := x, cl_closer := c\<rparr>)"
proof -
  have "same_lane (cl_delivery s) d"
    using assms(2) by (cases "dl_opened (cl_delivery s)") (auto simp: same_lane_def close_delivery_def)
  moreover have "delivery_reachable d"
    using assms(2) calls_invD(1) [OF assms(1)] by (auto intro: reachable_more moves closes)
  ultimately have "calls_inv (s\<lparr>cl_delivery := d\<rparr>)" by (rule same_lane_inv [OF assms(1)])
  moreover have "hand_ok (t\<lparr>cl_cancelled := x, cl_closer := c\<rparr>) n = hand_ok t n" for t n
    by (rule hand_ok_cong) simp_all
  ultimately show ?thesis
    by (simp add: calls_inv_def lane_calls_ok_def callers_ok_def channels_def)
qed

lemma close_inv:
  assumes "calls_inv s"
  shows "calls_inv (close_enter c s)" "close_proceed c s = Some s' \<Longrightarrow> calls_inv s'"
    "close_expire c s = Some s' \<Longrightarrow> calls_inv s'"
proof -
  note keep = closing_inv [OF assms disjI1 [OF refl]]
  note same = keep [where x = "cl_cancelled s", simplified] and stop = keep [where x = True]
  show "calls_inv (close_enter c s)"
    using same closing_inv [OF assms disjI2 [OF refl], where x = "cl_cancelled s"]
    by (simp add: close_enter_def set_closer_def)
  show "close_proceed c s = Some s' \<Longrightarrow> calls_inv s'"
    using same stop
    by (auto simp: close_proceed_def set_closer_def cancel_delivery_def split: closer.splits if_splits)
  show "close_expire c s = Some s' \<Longrightarrow> calls_inv s'"
    using stop by (auto simp: close_expire_def set_closer_def cancel_delivery_def split: closer.splits)
qed

lemma call_step_inv: "call_step s s' \<Longrightarrow> calls_inv s \<Longrightarrow> calls_inv s'"
proof (induction rule: call_step.induct)
  case (call_enters s p n x d)
  have "same_lane (cl_delivery s) d"
    using call_enters.hyps by (auto simp: same_lane_def reserve_enter_def Let_def goto_def split: if_splits)
  moreover have "delivery_reachable d"
    by (rule reachable_more [OF calls_invD(1) moves [OF enters]]) (fact call_enters)+
  ultimately show ?case by (rule same_lane_inv [OF call_enters.prems])
next
  case (call_moves s d)
  note reach = calls_invD(1) [OF call_moves.prems]
  show ?case
    by (rule same_lane_inv [OF call_moves.prems lane_move_same [OF call_moves.hyps delivery_reachable_inv [OF reach]]
          reachable_more [OF reach moves [OF lane_move_delivery [OF call_moves.hyps]]]])
next
  case (call_returns s p n k)
  show ?case by (rule waits_inv [OF call_returns.prems])
      (use wait_channel [OF call_returns.prems] in \<open>auto split: if_splits\<close>)
next
  case (call_expires s p n k)
  show ?case by (rule waits_inv [OF call_expires.prems])
      (use wait_channel [OF call_expires.prems] in \<open>auto split: if_splits\<close>)
next
  case (call_flushes s p n b)
  show ?case by (rule flush_call_inv [OF call_flushes.prems call_flushes.hyps])
next
  case (call_awaits s p n)
  show ?case by (rule await_inv [OF call_awaits.prems call_awaits.hyps])
next
  case (call_works n s s')
  show ?case by (rule worker_inv [OF call_works.prems call_works.hyps])
next
  case (call_closes s c)
  show ?case by (rule close_inv(1) [OF call_closes.prems])
next
  case (call_proceeds c s s')
  show ?case by (rule close_inv(2) [OF call_proceeds.prems call_proceeds.hyps])
next
  case (call_close_expires c s s')
  show ?case by (rule close_inv(3) [OF call_close_expires.prems call_close_expires.hyps])
qed

lemma call_reachable_inv: "call_reachable s \<Longrightarrow> calls_inv s"
  by (induction rule: call_reachable.induct) (auto intro: new_calls_inv call_step_inv)

section \<open>A single call of \<open>CloseDelivery\<close>\<close>

text \<open>
  Every other step leaves the closers and the two flags alone, adds no producer once the lanes are
  closed, does nothing any more once they are drained, and hands over events in a live context as
  long as there is one.
\<close>

definition undisturbed :: "calls \<Rightarrow> calls \<Rightarrow> bool" where
  "undisturbed s s' \<longleftrightarrow>
     (let d = cl_delivery s; d' = cl_delivery s' in
      cl_closer s' = cl_closer s \<and> cl_cancelled s' = cl_cancelled s \<and> dl_closed d' = dl_closed d \<and>
      (dl_closed d \<longrightarrow> dl_producers d' \<le> dl_producers d) \<and>
      (dl_closed d \<and> dl_producers d = 0 \<and> dl_workers d = 0 \<longrightarrow>
         dl_workers d' = 0 \<and> dl_out d' = dl_out d \<and> cl_live s' = cl_live s) \<and>
      (\<not> cl_cancelled s \<and> cl_live s = dl_out d \<longrightarrow> cl_live s' = dl_out d'))"

lemma undisturbed_lanes:
  assumes "dl_out d = dl_out (cl_delivery s)"
    and "dl_closed d = dl_closed (cl_delivery s)"
    and "dl_closed d \<Longrightarrow> dl_producers d \<le> dl_producers (cl_delivery s)"
    and "dl_producers (cl_delivery s) = 0 \<Longrightarrow> dl_workers (cl_delivery s) = 0 \<Longrightarrow> dl_workers d = 0"
  shows "undisturbed s (s\<lparr>cl_delivery := d\<rparr>)"
  using assms by (simp add: undisturbed_def Let_def)

lemma lane_move_undisturbed:
  assumes "lane_move s s'" and "delivery_inv s"
  shows "dl_closed s' = dl_closed s" "dl_closed s \<Longrightarrow> dl_producers s' \<le> dl_producers s"
    "dl_producers s = 0 \<Longrightarrow> dl_workers s = 0 \<Longrightarrow> dl_workers s' = 0"
proof -
  have no: "dl_producers s = 0 \<Longrightarrow> dl_producer s p \<noteq> Enqueued n" for p n
    using producer_moves_pos(2) [OF assms(2), of p] counts_okD(3) [OF assms(2)] by (auto simp: counted_def)
  show "dl_closed s' = dl_closed s" "dl_closed s \<Longrightarrow> dl_producers s' \<le> dl_producers s"
    "dl_producers s = 0 \<Longrightarrow> dl_workers s = 0 \<Longrightarrow> dl_workers s' = 0"
    using assms(1) no
    by (auto simp: reserve_slot_def reserve_confirm_def start_lane_def move_defs split: if_splits elim!: lane_move.cases)
qed

lemma worker_undisturbed:
  assumes "worker_call n s = Some s'" and "calls_inv s"
  shows "undisturbed s s'"
proof -
  let ?d = "cl_delivery s"
  have step: "worker_step n ?d = Some (cl_delivery s')" by (rule worker_call_delivery [OF assms(1)])
  have inv: "delivery_inv ?d" by (rule delivery_reachable_inv [OF calls_invD(1) [OF assms(2)]])
  have "\<not> (dl_closed ?d \<and> dl_producers ?d = 0 \<and> dl_workers ?d = 0)"
    using closed_quiet(2) [OF inv, of n] worker_step_none [of n ?d] step by auto
  moreover have "dl_closed (cl_delivery s') = dl_closed ?d \<and> dl_producers (cl_delivery s') = dl_producers ?d"
    using worker_step_fields(2,3) [OF step] by simp
  moreover have "cl_live s' = dl_out (cl_delivery s')" if "\<not> cl_cancelled s" "cl_live s = dl_out ?d"
    using assms(1) that
    by (auto simp: worker_call_def worker_step_def move_defs Let_def
        split: option.splits worker.splits list.splits)
  ultimately show ?thesis using worker_call_fields(5,6) [OF assms(1)] by (auto simp: undisturbed_def Let_def)
qed

text \<open>The steps of the closers.\<close>

definition closing_step :: "nat \<Rightarrow> calls \<Rightarrow> calls \<Rightarrow> bool" where
  "closing_step c s s' \<longleftrightarrow>
     cl_closer s c = NotClosing \<and> s' = close_enter c s \<or> close_proceed c s = Some s' \<or> close_expire c s = Some s'"

lemma call_step_kinds:
  assumes "call_step s s'" and "calls_inv s"
  shows "undisturbed s s' \<or> (\<exists>c. closing_step c s s')"
  using assms
proof (induction rule: call_step.induct)
  case (call_enters s p n x d)
  then have "undisturbed s (s\<lparr>cl_delivery := d\<rparr>)"
    by (intro undisturbed_lanes) (auto simp: reserve_enter_def Let_def goto_def split: if_splits)
  then show ?case ..
next
  case (call_moves s d)
  have inv: "delivery_inv (cl_delivery s)" by (rule delivery_reachable_inv [OF calls_invD(1) [OF call_moves.prems]])
  have "undisturbed s (s\<lparr>cl_delivery := d\<rparr>)"
    using lane_move_undisturbed [OF call_moves.hyps inv] same_laneD(1) [OF lane_move_same [OF call_moves.hyps inv]]
    by (intro undisturbed_lanes) simp_all
  then show ?case ..
next
  case (call_flushes s p n b)
  have "undisturbed s (flush_call p n b s)"
    by (simp add: undisturbed_def flush_call_def flush_batch_def enqueue_def goto_def upd_lane_def Let_def)
  then show ?case ..
next
  case (call_awaits s p n)
  have "undisturbed s (await_call p n s)"
    by (simp add: undisturbed_def await_call_def producer_done_def goto_def Let_def)
  then show ?case ..
next
  case (call_works n s s')
  then show ?case using worker_undisturbed by blast
next
  case (call_returns s p n k)
  show ?case by (rule disjI1) (simp add: undisturbed_def)
next
  case (call_expires s p n k)
  show ?case by (rule disjI1) (simp add: undisturbed_def)
qed (auto simp: closing_step_def)

text \<open>What holds at each point of the only call there is.\<close>

definition closer_ok :: "calls \<Rightarrow> closer \<Rightarrow> bool" where
  "closer_ok s x \<longleftrightarrow>
     (let d = cl_delivery s; fresh = (\<not> cl_cancelled s \<and> cl_live s = dl_out d) in
      case x of
        NotClosing \<Rightarrow> \<not> dl_closed d \<and> fresh
      | AwaitProducers \<Rightarrow> dl_closed d \<and> fresh
      | AwaitWorkers \<Rightarrow> dl_closed d \<and> dl_producers d = 0 \<and> fresh
      | Draining \<Rightarrow> dl_closed d \<and> dl_producers d = 0
      | Closed None \<Rightarrow>
          if dl_closed d then dl_producers d = 0 \<and> dl_workers d = 0 \<and> cl_live s = dl_out d else fresh
      | Closed (Some e) \<Rightarrow> dl_closed d)"

lemma closer_ok_undisturbed:
  "undisturbed s s' \<Longrightarrow> closer_ok s x \<Longrightarrow> closer_ok s' x"
  by (auto simp: undisturbed_def closer_ok_def Let_def split: closer.splits option.splits if_splits)

lemma closer_ok_closing:
  assumes "closing_step c s s'" and "closer_ok s (cl_closer s c)"
  shows "closer_ok s' (cl_closer s' c)"
  using assms
  by (auto simp: closing_step_def closer_ok_def close_enter_def close_proceed_def close_expire_def set_closer_def
      cancel_delivery_def close_delivery_def Let_def split: closer.splits if_splits)

lemma closing_others: "closing_step c s s' \<Longrightarrow> c' \<noteq> c \<Longrightarrow> cl_closer s' c' = cl_closer s c'"
  by (auto simp: closing_step_def close_enter_def close_proceed_def close_expire_def set_closer_def
      cancel_delivery_def split: closer.splits if_splits)

lemma closing_starts: "closing_step c s s' \<Longrightarrow> cl_closer s' c \<noteq> NotClosing"
  by (auto simp: closing_step_def close_enter_def close_proceed_def close_expire_def set_closer_def
      cancel_delivery_def split: closer.splits if_splits)

lemma only_closer_ok:
  assumes "call_reachable s" and "\<And>c'. c' \<noteq> c \<Longrightarrow> cl_closer s c' = NotClosing"
  shows "closer_ok s (cl_closer s c)"
  using assms
proof (induction rule: call_reachable.induct)
  case calls_begin
  show ?case by (simp add: closer_ok_def new_calls_def new_delivery_def)
next
  case (calls_more s s')
  from call_step_kinds [OF calls_more.hyps(2) call_reachable_inv [OF calls_more.hyps(1)]]
  show ?case
  proof (elim disjE exE)
    assume same: "undisturbed s s'"
    then have "cl_closer s' = cl_closer s" by (simp add: undisturbed_def Let_def)
    then show ?thesis using closer_ok_undisturbed [OF same] calls_more.IH calls_more.prems by simp
  next
    fix b assume step: "closing_step b s s'"
    have "b = c" using closing_starts [OF step] calls_more.prems [of b] by auto
    then show ?thesis
      using closer_ok_closing [of c] step calls_more.IH closing_others [of c s s'] calls_more.prems by auto
  qed
qed

end
