(* ===== verification/Call_Props.thy ===== *)
theory Call_Props
  imports Call_Laws Delivery_Props
begin

text \<open>
  What a command and \<open>CloseDelivery\<close> may conclude when they return, and the delivery as the
  abstract channel the application sees.
\<close>

section \<open>Delivery as a channel\<close>

text \<open>
  The specification: a first-in first-out channel of events. A send puts a batch at the end, a
  receive takes the first event.
\<close>

datatype channel_act = Send "recorded_event list" | Receive recorded_event | Internal

fun channel_step :: "recorded_event list \<Rightarrow> channel_act \<Rightarrow> recorded_event list \<Rightarrow> bool" where
  "channel_step q (Send b) q' \<longleftrightarrow> q' = q @ b"
| "channel_step q (Receive e) q' \<longleftrightarrow> q = e # q'"
| "channel_step q Internal q' \<longleftrightarrow> q' = q"

fun sent_by :: "channel_act \<Rightarrow> recorded_event list" where
  "sent_by (Send b) = b"
| "sent_by _ = []"

fun received_by :: "channel_act \<Rightarrow> recorded_event list" where
  "received_by (Receive e) = [e]"
| "received_by _ = []"

text \<open>The abstraction: what a lane still has to publish.\<close>

definition lane_channel :: "config_name \<Rightarrow> delivery \<Rightarrow> recorded_event list" where
  "lane_channel n s = in_hand (dl_worker s n) @ concat (ln_pending (dl_lanes s n))"

definition simulates :: "delivery \<Rightarrow> delivery \<Rightarrow> config_name \<Rightarrow> channel_act \<Rightarrow> bool" where
  "simulates s s' n a \<longleftrightarrow>
     channel_step (lane_channel n s) a (lane_channel n s') \<and>
     dl_sent s' n = dl_sent s n @ sent_by a \<and> dl_out s' n = dl_out s n @ received_by a"

lemma same_lane_simulates:
  assumes "same_lane s s'"
  shows "simulates s s' n Internal"
  using same_laneD(1,2) [OF assms] same_laneD(3,4) [OF assms, of n]
  by (auto simp: simulates_def lane_channel_def)

lemma worker_simulates:
  assumes "worker_step n s = Some s'"
  shows "\<exists>a. simulates s s' m a"
proof (cases "m = n")
  case True
  consider (pop) es where "dl_worker s n = Publishing es" "es \<noteq> []" | (other) "\<And>e es. dl_worker s n \<noteq> Publishing (e # es)"
    by (cases "dl_worker s n") (auto simp: neq_Nil_conv)
  then show ?thesis
  proof cases
    case pop
    then have "simulates s s' n (Receive (hd es))"
      using assms by (cases es) (auto simp: worker_step_def simulates_def lane_channel_def move_defs)
    with True show ?thesis by blast
  next
    case other
    then have "simulates s s' n Internal"
      using assms
      by (auto simp: worker_step_def simulates_def lane_channel_def move_defs split: worker.splits list.splits)
    with True show ?thesis by blast
  qed
next
  case False
  have "simulates s s' m Internal"
    using False worker_step_fields(4-6) [OF assms False] worker_step_sent [OF assms]
    by (simp add: simulates_def lane_channel_def)
  then show ?thesis ..
qed

text \<open>The moves of \<open>Delivery\<close> that are not a worker's.\<close>

lemma delivery_move_kinds:
  assumes "delivery_move s s'" and "delivery_inv s"
  shows "same_lane s s' \<or> (\<exists>n. worker_step n s = Some s')"
  using assms
proof (induction rule: delivery_move.induct)
  case (starts s p n)
  then show ?case using start_lane_same by blast
qed (auto simp: same_lane_def reserve_enter_def reserve_slot_def reserve_confirm_def close_delivery_def
    Let_def move_defs split: if_splits)



section \<open>A sample run of the callers\<close>

text \<open>The sample command of \<open>Delivery_Props\<close> flushes one event, starts the worker and waits.\<close>

definition sample_open :: calls where
  "sample_open = new_calls\<lparr>cl_delivery := sample_working\<rparr>"

definition sample_waiting :: calls where
  "sample_waiting =
     (let s = flush_call 0 ''c'' [sample_event] sample_open
      in await_call 0 ''c'' (s\<lparr>cl_delivery := goto 0 (Kicked ''c'') (start_lane ''c'' (cl_delivery s))\<rparr>))"

fun work_calls :: "nat \<Rightarrow> config_name \<Rightarrow> calls \<Rightarrow> calls" where
  "work_calls 0 n s = s"
| "work_calls (Suc k) n s = (case worker_call n s of None \<Rightarrow> s | Some s' \<Rightarrow> work_calls k n s')"

lemmas call_run_defs = delivery_run_defs new_calls_def flush_call_def await_call_def worker_call_def set_closer_def
  close_enter_def cancel_delivery_def close_proceed_def sample_open_def sample_waiting_def

lemma work_calls_reachable: "call_reachable s \<Longrightarrow> call_reachable (work_calls k n s)"
proof (induction k arbitrary: s)
  case (Suc k)
  show ?case
  proof (cases "worker_call n s")
    case (Some s')
    then show ?thesis using Suc.IH calls_more [OF Suc.prems call_works] by simp
  qed (use Suc.prems in simp)
qed simp

lemma sample_open_reachable: "call_reachable sample_open"
proof -
  let ?d1 = "snd (reserve_enter 0 ''c'' new_delivery)"
  let ?d2 = "the (reserve_slot 0 ''c'' ?d1)"
  have run: "reserve_enter 0 ''c'' new_delivery = (None, ?d1)" "dl_producer ?d1 0 = Selecting ''c''"
    "reserve_slot 0 ''c'' ?d1 = Some ?d2" "dl_producer ?d2 0 = Acquired ''c''"
    "reserve_confirm 0 ''c'' ?d2 = (None, sample_working)"
    by (simp_all add: delivery_run_defs)
  have "call_reachable (new_calls\<lparr>cl_delivery := ?d1\<rparr>)"
    by (rule calls_more [OF calls_begin call_enters [where p = 0 and n = "''c''" and x = None]])
       (use run(1) in \<open>simp_all add: new_calls_def new_delivery_def\<close>)
  from calls_more [OF this call_moves [where d = ?d2]]
  have "call_reachable (new_calls\<lparr>cl_delivery := ?d2\<rparr>)" using lane_slot [OF run(2,3)] by simp
  from calls_more [OF this call_moves [where d = sample_working]]
  show ?thesis using lane_confirms [OF run(4,5)] by (simp add: sample_open_def)
qed

lemma sample_waiting_reachable: "call_reachable sample_waiting"
proof -
  let ?s = "flush_call 0 ''c'' [sample_event] sample_open"
  let ?d = "goto 0 (Kicked ''c'') (start_lane ''c'' (cl_delivery ?s))"
  have "call_reachable ?s"
    by (rule calls_more [OF sample_open_reachable call_flushes]) (simp add: sample_open_def sample_working_at)
  then have "call_reachable (?s\<lparr>cl_delivery := ?d\<rparr>)"
    by (rule calls_more [OF _ call_moves [OF lane_starts]]) (simp add: call_run_defs)
  then have "call_reachable (await_call 0 ''c'' (?s\<lparr>cl_delivery := ?d\<rparr>))"
    by (rule calls_more [OF _ call_awaits]) (simp add: goto_def)
  then show ?thesis by (simp add: sample_waiting_def Let_def)
qed

section \<open>Commands\<close>

text \<open>
  C6. A command that returns because the channel of its batch was closed returns after its
  publisher was handed all events of the batch, in order and uninterrupted; and as long as the
  channel is open, the lane has a worker or a command that is about to start one, so the wait is
  never for nothing.
\<close>

theorem command_returns_published:
  assumes "call_reachable s" and "cl_wait s p = Some (n, k)"
  shows "if k \<in> set (cl_done s n)
    then \<exists>xs ys. dl_out (cl_delivery s) n = xs @ cl_batch s k @ ys
    else dl_worker (cl_delivery s) n \<noteq> NoWorker \<or> (\<exists>q. dl_producer (cl_delivery s) q = Enqueued n)"
proof -
  let ?d = "cl_delivery s"
  have inv: "calls_inv s" by (rule call_reachable_inv [OF assms(1)])
  have lane: "map (cl_batch s) (cl_queue s n) = ln_pending (dl_lanes ?d n)" "hand_ok s n"
    using calls_invD(2) [OF inv, of n] by (simp_all add: lane_calls_ok_def)
  obtain rest where out: "dl_out ?d n = concat (map (cl_batch s) (cl_done s n)) @ rest"
    using lane(2) by (auto simp: hand_ok_def Let_def split: worker.splits)
  have "\<exists>xs ys. dl_out ?d n = xs @ cl_batch s k @ ys" if "k \<in> set (cl_done s n)"
    using split_list [OF that] out by fastforce
  moreover have "dl_worker ?d n \<noteq> NoWorker \<or> kicking n (dl_producer ?d)" if "k \<notin> set (cl_done s n)"
  proof -
    have "cl_hand s n = Some k \<or> k \<in> set (cl_queue s n)"
      using wait_channel [OF inv assms(2)] that by (auto simp: channels_def)
    then have "dl_worker ?d n \<noteq> NoWorker \<or> ln_pending (dl_lanes ?d n) \<noteq> []"
      using lane by (auto simp: hand_ok_def Let_def simp flip: lane(1) split: worker.splits)
    then show ?thesis
      using lane_okD [OF delivery_reachable_inv [OF calls_invD(1) [OF inv]], of n] by (auto simp: lane_ok_def)
  qed
  ultimately show ?thesis by (simp add: kicking_def)
qed

theorem command_returns_published_witness:
  "cl_wait (work_calls 3 ''c'' sample_waiting) 0 = Some (''c'', 0) \<and>
   (\<exists>xs ys. dl_out (cl_delivery (work_calls 3 ''c'' sample_waiting)) ''c'' = xs @ [sample_event] @ ys) \<and>
   dl_worker (cl_delivery sample_waiting) ''c'' \<noteq> NoWorker"
proof -
  let ?s = "work_calls 3 ''c'' sample_waiting"
  have at: "cl_wait sample_waiting 0 = Some (''c'', 0)" "0 \<notin> set (cl_done sample_waiting ''c'')"
    "\<forall>q. dl_producer (cl_delivery sample_waiting) q \<noteq> Enqueued ''c''"
    by (simp_all add: call_run_defs)
  have ret: "cl_wait ?s 0 = Some (''c'', 0)" "0 \<in> set (cl_done ?s ''c'')" "cl_batch ?s 0 = [sample_event]"
    by (simp_all add: call_run_defs numeral_eq_Suc)
  have "dl_worker (cl_delivery sample_waiting) ''c'' \<noteq> NoWorker"
    using command_returns_published [OF sample_waiting_reachable at(1)] at(2,3) by auto
  moreover have "\<exists>xs ys. dl_out (cl_delivery ?s) ''c'' = xs @ [sample_event] @ ys"
    using command_returns_published [OF work_calls_reachable [OF sample_waiting_reachable] ret(1)] ret(2,3) by simp
  ultimately show ?thesis using ret(1) by blast
qed

section \<open>Shutdown\<close>

lemma closed_outcome:
  assumes "call_reachable s" and "\<And>c'. c' \<noteq> c \<Longrightarrow> cl_closer s c' = NotClosing"
    and "cl_closer s c = Closed None" and "dl_closed (cl_delivery s)"
  shows "dl_producers (cl_delivery s) = 0" "dl_workers (cl_delivery s) = 0" "cl_live s n = dl_sent (cl_delivery s) n"
proof -
  let ?d = "cl_delivery s"
  have ok: "closer_ok s (Closed None)" using only_closer_ok [OF assms(1,2), of c] assms(3) by simp
  have inv: "delivery_inv ?d"
    by (rule delivery_reachable_inv [OF calls_invD(1) [OF call_reachable_inv [OF assms(1)]]])
  have drained: "dl_producers ?d = 0" "dl_workers ?d = 0" "cl_live s = dl_out ?d"
    using ok assms(4) by (simp_all add: closer_ok_def Let_def)
  have "\<not> kicking n (dl_producer ?d)"
    using closed_quiet(1) [OF inv assms(4) drained(1,2)] by (auto simp: kicking_def counted_def)
  then have "dl_out ?d n = dl_sent ?d n"
    using stopped_empty(2) [OF inv closed_quiet(2) [OF inv assms(4) drained(1,2)]] by simp
  with drained show "dl_producers ?d = 0" "dl_workers ?d = 0" "cl_live s n = dl_sent ?d n" by simp_all
qed


definition sample_drained :: calls where
  "sample_drained =
     (let s = work_calls 5 ''c'' sample_waiting;
          s = close_enter 7 (s\<lparr>cl_delivery := worker_done (cl_delivery s)\<rparr>)
      in the (close_proceed 7 (the (close_proceed 7 s))))"


end
