(* ===== verification/Lifecycle.thy ===== *)
theory Lifecycle
  imports Fm_Prelude
begin

text \<open>
  The life of the process after start-up: the second half of \<open>run\<close> in \<open>cmd/fmlocal/main.go\<close>, the
  \<open>Run\<close> methods of the two HTTP servers (\<open>awsapi/server.go\<close>, \<open>webui/server.go\<close>, which are the same
  code) and the end of \<open>Ticker.Run\<close>. Three goroutines share a context; the first failure, or a
  signal, cancels it, and the process ends when all three have returned and the deliveries are
  drained. Serving a request and ticking do not appear: they change nothing here.
\<close>

section \<open>State\<close>

datatype part = ApiServer | WebServer | TickerLoop

text \<open>What \<open>Run\<close> can return besides nil; \<open>http.ErrServerClosed\<close> and \<open>context.Canceled\<close> are told apart.\<close>

datatype server_err = ServerClosed | ContextCanceled | RunFailed string

text \<open>
  Where a goroutine of \<open>start\<close> stands: in the \<open>select\<close> of \<open>Run\<close> (or the ticker's loop), in
  \<open>srv.Shutdown\<close>, in the receive from \<open>errCh\<close> after it, before the send on \<open>run\<close>'s own channel,
  before \<open>cancel()\<close>, or after \<open>wg.Done\<close>.
\<close>

datatype stage =
    Serving
  | ShuttingDown
  | Collecting "server_err option"
  | Reporting server_err
  | Cancelling
  | Finished

text \<open>
  \<open>pr_listener\<close> is the value \<open>ListenAndServe\<close> has returned, in the server's channel of capacity one;
  \<open>pr_errs\<close> is the channel of capacity three that \<open>run\<close> drains at the end. \<open>pr_result\<close> is a history:
  what each \<open>Run\<close> returned. \<open>pr_exit\<close> is the drain's error with the collected ones, once \<open>run\<close> has
  returned.
\<close>

record process =
  pr_cancelled :: bool
  pr_stage :: "part \<Rightarrow> stage"
  pr_listener :: "part \<Rightarrow> server_err option"
  pr_errs :: "(part \<times> server_err) list"
  pr_result :: "part \<Rightarrow> server_err option option"
  pr_exit :: "(string option \<times> (part \<times> server_err) list) option"

definition started_process :: process where
  "started_process = \<lparr>pr_cancelled = False, pr_stage = (\<lambda>_. Serving), pr_listener = (\<lambda>_. None), pr_errs = [],
     pr_result = (\<lambda>_. None), pr_exit = None\<rparr>"

section \<open>Steps\<close>

definition errCapacity :: nat where
  "errCapacity = 3"

definition is_failure :: "server_err option \<Rightarrow> bool" where
  "is_failure r \<longleftrightarrow> r \<noteq> None \<and> r \<noteq> Some ServerClosed \<and> r \<noteq> Some ContextCanceled"

definition at_stage :: "part \<Rightarrow> stage \<Rightarrow> process \<Rightarrow> process" where
  "at_stage c x p = p\<lparr>pr_stage := (pr_stage p)(c := x)\<rparr>"

text \<open>\<open>Run\<close> returns: the goroutine goes on to report a failure, or ends.\<close>

definition returns_run :: "part \<Rightarrow> server_err option \<Rightarrow> process \<Rightarrow> process" where
  "returns_run c r p =
     at_stage c (if is_failure r then Reporting (the r) else Finished) (p\<lparr>pr_result := (pr_result p)(c \<mapsto> r)\<rparr>)"

definition cancel_run :: "process \<Rightarrow> process" where
  "cancel_run p = p\<lparr>pr_cancelled := True\<rparr>"

definition report_error :: "part \<Rightarrow> server_err \<Rightarrow> process \<Rightarrow> process option" where
  "report_error c e p =
     (if length (pr_errs p) < errCapacity
      then Some (at_stage c Cancelling (p\<lparr>pr_errs := pr_errs p @ [(c, e)]\<rparr>))
      else None)"

definition finish_run :: "string option \<Rightarrow> process \<Rightarrow> process" where
  "finish_run drain p = p\<lparr>pr_exit := Some (drain, pr_errs p)\<rparr>"

text \<open>The result of \<open>errors.Join\<close> is nil when there is nothing to join; \<open>main\<close> exits with 1 otherwise.\<close>

definition exit_code :: "string option \<times> (part \<times> server_err) list \<Rightarrow> int" where
  "exit_code r = (if r = (None, []) then 0 else 1)"

text \<open>
  The listener of a server returns \<open>ErrServerClosed\<close> once \<open>Shutdown\<close> was called and another error,
  which is not of a context, before. \<open>Shutdown\<close> returns nil, or an error when its five seconds are over; the server is then
  closed.
\<close>

inductive process_step :: "process \<Rightarrow> process \<Rightarrow> bool" where
  signalled: "\<not> pr_cancelled p \<Longrightarrow> process_step p (cancel_run p)"
| listener_ends: "c \<noteq> TickerLoop \<Longrightarrow> pr_listener p c = None \<Longrightarrow> e \<noteq> ContextCanceled \<Longrightarrow>
    (e = ServerClosed \<longleftrightarrow> pr_stage p c \<noteq> Serving) \<Longrightarrow>
    process_step p (p\<lparr>pr_listener := (pr_listener p)(c \<mapsto> e)\<rparr>)"
| server_fails: "c \<noteq> TickerLoop \<Longrightarrow> pr_stage p c = Serving \<Longrightarrow> pr_listener p c = Some e \<Longrightarrow>
    process_step p (returns_run c (Some e) p)"
| server_stops: "c \<noteq> TickerLoop \<Longrightarrow> pr_stage p c = Serving \<Longrightarrow> pr_cancelled p \<Longrightarrow>
    process_step p (at_stage c ShuttingDown p)"
| server_shut: "pr_stage p c = ShuttingDown \<Longrightarrow> r = None \<or> r = Some (RunFailed x) \<Longrightarrow>
    process_step p (at_stage c (Collecting r) p)"
| server_collects: "pr_stage p c = Collecting r \<Longrightarrow> pr_listener p c = Some e \<Longrightarrow>
    process_step p (returns_run c r p)"
| ticker_stops: "pr_stage p TickerLoop = Serving \<Longrightarrow> pr_cancelled p \<Longrightarrow>
    process_step p (returns_run TickerLoop None p)"
| reports: "pr_stage p c = Reporting e \<Longrightarrow> report_error c e p = Some p' \<Longrightarrow> process_step p p'"
| cancels: "pr_stage p c = Cancelling \<Longrightarrow> process_step p (at_stage c Finished (cancel_run p))"
| drains: "\<forall>c. pr_stage p c = Finished \<Longrightarrow> pr_exit p = None \<Longrightarrow> process_step p (finish_run drain p)"

inductive process_reachable :: "process \<Rightarrow> bool" where
  process_begins: "process_reachable started_process"
| process_goes_on: "process_reachable p \<Longrightarrow> process_step p p' \<Longrightarrow> process_reachable p'"

inductive_cases process_step_cases: "process_step p p'"

section \<open>Reports\<close>

lemma UNIV_part: "(UNIV :: part set) = {ApiServer, WebServer, TickerLoop}"
  using part.exhaust by auto

instantiation part :: enum
begin

definition "enum_part = [ApiServer, WebServer, TickerLoop]"
definition "enum_all_part P \<longleftrightarrow> P ApiServer \<and> P WebServer \<and> P TickerLoop"
definition "enum_ex_part P \<longleftrightarrow> P ApiServer \<or> P WebServer \<or> P TickerLoop"

instance
  by intro_classes
     (auto simp: enum_part_def enum_all_part_def enum_ex_part_def UNIV_part)

end

text \<open>
  A part has reported exactly when its \<open>Run\<close> returned a failure and its goroutine is past the
  send; a part that failed and ended has cancelled the others.
\<close>

fun part_ok :: "bool \<Rightarrow> stage \<Rightarrow> server_err option option \<Rightarrow> bool \<Rightarrow> bool" where
  "part_ok cancelled (Reporting e) r reported \<longleftrightarrow> r = Some (Some e) \<and> is_failure (Some e) \<and> \<not> reported"
| "part_ok cancelled Cancelling r reported \<longleftrightarrow>
     reported \<and> (case r of None \<Rightarrow> False | Some x \<Rightarrow> is_failure x)"
| "part_ok cancelled Finished r reported \<longleftrightarrow>
     (case r of None \<Rightarrow> False | Some x \<Rightarrow> reported = is_failure x) \<and> (reported \<longrightarrow> cancelled)"
| "part_ok cancelled _ r reported \<longleftrightarrow> r = None \<and> \<not> reported"

definition reported :: "process \<Rightarrow> part \<Rightarrow> bool" where
  "reported p c \<longleftrightarrow> (\<exists>e. (c, e) \<in> set (pr_errs p))"

fun stopping :: "stage \<Rightarrow> bool" where
  "stopping ShuttingDown = True"
| "stopping (Collecting r) = True"
| "stopping _ = False"

definition process_inv :: "process \<Rightarrow> bool" where
  "process_inv p \<longleftrightarrow>
     distinct (map fst (pr_errs p)) \<and>
     (\<forall>c e. (c, e) \<in> set (pr_errs p) \<longrightarrow> pr_result p c = Some (Some e)) \<and>
     (\<forall>c. part_ok (pr_cancelled p) (pr_stage p c) (pr_result p c) (reported p c)) \<and>
     (\<forall>c. stopping (pr_stage p c) \<longrightarrow> c \<noteq> TickerLoop) \<and>
     (\<forall>x c. pr_exit p = Some x \<longrightarrow> snd x = pr_errs p \<and> pr_stage p c = Finished)"

end
