(* ===== verification/Lifecycle_Props.thy ===== *)
theory Lifecycle_Props
  imports Lifecycle
begin

text \<open>
  The process always ends once it is told to, and its exit reports every part that failed.
\<close>

section \<open>The invariant\<close>

lemmas process_defs = at_stage_def returns_run_def cancel_run_def report_error_def finish_run_def

lemma process_invD:
  assumes "process_inv p"
  shows "distinct (map fst (pr_errs p))" "(c, e) \<in> set (pr_errs p) \<Longrightarrow> pr_result p c = Some (Some e)"
    "part_ok (pr_cancelled p) (pr_stage p c) (pr_result p c) (reported p c)"
    "stopping (pr_stage p c) \<Longrightarrow> c \<noteq> TickerLoop"
    "pr_exit p = Some x \<Longrightarrow> snd x = pr_errs p" "pr_exit p = Some x \<Longrightarrow> pr_stage p c = Finished"
  using assms unfolding process_inv_def by blast+

lemma part_ok_cancelled: "part_ok b x r q \<Longrightarrow> part_ok True x r q"
  by (cases x) (auto split: option.splits)

lemma running_part: "process_inv p \<Longrightarrow> pr_stage p c \<noteq> Finished \<Longrightarrow> pr_exit p = None"
  using process_invD(6) by (cases "pr_exit p") blast+

text \<open>A part moves on: what is known of the others stays.\<close>

lemma move_part:
  assumes "process_inv p" and "pr_stage p c \<noteq> Finished" and "c \<noteq> TickerLoop \<or> \<not> stopping x"
    and "part_ok (pr_cancelled p) x (pr_result p c) (reported p c)"
  shows "process_inv (at_stage c x p)"
  using assms running_part [OF assms(1,2)] by (auto simp: process_inv_def at_stage_def reported_def)

lemma return_part:
  assumes "process_inv p" and "pr_result p c = None" and "pr_stage p c \<noteq> Finished" and "\<not> reported p c"
  shows "process_inv (returns_run c r p)"
proof -
  have "process_inv (p\<lparr>pr_result := (pr_result p)(c \<mapsto> r), pr_stage := (pr_stage p)(c := x)\<rparr>)"
    if "part_ok (pr_cancelled p) x (Some r) False" "\<not> stopping x" for x
    using assms that running_part [OF assms(1,3)] by (auto simp: process_inv_def reported_def)
  moreover have "is_failure r \<Longrightarrow> r = Some (the r)" by (cases r) (simp_all add: is_failure_def)
  ultimately show ?thesis by (auto simp: returns_run_def at_stage_def)
qed

lemma silent_part:
  assumes "process_inv p" and "pr_stage p c = Serving \<or> stopping (pr_stage p c)"
  shows "pr_result p c = None" "\<not> reported p c" "pr_stage p c \<noteq> Finished"
  using process_invD(3) [OF assms(1), of c] assms(2) by (cases "pr_stage p c"; simp)+

lemma cancel_inv: "process_inv p \<Longrightarrow> process_inv (cancel_run p)"
  by (auto simp: process_inv_def cancel_run_def reported_def intro: part_ok_cancelled)

lemma process_step_inv: "process_step p p' \<Longrightarrow> process_inv p \<Longrightarrow> process_inv p'"
proof (induction rule: process_step.induct)
  case (signalled p)
  show ?case by (rule cancel_inv [OF signalled.prems])
next
  case (listener_ends c p e)
  then show ?case by (simp add: process_inv_def reported_def)
next
  case (server_fails c p e)
  then show ?case using silent_part [of p c] by (intro return_part) auto
next
  case (server_stops c p)
  then show ?case using silent_part [of p c] by (intro move_part) auto
next
  case (server_shut p c r x)
  then show ?case using silent_part [of p c] process_invD(4) [of p c] by (intro move_part) auto
next
  case (server_collects p c r e)
  then show ?case using silent_part [of p c] by (intro return_part) auto
next
  case (ticker_stops p)
  then show ?case using silent_part [of p TickerLoop] by (intro return_part) auto
next
  case (reports p c e p')
  let ?q = "p\<lparr>pr_errs := pr_errs p @ [(c, e)]\<rparr>"
  have ok: "pr_result p c = Some (Some e)" "\<not> reported p c" "is_failure (Some e)"
    using process_invD(3) [OF reports.prems, of c] reports.hyps(1) by auto
  have "pr_exit p = None" by (rule running_part [OF reports.prems, of c]) (simp add: reports.hyps(1))
  moreover have "c \<notin> fst ` set (pr_errs p)" using ok(2) by (auto simp: reported_def)
  moreover have "p' = at_stage c Cancelling ?q" using reports.hyps(2) by (simp add: report_error_def split: if_splits)
  ultimately show ?case
    using ok(1,3) reports.prems by (auto simp: process_inv_def at_stage_def reported_def)
next
  case (cancels p c)
  have "part_ok (pr_cancelled (cancel_run p)) Finished (pr_result (cancel_run p) c) (reported (cancel_run p) c)"
    using process_invD(3) [OF cancels.prems, of c] cancels.hyps
    by (auto simp: cancel_run_def reported_def split: option.splits)
  then show ?case
    by (intro move_part cancel_inv cancels.prems) (simp_all add: cancel_run_def cancels.hyps)
next
  case (drains p drain)
  then show ?case by (auto simp: process_inv_def finish_run_def reported_def)
qed

lemma process_reachable_inv: "process_reachable p \<Longrightarrow> process_inv p"
proof (induction rule: process_reachable.induct)
  case process_begins
  show ?case by (simp add: process_inv_def started_process_def reported_def)
qed (blast intro: process_step_inv)

section \<open>The process ends\<close>

fun stage_work :: "stage \<Rightarrow> nat" where
  "stage_work Serving = 6"
| "stage_work ShuttingDown = 5"
| "stage_work (Collecting r) = 4"
| "stage_work (Reporting e) = 3"
| "stage_work Cancelling = 2"
| "stage_work Finished = 0"

definition part_work :: "process \<Rightarrow> part \<Rightarrow> nat" where
  "part_work p c = stage_work (pr_stage p c) + (if pr_listener p c = None then 1 else 0)"

definition process_work :: "process \<Rightarrow> nat" where
  "process_work p = sum (part_work p) UNIV + (if pr_cancelled p then 0 else 1) + (if pr_exit p = None then 1 else 0)"

lemma process_step_work: "process_step p p' \<Longrightarrow> process_work p' < process_work p"
proof (induction rule: process_step.induct)
  case (listener_ends c p e)
  then show ?case by (cases c) (simp_all add: process_work_def UNIV_part part_work_def)
next
  case (server_fails c p e)
  then show ?case by (cases c) (simp_all add: process_work_def UNIV_part part_work_def process_defs)
next
  case (server_stops c p)
  then show ?case by (cases c) (simp_all add: process_work_def UNIV_part part_work_def process_defs)
next
  case (server_shut p c r x)
  then show ?case by (cases c) (simp_all add: process_work_def UNIV_part part_work_def process_defs)
next
  case (server_collects p c r e)
  then show ?case by (cases c) (simp_all add: process_work_def UNIV_part part_work_def process_defs)
next
  case (reports p c e p')
  then have "p' = at_stage c Cancelling (p\<lparr>pr_errs := pr_errs p @ [(c, e)]\<rparr>)"
    by (simp add: report_error_def split: if_splits)
  with reports.hyps(1) show ?case
    by (cases c) (simp_all add: process_work_def UNIV_part part_work_def at_stage_def)
next
  case (cancels p c)
  then show ?case by (cases c) (simp_all add: process_work_def UNIV_part part_work_def process_defs)
qed (simp_all add: process_work_def UNIV_part part_work_def process_defs)

text \<open>The channel of the errors has room for every part, so no report blocks.\<close>

lemma report_room:
  assumes "process_inv p" and "\<not> reported p c"
  shows "length (pr_errs p) < errCapacity"
proof -
  have "set (map fst (pr_errs p)) \<subset> UNIV" using assms(2) by (force simp: reported_def)
  then have "card (set (map fst (pr_errs p))) < card (UNIV :: part set)"
    by (rule psubset_card_mono [rotated]) (simp add: UNIV_part)
  then show ?thesis
    using distinct_card [OF process_invD(1) [OF assms(1)]] by (simp add: UNIV_part errCapacity_def)
qed

lemma process_progress:
  assumes "process_inv p" and "pr_exit p = None"
  shows "\<exists>p'. process_step p p'"
proof (cases "pr_cancelled p \<and> (\<exists>c. pr_stage p c \<noteq> Finished)")
  case True
  then obtain c where c: "pr_cancelled p" "pr_stage p c \<noteq> Finished" by blast
  show ?thesis
  proof (cases "pr_stage p c")
    case Serving
    with c(1) show ?thesis by (cases "c = TickerLoop") (blast intro: server_stops ticker_stops)+
  next
    case ShuttingDown
    then show ?thesis by (blast intro: server_shut)
  next
    case (Collecting r)
    then have "c \<noteq> TickerLoop" using process_invD(4) [OF assms(1)] by (metis stopping.simps(2))
    show ?thesis
    proof (cases "pr_listener p c")
      case None
      with \<open>c \<noteq> TickerLoop\<close> Collecting have "process_step p (p\<lparr>pr_listener := (pr_listener p)(c \<mapsto> ServerClosed)\<rparr>)"
        by (intro listener_ends) simp_all
      then show ?thesis ..
    next
      case (Some e)
      from server_collects [OF Collecting this] show ?thesis ..
    qed
  next
    case (Reporting e)
    then have "\<not> reported p c" using process_invD(3) [OF assms(1), of c] by simp
    then have "report_error c e p \<noteq> None" using report_room [OF assms(1)] by (simp add: report_error_def)
    with Reporting show ?thesis by (blast intro: reports)
  next
    case Cancelling
    then show ?thesis by (blast intro: cancels)
  qed (use c in simp)
next
  case False
  then show ?thesis using assms(2) by (cases "pr_cancelled p") (blast intro: drains signalled)+
qed


text \<open>
  The exit reports the failures: when the process has ended, the collected errors are exactly
  those that a server's Run returned, other than ErrServerClosed and context.Canceled, each once;
  and the exit code is 0 exactly when there was none and the deliveries were drained in time.
\<close>

lemma exit_reports_failures:
  assumes "process_reachable p" and "pr_exit p = Some (drain, es)"
  shows "set es = {(c, e). pr_result p c = Some (Some e) \<and> is_failure (Some e)} \<and> distinct (map fst es) \<and>
    (exit_code (drain, es) = 0 \<longleftrightarrow> drain = None \<and> (\<forall>c. \<exists>r. pr_result p c = Some r \<and> \<not> is_failure r))"
proof -
  note inv = process_reachable_inv [OF assms(1)]
  have es: "es = pr_errs p" using process_invD(5) [OF inv assms(2)] by simp
  have ok: "\<exists>r. pr_result p c = Some r \<and> reported p c = is_failure r" for c
    using process_invD(3) [OF inv, of c] process_invD(6) [OF inv assms(2), of c] by (auto split: option.splits)
  have "(c, e) \<in> set es \<longleftrightarrow> pr_result p c = Some (Some e) \<and> is_failure (Some e)" for c e
    using ok [of c] process_invD(2) [OF inv, of c] unfolding es reported_def by (metis option.inject)
  then have set: "set es = {(c, e). pr_result p c = Some (Some e) \<and> is_failure (Some e)}" by auto
  have "es = [] \<longleftrightarrow> (\<forall>c. \<not> reported p c)" unfolding es reported_def by (cases "pr_errs p") auto
  also have "\<dots> \<longleftrightarrow> (\<forall>c. \<exists>r. pr_result p c = Some r \<and> \<not> is_failure r)"
    using ok by (metis option.inject)
  finally show ?thesis using set process_invD(1) [OF inv] by (simp add: es exit_code_def)
qed

section \<open>A sample run\<close>

text \<open>The API server cannot listen; its failure stops the others, and the process exits with 1.\<close>

definition sample_reported :: process where
  "sample_reported =
     (let p = started_process\<lparr>pr_listener := (\<lambda>_. None)(ApiServer \<mapsto> RunFailed ''bind'')\<rparr>;
          p = returns_run ApiServer (Some (RunFailed ''bind'')) p;
          p = the (report_error ApiServer (RunFailed ''bind'') p)
      in at_stage ApiServer Finished (cancel_run p))"

definition sample_exited :: process where
  "sample_exited =
     (let p = at_stage WebServer (Collecting None) (at_stage WebServer ShuttingDown sample_reported);
          p = p\<lparr>pr_listener := (pr_listener p)(WebServer \<mapsto> ServerClosed)\<rparr>
      in finish_run None (returns_run TickerLoop None (returns_run WebServer None p)))"

lemmas sample_process_defs = sample_reported_def sample_exited_def started_process_def process_defs
  errCapacity_def is_failure_def Let_def

lemma sample_reported_reachable: "process_reachable sample_reported"
proof -
  let ?e = "RunFailed ''bind''"
  let ?p1 = "started_process\<lparr>pr_listener := (\<lambda>_. None)(ApiServer \<mapsto> ?e)\<rparr>"
  let ?p2 = "returns_run ApiServer (Some ?e) ?p1"
  let ?p3 = "the (report_error ApiServer ?e ?p2)"
  have "process_step started_process (started_process\<lparr>pr_listener := (pr_listener started_process)(ApiServer \<mapsto> ?e)\<rparr>)"
    by (rule listener_ends) (simp_all add: started_process_def)
  then have "process_reachable ?p1"
    using process_goes_on [OF process_begins] by (simp add: started_process_def)
  then have "process_reachable ?p2"
    by (rule process_goes_on [OF _ server_fails]) (simp_all add: started_process_def)
  then have "process_reachable ?p3"
    by (rule process_goes_on [OF _ reports [where c = ApiServer and e = ?e]]) (simp_all add: sample_process_defs)
  then have "process_reachable (at_stage ApiServer Finished (cancel_run ?p3))"
    by (rule process_goes_on [OF _ cancels]) (simp add: sample_process_defs)
  then show ?thesis by (simp add: sample_reported_def Let_def)
qed

lemma sample_exited_reachable: "process_reachable sample_exited"
proof -
  let ?p1 = "at_stage WebServer ShuttingDown sample_reported"
  let ?p2 = "at_stage WebServer (Collecting None) ?p1"
  let ?p3 = "?p2\<lparr>pr_listener := (pr_listener ?p2)(WebServer \<mapsto> ServerClosed)\<rparr>"
  let ?p5 = "returns_run TickerLoop None (returns_run WebServer None ?p3)"
  have "process_reachable ?p1"
    by (rule process_goes_on [OF sample_reported_reachable server_stops]) (simp_all add: sample_process_defs)
  then have "process_reachable ?p2"
    by (rule process_goes_on [OF _ server_shut]) (simp_all add: sample_process_defs)
  then have "process_reachable ?p3"
    by (rule process_goes_on [OF _ listener_ends]) (simp_all add: sample_process_defs)
  then have "process_reachable (returns_run WebServer None ?p3)"
    by (rule process_goes_on [OF _ server_collects]) (simp_all add: sample_process_defs)
  then have "process_reachable ?p5"
    by (rule process_goes_on [OF _ ticker_stops]) (simp_all add: sample_process_defs)
  moreover have "\<forall>c. pr_stage ?p5 c = Finished"
  proof
    fix c show "pr_stage ?p5 c = Finished" by (cases c) (simp_all add: sample_process_defs)
  qed
  ultimately have "process_reachable (finish_run None ?p5)"
    by (intro process_goes_on [OF _ drains]) (simp_all add: sample_process_defs)
  then show ?thesis by (simp add: sample_exited_def Let_def)
qed


lemma sample_exit:
  "\<exists>es. pr_exit sample_exited = Some (None, es) \<and> (ApiServer, RunFailed ''bind'') \<in> set es \<and> exit_code (None, es) \<noteq> 0"
proof -
  obtain es where es: "pr_exit sample_exited = Some (None, es)" by (simp add: sample_process_defs)
  have "pr_result sample_exited ApiServer = Some (Some (RunFailed ''bind''))" by (simp add: sample_process_defs)
  with exit_reports_failures [OF sample_exited_reachable es] have mem: "(ApiServer, RunFailed ''bind'') \<in> set es"
    by (simp add: is_failure_def)
  then have "exit_code (None, es) \<noteq> 0" by (auto simp: exit_code_def)
  with es mem show ?thesis by blast
qed

end
