(* ===== verification/Notification.thy ===== *)
theory Notification
  imports Event_Batch Go_Float Json
begin

text \<open>
  The publishers (\<open>internal/infrastructure/notification\<close>): how a domain event becomes an
  EventBridge envelope (\<open>envelope.go\<close>), how the envelope is sent to an SNS subscriber over HTTP or
  to an SQS queue, and the publishers built from other publishers (\<open>filter.go\<close>, \<open>multi.go\<close>).
\<close>

section \<open>The payload\<close>

record player_detail =
  pd_PlayerID :: string
  pd_Accepted :: "bool option"
  pd_PlayerSessionID :: string
  pd_Team :: string

record ticket_detail =
  td_TicketID :: string
  td_StartTime :: string
  td_Players :: "player_detail list"

record rule_eval_metric =
  wm_RuleName :: string
  wm_PassedCount :: int
  wm_FailedCount :: int

record game_session_info =
  gs_IPAddress :: string
  gs_Port :: int
  gs_GameSessionARN :: string
  gs_MatchID :: string
  gs_Players :: "player_detail list"

text \<open>
  A pointer or interface field is an option; a nil slice and an empty one are both \<open>[]\<close>, which
  \<open>omitempty\<close> leaves out alike.
\<close>

record detail =
  dt_Type :: string
  dt_Tickets :: "ticket_detail list"
  dt_MatchID :: string
  dt_AcceptanceRequired :: "bool option"
  dt_AcceptanceTimeout :: "int option"
  dt_Acceptance :: string
  dt_RuleEvaluationMetric :: "rule_eval_metric list"
  dt_EstimatedWaitMillis :: "json option"
  dt_GameSessionInfo :: "game_session_info option"
  dt_CustomEventData :: string
  dt_Reason :: string
  dt_Message :: string

record envelope =
  en_Version :: string
  en_ID :: string
  en_DetailType :: string
  en_Source :: string
  en_Account :: string
  en_Time :: string
  en_Region :: string
  en_Resources :: "string list"
  en_Detail :: detail

text \<open>
  The translator's settings and its fallback lookup, \<open>None\<close> for nil; the composition root passes
  nil. The rosters a lookup returns are not nil slices.
\<close>

record translator =
  tr_Region :: string
  tr_AccountID :: string
  tr_lookup :: "(ticket_id \<Rightarrow> ticket_detail option) option"

definition NewTranslator :: "string \<Rightarrow> string \<Rightarrow> (ticket_id \<Rightarrow> ticket_detail option) option \<Rightarrow> translator" where
  "NewTranslator region account lookup =
     \<lparr>tr_Region = region, tr_AccountID = account, tr_lookup = lookup\<rparr>"

section \<open>From an event to its detail\<close>

definition detail_of_snapshot :: "ticket_snapshot \<Rightarrow> ticket_detail" where
  "detail_of_snapshot saved =
     \<lparr>td_TicketID = ts_TicketID saved, td_StartTime = ts_StartTime saved,
      td_Players = map (\<lambda>p. \<lparr>pd_PlayerID = ps_PlayerID p, pd_Accepted = None, pd_PlayerSessionID = [],
        pd_Team = ps_Team p\<rparr>) (ts_Players saved)\<rparr>"

fun lookupTickets :: "translator \<Rightarrow> event_snapshot option \<Rightarrow> ticket_id list \<Rightarrow> ticket_detail list" where
  "lookupTickets t snap [] = []"
| "lookupTickets t snap (i # ids) =
     (case snap of
        Some m \<Rightarrow> (case m i of Some saved \<Rightarrow> [detail_of_snapshot saved] | None \<Rightarrow> [])
      | None \<Rightarrow>
          (case tr_lookup t of
             Some look \<Rightarrow> (case look i of Some td \<Rightarrow> [td] | None \<Rightarrow> [])
           | None \<Rightarrow> [])) @ lookupTickets t snap ids"

definition toWireRuleMetrics :: "rule_metric list \<Rightarrow> rule_eval_metric list" where
  "toWireRuleMetrics src =
     map (\<lambda>m. \<lparr>wm_RuleName = rm_RuleName m, wm_PassedCount = rm_PassedCount m,
       wm_FailedCount = rm_FailedCount m\<rparr>) src"

definition flattenTicketPlayers :: "ticket_detail list \<Rightarrow> player_detail list" where
  "flattenTicketPlayers ts = concat (map td_Players ts)"

text \<open>The loop that marks the players whose answers the event carries.\<close>

definition mark_accepted :: "(player_id \<rightharpoonup> bool) \<Rightarrow> ticket_detail \<Rightarrow> ticket_detail" where
  "mark_accepted acceptances td = td\<lparr>td_Players := map (\<lambda>p.
     (case acceptances (pd_PlayerID p) of Some v \<Rightarrow> p\<lparr>pd_Accepted := Some v\<rparr> | None \<Rightarrow> p)) (td_Players td)\<rparr>"

definition empty_detail :: "string \<Rightarrow> detail" where
  "empty_detail name = \<lparr>dt_Type = name, dt_Tickets = [], dt_MatchID = [], dt_AcceptanceRequired = None,
     dt_AcceptanceTimeout = None, dt_Acceptance = [], dt_RuleEvaluationMetric = [],
     dt_EstimatedWaitMillis = None, dt_GameSessionInfo = None, dt_CustomEventData = [], dt_Reason = [],
     dt_Message = []\<rparr>"

definition fill_detail ::
  "translator \<Rightarrow> event_snapshot option \<Rightarrow> detail \<Rightarrow> match_id \<Rightarrow> ticket_id \<Rightarrow> string \<Rightarrow> string \<Rightarrow>
     rule_metric list \<Rightarrow> detail" where
  "fill_detail t snap d matchID ticketID reason msg metrics =
     d\<lparr>dt_MatchID := matchID, dt_Reason := reason, dt_Message := msg,
       dt_Tickets := lookupTickets t snap [ticketID],
       dt_RuleEvaluationMetric := toWireRuleMetrics metrics\<rparr>"

text \<open>The type switch; every event of the domain has a case, so its default is never reached.\<close>

fun event_detail :: "translator \<Rightarrow> event_snapshot option \<Rightarrow> event \<Rightarrow> detail \<Rightarrow> detail" where
  "event_detail t snap (EventTicketSearchingStarted b i) d =
     d\<lparr>dt_Tickets := lookupTickets t snap [i],
       dt_EstimatedWaitMillis := Some (JString ''NOT_AVAILABLE'')\<rparr>"
| "event_detail t snap (EventTicketAssignedToProposal b m ids metrics required timeout) d =
     d\<lparr>dt_MatchID := m, dt_Tickets := lookupTickets t snap ids,
       dt_RuleEvaluationMetric := toWireRuleMetrics metrics,
       dt_AcceptanceRequired := Some required,
       dt_AcceptanceTimeout := (if required then Some (int_seconds timeout) else None)\<rparr>"
| "event_detail t snap (EventPlayerAcceptanceRecorded b m ids acceptances) d =
     d\<lparr>dt_MatchID := m, dt_Tickets := map (mark_accepted acceptances) (lookupTickets t snap ids)\<rparr>"
| "event_detail t snap (EventAcceptanceCompleted b m ids outcome) d =
     d\<lparr>dt_MatchID := m, dt_Acceptance := outcome_string outcome, dt_Tickets := lookupTickets t snap ids\<rparr>"
| "event_detail t snap (EventMatchmakingSucceeded b m ids) d =
     d\<lparr>dt_MatchID := m, dt_Tickets := lookupTickets t snap ids\<rparr>"
| "event_detail t snap (EventMatchmakingFailed b i m reason msg metrics) d =
     fill_detail t snap d m i reason msg metrics"
| "event_detail t snap (EventMatchmakingTimedOut b i m reason msg metrics) d =
     fill_detail t snap d m i reason msg metrics"
| "event_detail t snap (EventMatchmakingCancelled b i m reason msg metrics) d =
     fill_detail t snap d m i reason msg metrics"

definition is_succeeded :: "event \<Rightarrow> bool" where
  "is_succeeded e = (case e of EventMatchmakingSucceeded _ _ _ \<Rightarrow> True | _ \<Rightarrow> False)"

definition buildDetail :: "translator \<Rightarrow> event_snapshot option \<Rightarrow> event \<Rightarrow> detail" where
  "buildDetail t snap e =
     (let d = event_detail t snap e (empty_detail (EventName e))
      in d\<lparr>dt_GameSessionInfo := Some
           \<lparr>gs_IPAddress = [], gs_Port = 0, gs_GameSessionARN = [],
            gs_MatchID = (if is_succeeded e then dt_MatchID d else []),
            gs_Players = flattenTicketPlayers (dt_Tickets d)\<rparr>\<rparr>)"

definition configuration_arn :: "string \<Rightarrow> string \<Rightarrow> string \<Rightarrow> string" where
  "configuration_arn region account name =
     ''arn:aws:gamelift:'' @ region @ '':'' @ account @ '':matchmakingconfiguration/'' @ name"

definition RenderContext ::
  "translator \<Rightarrow> event_snapshot option \<Rightarrow> event \<Rightarrow> idgen \<Rightarrow> envelope \<times> idgen" where
  "RenderContext t snap e g =
     (let d = buildDetail t snap e; (i, g) = NewID g in
      (\<lparr>en_Version = ''0'', en_ID = i, en_DetailType = ''GameLift Matchmaking Event'',
        en_Source = ''aws.gamelift'', en_Account = tr_AccountID t,
        en_Time = format_millis (ev_occurredAt (event_base e)), en_Region = tr_Region t,
        en_Resources = [configuration_arn (tr_Region t) (tr_AccountID t) (ev_configName (event_base e))],
        en_Detail = d\<rparr>, g))"

definition Render :: "translator \<Rightarrow> event \<Rightarrow> idgen \<Rightarrow> envelope \<times> idgen" where
  "Render t e = RenderContext t None e"

section \<open>The wire format\<close>

text \<open>The members \<open>encoding/json\<close> writes: a field without \<open>omitempty\<close>, and those with it.\<close>

definition omit_string :: "string \<Rightarrow> string \<Rightarrow> (string \<times> json) list" where
  "omit_string k s = (if s = [] then [] else [(k, JString s)])"

definition omit_list :: "string \<Rightarrow> json list \<Rightarrow> (string \<times> json) list" where
  "omit_list k xs = (if xs = [] then [] else [(k, JArray xs)])"

definition omit_option :: "string \<Rightarrow> json option \<Rightarrow> (string \<times> json) list" where
  "omit_option k x = (case x of None \<Rightarrow> [] | Some j \<Rightarrow> [(k, j)])"

definition player_json :: "player_detail \<Rightarrow> json" where
  "player_json p = JObject
     ([(''playerId'', JString (pd_PlayerID p))] @
      omit_option ''accepted'' (map_option JBool (pd_Accepted p)) @
      omit_string ''playerSessionId'' (pd_PlayerSessionID p) @
      omit_string ''team'' (pd_Team p))"

definition ticket_json :: "ticket_detail \<Rightarrow> json" where
  "ticket_json t = JObject
     ([(''ticketId'', JString (td_TicketID t))] @
      omit_string ''startTime'' (td_StartTime t) @
      [(''players'', JArray (map player_json (td_Players t)))])"

definition metric_json :: "rule_eval_metric \<Rightarrow> json" where
  "metric_json m = JObject
     [(''ruleName'', JString (wm_RuleName m)), (''passedCount'', JInt (wm_PassedCount m)),
      (''failedCount'', JInt (wm_FailedCount m))]"

definition session_json :: "game_session_info \<Rightarrow> json" where
  "session_json g = JObject
     (omit_string ''ipAddress'' (gs_IPAddress g) @
      (if gs_Port g = 0 then [] else [(''port'', JInt (gs_Port g))]) @
      omit_string ''gameSessionArn'' (gs_GameSessionARN g) @
      omit_string ''matchId'' (gs_MatchID g) @
      [(''players'', JArray (map player_json (gs_Players g)))])"

definition detail_json :: "detail \<Rightarrow> json" where
  "detail_json d = JObject
     ([(''type'', JString (dt_Type d))] @
      omit_list ''tickets'' (map ticket_json (dt_Tickets d)) @
      omit_string ''matchId'' (dt_MatchID d) @
      omit_option ''acceptanceRequired'' (map_option JBool (dt_AcceptanceRequired d)) @
      omit_option ''acceptanceTimeout'' (map_option JInt (dt_AcceptanceTimeout d)) @
      omit_string ''acceptance'' (dt_Acceptance d) @
      omit_list ''ruleEvaluationMetrics'' (map metric_json (dt_RuleEvaluationMetric d)) @
      omit_option ''estimatedWaitMillis'' (dt_EstimatedWaitMillis d) @
      omit_option ''gameSessionInfo'' (map_option session_json (dt_GameSessionInfo d)) @
      omit_string ''customEventData'' (dt_CustomEventData d) @
      omit_string ''reason'' (dt_Reason d) @
      omit_string ''message'' (dt_Message d))"

definition envelope_json :: "envelope \<Rightarrow> json" where
  "envelope_json e = JObject
     [(''version'', JString (en_Version e)), (''id'', JString (en_ID e)),
      (''detail-type'', JString (en_DetailType e)), (''source'', JString (en_Source e)),
      (''account'', JString (en_Account e)), (''time'', JString (en_Time e)),
      (''region'', JString (en_Region e)), (''resources'', JArray (map JString (en_Resources e))),
      (''detail'', detail_json (en_Detail e))]"

definition MarshalContext ::
  "translator \<Rightarrow> event_snapshot option \<Rightarrow> event \<Rightarrow> idgen \<Rightarrow> string \<times> idgen" where
  "MarshalContext t snap e g = (let (env, g) = RenderContext t snap e g in (json_text (envelope_json env), g))"

definition Marshal :: "translator \<Rightarrow> event \<Rightarrow> idgen \<Rightarrow> string \<times> idgen" where
  "Marshal t e = MarshalContext t None e"

end
