(* ===== verification/Publisher.thy ===== *)
theory Publisher
  imports Notification
begin

text \<open>
  The publishers themselves: the SNS and SQS adapters, the filter, the fan-out and the no-op, and
  the interface \<open>ports.EventPublisher\<close> they share. The HTTP client and the SQS client are
  parameters; what they do to the outside world is a state of its own.
\<close>

section \<open>The outside world\<close>

record http_request =
  rq_Method :: string
  rq_URL :: string
  rq_Headers :: "(string \<times> string) list"
  rq_Body :: string

record sqs_message =
  sm_QueueUrl :: string
  sm_MessageBody :: string

datatype pub_err =
    BadURL string
  | PostFailed string
  | SubscriberStatus int
  | SendFailed string
  | Joined "pub_err list"

text \<open>
  \<open>nx_ParseURL\<close> is the error \<open>net/url\<close> reports for a URL, if any; \<open>nx_Do\<close> answers a request with an
  error or a status code; \<open>nx_SendMessage\<close> sends one message.
\<close>

record 'w net =
  nx_ParseURL :: "string \<Rightarrow> string option"
  nx_Do :: "http_request \<Rightarrow> 'w \<Rightarrow> (string + int) \<times> 'w"
  nx_SendMessage :: "sqs_message \<Rightarrow> 'w \<Rightarrow> string option \<times> 'w"

text \<open>What a publisher works on: the shared identifier generator and the outside world.\<close>

record 'w wire =
  wi_ids :: idgen
  wi_world :: 'w

type_synonym 'w publisher = "event_snapshot option \<Rightarrow> event \<Rightarrow> 'w wire \<Rightarrow> pub_err option \<times> 'w wire"

section \<open>SNS over HTTP\<close>

record sns_notification =
  sn_Type :: string
  sn_MessageID :: string
  sn_TopicARN :: string
  sn_Subject :: string
  sn_Message :: string
  sn_Timestamp :: string
  sn_SignatureVersion :: string
  sn_Signature :: string
  sn_SigningCertURL :: string
  sn_UnsubscribeURL :: string

definition placeholderTopicARN :: string where
  "placeholderTopicARN = ''arn:aws:sns:local:000000000000:fmlocal''"

definition sns_note :: "string \<Rightarrow> string \<Rightarrow> event \<Rightarrow> sns_notification" where
  "sns_note i body e =
     \<lparr>sn_Type = ''Notification'', sn_MessageID = i, sn_TopicARN = placeholderTopicARN, sn_Subject = [],
      sn_Message = body, sn_Timestamp = format_nanos (ev_occurredAt (event_base e)),
      sn_SignatureVersion = ''1'', sn_Signature = ''fmlocal-unsigned'',
      sn_SigningCertURL = ''http://fmlocal.local/cert.pem'',
      sn_UnsubscribeURL = ''http://fmlocal.local/unsubscribe''\<rparr>"

definition sns_json :: "sns_notification \<Rightarrow> json" where
  "sns_json n = JObject
     ([(''Type'', JString (sn_Type n)), (''MessageId'', JString (sn_MessageID n)),
       (''TopicArn'', JString (sn_TopicARN n))] @
      omit_string ''Subject'' (sn_Subject n) @
      [(''Message'', JString (sn_Message n)), (''Timestamp'', JString (sn_Timestamp n)),
       (''SignatureVersion'', JString (sn_SignatureVersion n)), (''Signature'', JString (sn_Signature n)),
       (''SigningCertURL'', JString (sn_SigningCertURL n)),
       (''UnsubscribeURL'', JString (sn_UnsubscribeURL n))])"

definition sns_request :: "string \<Rightarrow> sns_notification \<Rightarrow> http_request" where
  "sns_request url n =
     \<lparr>rq_Method = ''POST'', rq_URL = url,
      rq_Headers = [(''Content-Type'', ''application/json''),
        (''x-amz-sns-message-type'', ''Notification''),
        (''x-amz-sns-message-id'', sn_MessageID n), (''x-amz-sns-topic-arn'', sn_TopicARN n)],
      rq_Body = json_text (sns_json n)\<rparr>"

definition sns_publish :: "'w net \<Rightarrow> string \<Rightarrow> translator \<Rightarrow> 'w publisher" where
  "sns_publish nx url t snap e s =
     (let (body, g) = MarshalContext t snap e (wi_ids s); (i, g) = NewID g;
          s = s\<lparr>wi_ids := g\<rparr>
      in case nx_ParseURL nx url of
           Some x \<Rightarrow> (Some (BadURL x), s)
         | None \<Rightarrow>
             (let (r, w) = nx_Do nx (sns_request url (sns_note i body e)) (wi_world s);
                  s = s\<lparr>wi_world := w\<rparr>
              in case r of
                   Inl x \<Rightarrow> (Some (PostFailed x), s)
                 | Inr code \<Rightarrow> (if 400 \<le> code then Some (SubscriberStatus code) else None, s)))"

section \<open>EventBridge to SQS\<close>

definition sqs_publish :: "'w net \<Rightarrow> string \<Rightarrow> translator \<Rightarrow> 'w publisher" where
  "sqs_publish nx url t snap e s =
     (let (body, g) = MarshalContext t snap e (wi_ids s);
          (r, w) = nx_SendMessage nx \<lparr>sm_QueueUrl = url, sm_MessageBody = body\<rparr> (wi_world s)
      in (map_option SendFailed r, s\<lparr>wi_ids := g, wi_world := w\<rparr>))"

section \<open>Publishers of publishers\<close>

definition Noop :: "'w publisher" where
  "Noop snap e s = (None, s)"

definition Filtered :: "'w publisher \<Rightarrow> string list \<Rightarrow> 'w publisher" where
  "Filtered inner names snap e s =
     (if names \<noteq> [] \<and> EventName e \<notin> set names then (None, s) else inner snap e s)"

fun publish_children :: "'w publisher list \<Rightarrow> event_snapshot option \<Rightarrow> event \<Rightarrow> 'w wire \<Rightarrow>
    pub_err list \<times> 'w wire" where
  "publish_children [] snap e s = ([], s)"
| "publish_children (p # ps) snap e s =
     (let (x, s) = p snap e s; (xs, s) = publish_children ps snap e s
      in (case x of None \<Rightarrow> xs | Some y \<Rightarrow> y # xs, s))"

definition Multi :: "'w publisher list \<Rightarrow> 'w publisher" where
  "Multi children snap e s =
     (let (errs, s) = publish_children children snap e s
      in (if errs = [] then None else Some (Joined errs), s))"

text \<open>
  What the delivery worker of a lane does with its events (\<open>publishOne\<close>): each goes to the
  publisher with the snapshot it was recorded with; a failure is logged and the next one follows.
\<close>

definition publishOne :: "'w publisher \<Rightarrow> recorded_event \<Rightarrow> 'w wire \<Rightarrow> 'w wire" where
  "publishOne p re s = snd (p (Some (re_snapshot re)) (re_event re) s)"

definition publish_all :: "'w publisher \<Rightarrow> recorded_event list \<Rightarrow> 'w wire \<Rightarrow> 'w wire" where
  "publish_all p res s = fold (publishOne p) res s"

section \<open>The interface\<close>

text \<open>
  A publisher has the events it passes on; the others it drops without a trace. Each publisher
  says which they are.
\<close>

locale event_publisher =
  fixes publish :: "'w publisher" and passes :: "event \<Rightarrow> bool"
  assumes drops: "\<not> passes e \<Longrightarrow> publish snap e s = (None, s)"
begin

text \<open>What is dropped might as well never have been published.\<close>

lemma only_passing: "publish_all publish res s = publish_all publish (filter (\<lambda>re. passes (re_event re)) res) s"
  by (induction res arbitrary: s) (simp_all add: publish_all_def publishOne_def drops)

end

interpretation noop: event_publisher Noop "\<lambda>_. False"
  by unfold_locales (simp add: Noop_def)

lemma filtered_passes: "names = [] \<or> (EventName e \<in> set names) \<Longrightarrow> Filtered p names snap e s = p snap e s"
  by (auto simp: Filtered_def)

text \<open>The filter passes on its names' events, and what its inner publisher then does.\<close>

interpretation filtered: event_publisher "Filtered p names"
    "\<lambda>e. names = [] \<or> EventName e \<in> set names" for p :: "'w publisher" and names
  by unfold_locales (auto simp: Filtered_def)

lemma filtered_all:
  "(\<forall>re\<in>set res. names = [] \<or> EventName (re_event re) \<in> set names) \<Longrightarrow>
   publish_all (Filtered p names) res s = publish_all p res s"
proof (induction res arbitrary: s)
  case (Cons re res)
  then have "names = [] \<or> EventName (re_event re) \<in> set names" by auto
  then have "publishOne (Filtered p names) re s = publishOne p re s"
    by (simp only: publishOne_def filtered_passes)
  with Cons show ?case by (simp add: publish_all_def)
qed (simp add: publish_all_def)

text \<open>The children of a fan-out are called one after another, whatever they return.\<close>

lemma publish_children_world:
  "snd (publish_children ps snap e s) = fold (\<lambda>p s. snd (p snap e s)) ps s"
  by (induction ps arbitrary: s) (auto simp: case_prod_unfold Let_def)

text \<open>Their errors, in order.\<close>

lemma publish_children_errors:
  "fst (publish_children (p # ps) snap e s) =
     (case fst (p snap e s) of None \<Rightarrow> [] | Some x \<Rightarrow> [x]) @ fst (publish_children ps snap e (snd (p snap e s)))"
  by (simp add: case_prod_unfold Let_def split: option.split)

end
