(* ===== verification/Json_Laws.thy ===== *)
theory Json_Laws
  imports Json
begin

text \<open>
  What the rendering keeps: reading the text of a value gives the value back, up to the bytes
  that are no UTF-8 (the encoder replaces each by U+FFFD), and every rendered text is UTF-8 itself.
\<close>

section \<open>Valid UTF-8\<close>

function to_valid :: "string \<Rightarrow> string" where
  "to_valid s =
     (if s = [] then []
      else let n = rune_at s in
        (if n = 0 then utf8_of 65533 else take n s) @ to_valid (drop (max 1 n) s))"
  by pat_completeness auto
termination by (relation "measure length") auto

declare to_valid.simps [simp del]

function valid_utf8 :: "string \<Rightarrow> bool" where
  "valid_utf8 s = (if s = [] then True else 0 < rune_at s \<and> valid_utf8 (drop (max 1 (rune_at s)) s))"
  by pat_completeness auto
termination by (relation "measure length") auto

declare valid_utf8.simps [simp del]

lemma valid_Nil [simp]: "valid_utf8 []"
  by (simp add: valid_utf8.simps)

lemma valid_step: "s \<noteq> [] \<Longrightarrow> valid_utf8 s \<longleftrightarrow> 0 < rune_at s \<and> valid_utf8 (drop (rune_at s) s)"
  by (subst valid_utf8.simps) (auto simp: max_def Suc_le_eq)

lemma to_valid_step:
  "s \<noteq> [] \<Longrightarrow> 0 < rune_at s \<Longrightarrow> to_valid s = take (rune_at s) s @ to_valid (drop (rune_at s) s)"
  by (subst to_valid.simps) (auto simp: max_def Let_def Suc_le_eq)

lemma to_valid_Nil [simp]: "to_valid [] = []"
  by (simp add: to_valid.simps)

lemma to_valid_id: "valid_utf8 s \<Longrightarrow> to_valid s = s"
proof (induction "length s" arbitrary: s rule: less_induct)
  case less
  show ?case
  proof (cases "s = []")
    case False
    with less.prems have n: "0 < rune_at s" "valid_utf8 (drop (rune_at s) s)"
      by (simp_all add: valid_step)
    then have "to_valid (drop (rune_at s) s) = drop (rune_at s) s"
      using less.hyps False by simp
    with n False show ?thesis by (simp only: to_valid_step append_take_drop_id not_False_eq_True)
  qed simp
qed

lemma rune_len_append:
  assumes "0 < rune_len s"
  shows "rune_len (s @ t) = rune_len s"
proof -
  obtain a r where s: "s = a # r" using assms by (cases s) (auto simp: rune_len_def)
  show ?thesis
    using assms unfolding s rune_len_def
    by (cases r; cases "tl r"; cases "tl (tl r)") (auto split: if_splits)
qed

lemma rune_at_append: "0 < rune_at s \<Longrightarrow> rune_at (s @ t) = rune_at s"
  by (simp add: rune_at_def rune_len_append)

lemma rune_at_le: "rune_at s \<le> length s"
proof (cases "rune_at s \<le> 1")
  case True
  then show ?thesis by (cases s) auto
qed (use rune_at_long in auto)

lemma valid_append: "valid_utf8 s \<Longrightarrow> valid_utf8 t \<Longrightarrow> valid_utf8 (s @ t)"
proof (induction "length s" arbitrary: s rule: less_induct)
  case less
  show ?case
  proof (cases "s = []")
    case False
    then have n: "0 < rune_at s" "valid_utf8 (drop (rune_at s) s)"
      using less.prems by (simp_all add: valid_step)
    then have "valid_utf8 (drop (rune_at s) s @ t)" using less False by simp
    with n(1) False rune_at_le [of s] show ?thesis by (simp add: valid_step rune_at_append)
  qed (use less in simp)
qed

lemma valid_ascii: "list_all (\<lambda>c. (of_char c :: nat) < 128) s \<Longrightarrow> valid_utf8 s"
proof (induction s)
  case (Cons c s)
  then have "rune_at (c # s) = 1" by (subst rune_at_one) simp
  with Cons show ?case by (simp add: valid_step)
qed simp

lemma valid_join:
  assumes "valid_utf8 sep" and "\<forall>x\<in>set xs. valid_utf8 x"
  shows "valid_utf8 (join sep xs)"
  using assms by (induction sep xs rule: join.induct) (auto intro!: valid_append)

lemma hex_digit_ascii: "k < 16 \<Longrightarrow> (of_char (hex_digit k) :: nat) < 128"
  by (auto simp: hex_digit_def)

lemma escape_ascii_valid: "(of_char c :: nat) < 128 \<Longrightarrow> valid_utf8 (escape_ascii c)"
  by (rule valid_ascii) (auto simp: escape_ascii_def Let_def backslash_def intro!: hex_digit_ascii)

lemma escape_rune_valid:
  assumes "s \<noteq> []" and "n = rune_at s"
  shows "valid_utf8 (escape_rune n s)"
proof -
  consider "n = 0" | "n = 1" | "2 \<le> n" by linarith
  then show ?thesis
  proof cases
    case 1
    then show ?thesis by (auto simp: escape_rune_def backslash_def intro!: valid_ascii)
  next
    case 2
    then have "(of_char (hd s) :: nat) < 128"
      using assms rune_at_one [of "hd s" "tl s"] by simp
    with 2 show ?thesis by (simp add: escape_rune_def escape_ascii_valid)
  next
    case 3
    have "rune_len (take (rune_len bs) bs) = rune_len bs" for bs
      by (cases bs; cases "tl bs"; cases "tl (tl bs)"; cases "tl (tl (tl bs))") (auto simp: rune_len_def)
    then have "rune_at (take n s) = n" unfolding assms rune_at_def by (simp only: take_map [symmetric])
    then have "valid_utf8 (take n s)" using 3 assms(1) by (subst valid_step) auto
    moreover have "valid_utf8 (backslash # ''u2028'')" "valid_utf8 (backslash # ''u2029'')"
      by (auto simp: backslash_def intro!: valid_ascii)
    ultimately show ?thesis using 3 by (simp add: escape_rune_def)
  qed
qed

lemma escape_valid: "valid_utf8 (escape s)"
proof (induction s rule: escape.induct)
  case (1 s)
  show ?case
    using 1 by (subst escape.simps) (auto simp: Let_def intro!: valid_append escape_rune_valid)
qed

lemma json_quote_valid: "valid_utf8 (json_quote s)"
proof -
  have "valid_utf8 ([dquote] @ escape s @ [dquote])"
    by (intro valid_append escape_valid) (auto simp: dquote_def intro!: valid_ascii)
  then show ?thesis by (simp add: json_quote_def)
qed

lemma valid_colon: "valid_utf8 s \<Longrightarrow> valid_utf8 (CHR '':'' # s)"
  using valid_append [of "'':''" s] by (simp add: valid_ascii)

lemma digit_ascii: "(of_char (digit n) :: nat) < 128"
  by simp

lemma nat_digits_ascii: "list_all (\<lambda>c. (of_char c :: nat) < 128) (nat_digits n)"
  by (induction n rule: nat_digits.induct) (subst nat_digits.simps, auto)

lemma json_text_valid: "valid_utf8 (json_text j)"
proof (induction j rule: json_text.induct)
  case (3 i)
  then show ?case
    by (auto simp: int_text_def intro!: valid_append nat_digits_ascii valid_ascii)
next
  case (4 s)
  then show ?case by (simp add: json_quote_valid)
next
  case (5 xs)
  have "valid_utf8 (join '','' (map json_text xs))"
    using 5 by (intro valid_join) (auto intro: valid_ascii)
  then have "valid_utf8 (''['' @ join '','' (map json_text xs) @ '']'')"
    by (intro valid_append) (auto intro!: valid_ascii)
  then show ?case by simp
next
  case (6 fs)
  have "valid_utf8 (join '','' (map (\<lambda>f. json_quote (fst f) @ '':'' @ json_text (snd f)) fs))"
    using 6 by (intro valid_join ballI)
      (simp add: valid_ascii, auto intro!: valid_append [OF json_quote_valid] valid_colon)
  then have "valid_utf8 (''{'' @ join '','' (map (\<lambda>f. json_quote (fst f) @ '':'' @ json_text (snd f)) fs) @ ''}'')"
    by (intro valid_append) (auto intro!: valid_ascii)
  then show ?case by simp
qed (auto intro!: valid_ascii)

section \<open>Reading what was rendered\<close>

lemma hex_val_digit: "k < 16 \<Longrightarrow> hex_val (hex_digit k) = Some k"
  by (auto simp: hex_val_def hex_digit_def)

lemma unquote_plain:
  "\<forall>c\<in>set p. c \<noteq> dquote \<and> c \<noteq> backslash \<Longrightarrow>
   unquote (p @ r) = map_option (\<lambda>(x, t). (p @ x, t)) (unquote r)"
  by (induction p) (auto simp: option.map_comp o_def case_prod_unfold map_option.identity)

lemma unquote_escaped:
  assumes "unescape e r = Some (x, r')"
  shows "unquote (backslash # e # r) = map_option (\<lambda>(s, t). (x @ s, t)) (unquote r')"
proof -
  have "backslash \<noteq> dquote" by (simp add: backslash_def dquote_def)
  with assms show ?thesis by simp
qed

lemma unescape_u:
  "hex_val a = Some w \<Longrightarrow> hex_val b = Some x \<Longrightarrow> hex_val c = Some y \<Longrightarrow> hex_val d = Some z \<Longrightarrow>
   unescape (CHR ''u'') (a # b # c # d # r) = Some (utf8_of (4096 * w + 256 * x + 16 * y + z), r)"
  by (simp add: unescape.simps dquote_def backslash_def)

lemma unquote_ascii:
  assumes "(of_char c :: nat) < 128"
  shows "unquote (escape_ascii c @ r) = map_option (\<lambda>(x, t). (c # x, t)) (unquote r)"
proof -
  let ?b = "of_char c :: nat"
  have byte: "?b = k \<Longrightarrow> char_of k = c" for k by auto
  consider (quoted) "c = dquote \<or> c = backslash"
    | (letter) "?b = 8 \<or> ?b = 12 \<or> ?b = 10 \<or> ?b = 13 \<or> ?b = 9" "c \<noteq> dquote" "c \<noteq> backslash"
    | (hex) "escape_ascii c = [backslash, CHR ''u'', CHR ''0'', CHR ''0'', hex_digit (?b div 16), hex_digit (?b mod 16)]"
    | (plain) "escape_ascii c = [c]" "c \<noteq> dquote" "c \<noteq> backslash"
    by (cases "c = dquote \<or> c = backslash";
        cases "?b = 8 \<or> ?b = 12 \<or> ?b = 10 \<or> ?b = 13 \<or> ?b = 9";
        cases "?b < 32 \<or> c = CHR ''<'' \<or> c = CHR ''>'' \<or> c = CHR ''&''")
       (auto simp: escape_ascii_def Let_def)
  then show ?thesis
  proof cases
    case quoted
    then have "escape_ascii c = [backslash, c]" "unescape c r = Some ([c], r)"
      by (auto simp: escape_ascii_def Let_def unescape.simps)
    then show ?thesis using unquote_escaped [of c r "[c]" r] by simp
  next
    case letter
    from letter(1) have "\<exists>e. escape_ascii c = [backslash, e] \<and> unescape e r = Some ([c], r)"
      using letter(2,3) byte [of 8] byte [of 12] byte [of 10] byte [of 13] byte [of 9]
      by (elim disjE) (simp_all add: escape_ascii_def unescape.simps dquote_def backslash_def)
    then obtain e where "escape_ascii c = [backslash, e]" "unescape e r = Some ([c], r)" by blast
    then show ?thesis using unquote_escaped [of e r "[c]" r] by simp
  next
    case hex
    have "hex_val (CHR ''0'') = Some 0" by (simp add: hex_val_def)
    moreover have "hex_val (hex_digit (?b div 16)) = Some (?b div 16)"
      "hex_val (hex_digit (?b mod 16)) = Some (?b mod 16)"
      using assms by (simp_all add: hex_val_digit)
    ultimately have "unescape (CHR ''u'') (CHR ''0'' # CHR ''0'' # hex_digit (?b div 16) # hex_digit (?b mod 16) # r) =
        Some (utf8_of (16 * (?b div 16) + ?b mod 16), r)"
      by (subst unescape_u) auto
    moreover have "utf8_of (16 * (?b div 16) + ?b mod 16) = [c]" using assms by (simp add: utf8_of_def)
    ultimately show ?thesis unfolding hex append_Cons append_Nil
      by (simp only: unquote_escaped append_Cons append_Nil)
  next
    case plain
    then show ?thesis using unquote_plain [of "[c]" r] by simp
  qed
qed

lemma unquote_rune:
  assumes "s \<noteq> []" and "n = rune_at s"
  shows "unquote (escape_rune n s @ r) =
    map_option (\<lambda>(x, t). ((if n = 0 then utf8_of 65533 else take n s) @ x, t)) (unquote r)"
proof -
  have u: "unquote (backslash # CHR ''u'' # a # b # c # d # r) = map_option (\<lambda>(x, t). (p @ x, t)) (unquote r)"
    if "hex_val a = Some w" "hex_val b = Some x" "hex_val c = Some y" "hex_val d = Some z"
      "utf8_of (4096 * w + 256 * x + 16 * y + z) = p" for a b c d w x y z p
    using unquote_escaped [OF unescape_u [OF that(1-4)]] that(5) by simp
  consider "n = 0" | "n = 1" | "2 \<le> n" by linarith
  then show ?thesis
  proof cases
    case 1
    have "unquote (backslash # CHR ''u'' # CHR ''f'' # CHR ''f'' # CHR ''f'' # CHR ''d'' # r) =
        map_option (\<lambda>(x, t). (utf8_of 65533 @ x, t)) (unquote r)"
      by (rule u [where w = 15 and x = 15 and y = 15 and z = 13]) (simp_all add: hex_val_def)
    with 1 show ?thesis by (simp add: escape_rune_def del: unquote.simps)
  next
    case 2
    then have "(of_char (hd s) :: nat) < 128" "take n s = [hd s]"
      using assms rune_at_one [of "hd s" "tl s"] by (simp_all add: take_Suc)
    with 2 show ?thesis using unquote_ascii [of "hd s" r] by (simp add: escape_rune_def)
  next
    case 3
    note far = rune_at_long [OF assms(2) [symmetric] 3]
    have "unquote (take n s @ r) = map_option (\<lambda>(x, t). (take n s @ x, t)) (unquote r)"
      using far(2) by (intro unquote_plain) (auto simp: dquote_def backslash_def)
    moreover have "unquote (backslash # CHR ''u'' # CHR ''2'' # CHR ''0'' # CHR ''2'' # CHR ''8'' # r) =
        map_option (\<lambda>(x, t). ([CHR 0xE2, CHR 0x80, CHR 0xA8] @ x, t)) (unquote r)"
      by (rule u [where w = 2 and x = 0 and y = 2 and z = 8])
        (simp_all add: hex_val_def utf8_of_def char_of_def bit_iff_odd)
    moreover have "unquote (backslash # CHR ''u'' # CHR ''2'' # CHR ''0'' # CHR ''2'' # CHR ''9'' # r) =
        map_option (\<lambda>(x, t). ([CHR 0xE2, CHR 0x80, CHR 0xA9] @ x, t)) (unquote r)"
      by (rule u [where w = 2 and x = 0 and y = 2 and z = 9])
        (simp_all add: hex_val_def utf8_of_def char_of_def bit_iff_odd)
    ultimately show ?thesis using 3 by (simp add: escape_rune_def del: unquote.simps)
  qed
qed

lemma unquote_escape: "unquote (escape s @ dquote # r) = Some (to_valid s, r)"
proof (induction s rule: escape.induct)
  case (1 s)
  show ?case
  proof (cases "s = []")
    case False
    let ?n = "rune_at s" and ?d = "drop (max 1 (rune_at s)) s"
    have "unquote (escape s @ dquote # r) = unquote (escape_rune ?n s @ escape ?d @ dquote # r)"
      using False by (subst escape.simps) (simp add: Let_def)
    also have "\<dots> = Some ((if ?n = 0 then utf8_of 65533 else take ?n s) @ to_valid ?d, r)"
      by (simp only: unquote_rune [OF False refl] 1 [OF False refl]) simp
    also have "\<dots> = Some (to_valid s, r)"
      using False by (subst (2) to_valid.simps) (simp add: Let_def)
    finally show ?thesis .
  qed (simp add: escape.simps)
qed

text \<open>Numbers: the digits of \<open>n\<close> end where the text that follows has no digit.\<close>

abbreviation no_digit :: "string \<Rightarrow> bool" where
  "no_digit r \<equiv> r = [] \<or> \<not> is_digit (hd r)"

lemma nat_digits_value: "digits_value (nat_digits n) = n"
proof (induction n rule: nat_digits.induct)
  case (1 n)
  then show ?case by (subst nat_digits.simps) (simp add: digits_value_def)
qed

lemma nat_digits_digits: "\<forall>c\<in>set (nat_digits n). is_digit c"
proof (induction n rule: nat_digits.induct)
  case (1 n)
  then show ?case by (subst nat_digits.simps) (auto simp: is_digit_def)
qed

lemma read_nat_digits: "no_digit r \<Longrightarrow> read_nat (nat_digits n @ r) = (n, r)"
proof -
  assume r: "no_digit r"
  have "takeWhile is_digit r = []" "dropWhile is_digit r = r" using r by (cases r; simp)+
  then show ?thesis
    using nat_digits_digits [of n]
    by (simp add: read_nat_def takeWhile_append2 dropWhile_append2 nat_digits_value)
qed

lemma nat_digits_first: "\<exists>c s. nat_digits n = c # s \<and> is_digit c"
proof -
  have "nat_digits n \<noteq> []" by (subst nat_digits.simps) simp
  then show ?thesis using nat_digits_digits [of n] by (cases "nat_digits n") auto
qed

lemma read_int:
  assumes "no_digit r"
  shows "read_value (Suc k) (int_text i @ r) = Some (JInt i, r)"
proof (cases "i < 0")
  case True
  then show ?thesis using read_nat_digits [OF assms, of "nat \<bar>i\<bar>"]
    by (simp add: int_text_def dquote_def)
next
  case False
  then obtain c s where c: "nat_digits (nat \<bar>i\<bar>) = c # s" "is_digit c" using nat_digits_first by blast
  then have "c \<noteq> dquote" "c \<noteq> CHR ''[''" "c \<noteq> CHR ''{''" "c \<noteq> CHR ''-''"
    by (auto simp: is_digit_def dquote_def)
  with False c show ?thesis using read_nat_digits [OF assms, of "nat \<bar>i\<bar>"]
    by (simp add: int_text_def)
qed

text \<open>The value that survives: every string in it made valid.\<close>

fun clean :: "json \<Rightarrow> json" where
  "clean (JString s) = JString (to_valid s)"
| "clean (JArray xs) = JArray (map clean xs)"
| "clean (JObject fs) = JObject (map (\<lambda>f. (to_valid (fst f), clean (snd f))) fs)"
| "clean j = j"

definition reads_back :: "json \<Rightarrow> bool" where
  "reads_back j \<longleftrightarrow> (\<forall>k r. length (json_text j) < k \<longrightarrow> no_digit r \<longrightarrow>
     read_value k (json_text j @ r) = Some (clean j, r))"

lemma reads_backD:
  "reads_back j \<Longrightarrow> length (json_text j) < k \<Longrightarrow> no_digit r \<Longrightarrow>
   read_value k (json_text j @ r) = Some (clean j, r)"
  unfolding reads_back_def by blast

lemma read_items_text:
  assumes "\<forall>x\<in>set xs. reads_back x" and "xs \<noteq> []" and "length (join '','' (map json_text xs)) + 1 < k"
  shows "read_items k (join '','' (map json_text xs) @ CHR '']'' # r) = Some (map clean xs, r)"
  using assms
proof (induction xs arbitrary: k)
  case (Cons x xs)
  then obtain m where k: "k = Suc m" by (cases k) auto
  have d: "no_digit (CHR '']'' # u)" "no_digit (CHR '','' # u)" for u by (simp_all add: is_digit_def)
  show ?case
  proof (cases "xs = []")
    case True
    have "read_value m (json_text x @ CHR '']'' # r) = Some (clean x, CHR '']'' # r)"
      using Cons.prems True k by (intro reads_backD d) auto
    with True k show ?thesis by simp
  next
    case False
    let ?t = "join '','' (map json_text xs)"
    have j: "join '','' (map json_text (x # xs)) = json_text x @ CHR '','' # ?t"
      using False by (simp add: join_Cons)
    have "read_items m (?t @ CHR '']'' # r) = Some (map clean xs, r)"
      using Cons.prems False j k by (intro Cons.IH) auto
    moreover have "read_value m (json_text x @ CHR '','' # ?t @ CHR '']'' # r) =
        Some (clean x, CHR '','' # ?t @ CHR '']'' # r)"
      using Cons.prems j k by (intro reads_backD d) auto
    ultimately show ?thesis unfolding j k by simp
  qed
qed simp

abbreviation member_text :: "string \<times> json \<Rightarrow> string" where
  "member_text f \<equiv> json_quote (fst f) @ '':'' @ json_text (snd f)"

lemma unquote_member:
  "take 1 (member_text f @ r) = [dquote]"
  "unquote (drop 1 (member_text f @ r)) = Some (to_valid (fst f), CHR '':'' # json_text (snd f) @ r)"
  using unquote_escape [of "fst f" "CHR '':'' # json_text (snd f) @ r"] by (simp_all add: json_quote_def)

lemma read_members_text:
  assumes "\<forall>f\<in>set fs. reads_back (snd f)" and "fs \<noteq> []" and "length (join '','' (map member_text fs)) + 1 < k"
  shows "read_members k (join '','' (map member_text fs) @ CHR ''}'' # r) =
    Some (map (\<lambda>f. (to_valid (fst f), clean (snd f))) fs, r)"
  using assms
proof (induction fs arbitrary: k)
  case (Cons f fs)
  then obtain m where k: "k = Suc m" by (cases k) auto
  have d: "no_digit (CHR ''}'' # u)" "no_digit (CHR '','' # u)" for u by (simp_all add: is_digit_def)
  show ?case
  proof (cases "fs = []")
    case True
    have "read_value m (json_text (snd f) @ CHR ''}'' # r) = Some (clean (snd f), CHR ''}'' # r)"
      using Cons.prems True k by (intro reads_backD d) auto
    with True k show ?thesis using unquote_member [of f "CHR ''}'' # r"] by simp
  next
    case False
    let ?t = "join '','' (map member_text fs)"
    have j: "join '','' (map member_text (f # fs)) = member_text f @ CHR '','' # ?t"
      using False by (simp add: join_Cons)
    have "read_members m (?t @ CHR ''}'' # r) = Some (map (\<lambda>f. (to_valid (fst f), clean (snd f))) fs, r)"
      using Cons.prems False j k by (intro Cons.IH) auto
    moreover have "read_value m (json_text (snd f) @ CHR '','' # ?t @ CHR ''}'' # r) =
        Some (clean (snd f), CHR '','' # ?t @ CHR ''}'' # r)"
      using Cons.prems j k by (intro reads_backD d) auto
    ultimately show ?thesis
      unfolding j k using unquote_member [of f "CHR '','' # ?t @ CHR ''}'' # r"] by simp
  qed
qed simp

lemma json_text_first: "\<exists>c s. json_text j = c # s \<and> c \<noteq> CHR '']''"
proof (cases j)
  case (JInt i)
  show ?thesis
  proof (cases "i < 0")
    case False
    then show ?thesis
      using JInt nat_digits_first [of "nat \<bar>i\<bar>"] by (auto simp: int_text_def is_digit_def)
  qed (use JInt in \<open>simp add: int_text_def\<close>)
qed (auto simp: json_quote_def dquote_def)

lemma join_first: "\<exists>c s. x = c # s \<and> P c \<Longrightarrow> \<exists>c s. join sep (x # xs) = c # s \<and> P c"
  by (cases xs) auto

lemma json_reads_back: "reads_back j"
proof (induction j rule: json_text.induct)
  case (5 xs)
  have "read_value k (json_text (JArray xs) @ r) = Some (clean (JArray xs), r)"
    if k: "length (json_text (JArray xs)) < k" for k r
  proof (cases "xs = []")
    case False
    let ?t = "join '','' (map json_text xs)"
    obtain m where m: "k = Suc m" using k by (cases k) auto
    then have "read_items m (?t @ CHR '']'' # r) = Some (map clean xs, r)"
      using 5 False k by (intro read_items_text) auto
    moreover obtain c s where "?t = c # s" "c \<noteq> CHR '']''"
      using False join_first [OF json_text_first] by (cases xs) (auto, metis)
    ultimately show ?thesis by (simp add: m dquote_def)
  qed (use k in \<open>cases k; simp add: dquote_def\<close>)
  then show ?case by (simp add: reads_back_def)
next
  case (6 fs)
  have "read_value k (json_text (JObject fs) @ r) = Some (clean (JObject fs), r)"
    if k: "length (json_text (JObject fs)) < k" for k r
  proof (cases "fs = []")
    case False
    let ?t = "join '','' (map member_text fs)"
    obtain m where m: "k = Suc m" using k by (cases k) auto
    then have "read_members m (?t @ CHR ''}'' # r) = Some (map (\<lambda>f. (to_valid (fst f), clean (snd f))) fs, r)"
      using 6 False k by (intro read_members_text) auto
    moreover have "\<exists>c s. ?t = c # s \<and> c = dquote"
    proof -
      obtain f gs where fs: "fs = f # gs" using False by (cases fs) auto
      have "\<exists>c s. member_text f = c # s \<and> c = dquote" by (simp add: json_quote_def)
      then show ?thesis unfolding fs list.map by (rule join_first)
    qed
    then obtain s where "?t = dquote # s" by blast
    ultimately show ?thesis by (simp add: m dquote_def)
  qed (use k in \<open>cases k; simp add: dquote_def\<close>)
  then show ?case by (simp add: reads_back_def)
next
  case (4 s)
  have "read_value k (json_text (JString s) @ r) = Some (JString (to_valid s), r)" if "0 < k" for k r
    using that unquote_escape [of s r] by (cases k) (simp_all add: json_quote_def)
  then show ?case by (simp add: reads_back_def)
next
  case (3 i)
  have "read_value k (json_text (JInt i) @ r) = Some (JInt i, r)" if "0 < k" "no_digit r" for k r
    using that read_int [of r "k - 1" i] by simp
  then show ?case unfolding reads_back_def by auto
next
  case 1
  have "read_value k (json_text JNull @ r) = Some (JNull, r)" if "0 < k" for k r
    using that by (cases k) (simp_all add: dquote_def is_digit_def)
  then show ?case by (simp add: reads_back_def)
next
  case (2 b)
  have "read_value k (json_text (JBool b) @ r) = Some (JBool b, r)" if "0 < k" for k r
    using that by (cases k; cases b) (simp_all add: dquote_def is_digit_def)
  then show ?case by (simp add: reads_back_def)
qed

text \<open>The text of a value is read as that value, its strings made valid UTF-8.\<close>

lemma json_read_text: "json_read (json_text j) = Some (clean j)"
  using reads_backD [OF json_reads_back, of j "length (json_text j) + 1" "[]"]
  by (simp add: json_read_def del: read_value.simps)

text \<open>A text nested as a string in another value arrives unchanged.\<close>

lemma clean_text: "clean (JString (json_text j)) = JString (json_text j)"
  by (simp add: to_valid_id json_text_valid)

end
