(* ===== verification/Notification_Props.thy ===== *)
theory Notification_Props
  imports Publisher Json_Laws Delivery_Props
begin

text \<open>
  What subscribers receive: the roster an event is rendered with, the envelope inside the SNS and
  SQS messages, the events a filter lets through and the reach of the fan-out.
\<close>

section \<open>Rendering\<close>

lemma snapshot_of_apply:
  "snapshot_of s ids m i =
     (if i \<in> set ids
      then case GetTicket i s of Inl e \<Rightarrow> m i | Inr r \<Rightarrow> Some (snapshot_ticket i (sv_heap s r))
      else m i)"
  by (induction ids arbitrary: m) (auto split: sum.split)

text \<open>The answers an event carries, and how a ticket of the store is rendered with them.\<close>

definition answers_of :: "event \<Rightarrow> player_id \<rightharpoonup> bool" where
  "answers_of e = (case e of EventPlayerAcceptanceRecorded b m ids answers \<Rightarrow> answers | _ \<Rightarrow> Map.empty)"

definition rendered_ticket :: "(player_id \<rightharpoonup> bool) \<Rightarrow> 'e service \<Rightarrow> ticket_id \<Rightarrow> ticket_detail option" where
  "rendered_ticket answers s i =
     (case GetTicket i s of
        Inl e \<Rightarrow> None
      | Inr r \<Rightarrow> (let t = sv_heap s r in Some
          \<lparr>td_TicketID = i, td_StartTime = format_millis (tk_startTime t),
           td_Players = map (\<lambda>p. \<lparr>pd_PlayerID = pl_ID p, pd_Accepted = answers (pl_ID p),
             pd_PlayerSessionID = [], pd_Team = PlayerTeam t (pl_ID p)\<rparr>) (tk_players t)\<rparr>))"

lemma lookup_recorded:
  assumes "set ids \<subseteq> set all"
  shows "lookupTickets t (Some (snapshot_of s all Map.empty)) ids = List.map_filter (rendered_ticket Map.empty s) ids"
  using assms
  by (induction ids)
     (auto simp: snapshot_of_apply rendered_ticket_def detail_of_snapshot_def snapshot_ticket_def Let_def
       List.map_filter_def split: sum.split)

lemma map_filter_map: "map f (List.map_filter g xs) = List.map_filter (\<lambda>x. map_option f (g x)) xs"
  by (induction xs) (auto simp: List.map_filter_def)

lemma mark_rendered:
  "map_option (mark_accepted answers) (rendered_ticket Map.empty s i) = rendered_ticket answers s i"
  by (auto simp: rendered_ticket_def mark_accepted_def Let_def split: sum.split option.split)

lemma event_detail_tickets:
  "dt_Tickets (event_detail t (Some (snapshot_of s (event_tickets e) Map.empty)) e d) =
     List.map_filter (rendered_ticket (answers_of e) s) (event_tickets e)"
  by (cases e) (simp_all add: lookup_recorded answers_of_def fill_detail_def map_filter_map mark_rendered
      del: lookupTickets.simps snapshot_of.simps List.map_filter_simps)

lemma event_detail_type: "dt_Type (event_detail t snap e d) = dt_Type d"
  by (cases e) (simp_all add: fill_detail_def)

text \<open>
  C13. An event that a command records is rendered, whenever it is delivered, with the tickets the
  store held when it was recorded: each of its tickets that exists, in the event's order, with its
  players in order, their teams at that moment and the answers the event carries. The roster of
  gameSessionInfo is the players of these tickets, one after another.
\<close>

theorem recorded_event_rendered:
  "let re = record_event s e; d = buildDetail t (Some (re_snapshot re)) (re_event re) in
     dt_Type d = EventName e \<and>
     dt_Tickets d = List.map_filter (rendered_ticket (answers_of e) s) (event_tickets e) \<and>
     map_option gs_Players (dt_GameSessionInfo d) =
       Some [p. td \<leftarrow> List.map_filter (rendered_ticket (answers_of e) s) (event_tickets e), p \<leftarrow> td_Players td]"
  by (simp add: Let_def record_event_def buildDetail_def event_detail_tickets event_detail_type
      empty_detail_def flattenTicketPlayers_def)

section \<open>The messages\<close>

lemma ascii_valid: "list_all (\<lambda>c. (of_char c :: nat) < 128) s \<Longrightarrow> to_valid s = s"
  by (simp add: valid_ascii to_valid_id)

lemma sns_body_read:
  "\<exists>fs. json_read (json_text (sns_json n)) = Some (JObject fs) \<and>
     map_of fs ''Message'' = Some (JString (to_valid (sn_Message n))) \<and>
     map_of fs ''MessageId'' = Some (JString (to_valid (sn_MessageID n)))"
  unfolding json_read_text by (auto simp: sns_json_def omit_string_def ascii_valid)

text \<open>
  C15. For an event, the SNS publisher makes exactly one POST to its URL. Reading its body as JSON
  and then the text of its Message member gives the rendered envelope, its strings made valid
  UTF-8; the message identifier is in the body and in its header. The call succeeds exactly when
  the subscriber answers with a status below 400, and nothing is sent to a URL that does not parse.
\<close>

theorem sns_delivers_envelope:
  "case RenderContext t snap e (wi_ids s) of (env, g) \<Rightarrow>
   case NewID g of (i, g') \<Rightarrow>
   case sns_publish nx url t snap e s of (err, s') \<Rightarrow>
     wi_ids s' = g' \<and>
     (case nx_ParseURL nx url of
        Some x \<Rightarrow> err = Some (BadURL x) \<and> wi_world s' = wi_world s
      | None \<Rightarrow> \<exists>req fs.
          (fst (nx_Do nx req (wi_world s)), wi_world s') = nx_Do nx req (wi_world s) \<and>
          (err = None \<longleftrightarrow> (case fst (nx_Do nx req (wi_world s)) of Inl x \<Rightarrow> False | Inr code \<Rightarrow> code < 400)) \<and>
          rq_Method req = ''POST'' \<and> rq_URL req = url \<and>
          map_of (rq_Headers req) ''x-amz-sns-message-id'' = Some i \<and>
          json_read (rq_Body req) = Some (JObject fs) \<and>
          map_of fs ''MessageId'' = Some (JString (to_valid i)) \<and>
          map_of fs ''Message'' = Some (JString (json_text (envelope_json env))) \<and>
          json_read (json_text (envelope_json env)) = Some (clean (envelope_json env)))"
proof -
  obtain env g where r: "RenderContext t snap e (wi_ids s) = (env, g)" by fastforce
  obtain i g' where i: "NewID g = (i, g')" by fastforce
  let ?body = "json_text (envelope_json env)"
  let ?req = "sns_request url (sns_note i ?body e)"
  obtain a w where a: "nx_Do nx ?req (wi_world s) = (a, w)" by fastforce
  obtain fs where fs: "json_read (rq_Body ?req) = Some (JObject fs)"
    "map_of fs ''MessageId'' = Some (JString (to_valid i))"
    "map_of fs ''Message'' = Some (JString ?body)"
    using sns_body_read [of "sns_note i ?body e"] clean_text [of "envelope_json env"]
    by (auto simp: sns_request_def sns_note_def)
  have head: "rq_Method ?req = ''POST''" "rq_URL ?req = url"
    "map_of (rq_Headers ?req) ''x-amz-sns-message-id'' = Some i"
    by (simp_all add: sns_request_def sns_note_def)
  show ?thesis
  proof (cases "nx_ParseURL nx url")
    case None
    obtain err s' where o: "sns_publish nx url t snap e s = (err, s')" by fastforce
    have "wi_ids s' = g'" "wi_world s' = w"
      "err = None \<longleftrightarrow> (case a of Inl x \<Rightarrow> False | Inr code \<Rightarrow> code < 400)"
      using o r i a None
      by (auto simp: sns_publish_def MarshalContext_def Let_def not_less split: sum.splits if_splits)
    then show ?thesis
      using r i None o a fs head by (auto simp: json_read_text intro!: exI [of _ ?req])
  qed (simp add: r i sns_publish_def MarshalContext_def)
qed

text \<open>
  For an event, the SQS publisher sends exactly one message to its queue, whose body read as
  JSON is the rendered envelope; it fails exactly when the client does.
\<close>

theorem sqs_sends_envelope:
  "case RenderContext t snap e (wi_ids s) of (env, g) \<Rightarrow>
   \<exists>body. json_read body = Some (clean (envelope_json env)) \<and>
     sqs_publish nx url t snap e s =
       (case nx_SendMessage nx \<lparr>sm_QueueUrl = url, sm_MessageBody = body\<rparr> (wi_world s) of
          (r, w) \<Rightarrow> (map_option SendFailed r, \<lparr>wi_ids = g, wi_world = w\<rparr>))"
proof -
  obtain env g where r: "RenderContext t snap e (wi_ids s) = (env, g)" by fastforce
  let ?body = "json_text (envelope_json env)"
  have "sqs_publish nx url t snap e s =
      (case nx_SendMessage nx \<lparr>sm_QueueUrl = url, sm_MessageBody = ?body\<rparr> (wi_world s) of
         (x, w) \<Rightarrow> (map_option SendFailed x, \<lparr>wi_ids = g, wi_world = w\<rparr>))"
    using r by (cases s) (simp add: sqs_publish_def MarshalContext_def Let_def del: json_text.simps split: prod.split)
  then show ?thesis unfolding r prod.case using json_read_text by blast
qed

section \<open>Filter and fan-out\<close>

definition after_children :: "'w publisher list \<Rightarrow> event_snapshot option \<Rightarrow> event \<Rightarrow> 'w wire \<Rightarrow> 'w wire" where
  "after_children ps snap e s = fold (\<lambda>p s. snd (p snap e s)) ps s"

definition child_errors :: "'w publisher list \<Rightarrow> event_snapshot option \<Rightarrow> event \<Rightarrow> 'w wire \<Rightarrow> pub_err list" where
  "child_errors ps snap e s =
     List.map_filter (\<lambda>k. fst ((ps ! k) snap e (after_children (take k ps) snap e s))) [0..<length ps]"

lemma child_errors_children: "fst (publish_children ps snap e s) = child_errors ps snap e s"
proof (induction ps arbitrary: s)
  case (Cons p ps)
  have "[0..<length (p # ps)] = 0 # map Suc [0..<length ps]" 
    by (simp add: upt_conv_Cons map_Suc_upt del: upt_Suc)
  then show ?case
    using Cons by (simp only: publish_children_errors child_errors_def)
      (simp add: List.map_filter_def after_children_def o_def filter_map split: option.split)
qed (simp add: child_errors_def List.map_filter_def)

text \<open>
  The fan-out calls every child, each in the state its predecessors left and whatever they
  returned; its error joins the errors of the children that failed, in order, and it succeeds
  exactly when all of them do.
\<close>

theorem multi_reaches_every_child:
  "Multi ps snap e s =
     (let errs = child_errors ps snap e s
      in (if errs = [] then None else Some (Joined errs), after_children ps snap e s))"
  using publish_children_world [of ps snap e s] child_errors_children [of ps snap e s]
  by (simp add: Multi_def after_children_def Let_def case_prod_unfold)

text \<open>
  C16. Whatever the interleaving, a publisher behind an onlyEvents filter does what it would do
  with the events of these names alone, out of the first ones its configuration generated, in
  their order.
\<close>

theorem only_events_delivered:
  assumes "system_run d s0 tr s dl"
  shows "publish_all (Filtered p names) (dl_out dl n) w =
    publish_all p (filter (\<lambda>re. names = [] \<or> EventName (re_event re) \<in> set names)
      (take (length (dl_out dl n)) (generated tr n))) w"
proof -
  note parts = system_run_parts [OF assms]
  then have "delivery_inv dl" using delivery_reachable_inv by blast
  then have "prefix (dl_out dl n) (dl_sent dl n)" using lanes.in_order by blast
  then have "take (length (dl_out dl n)) (generated tr n) = dl_out dl n"
    using parts by (auto simp: prefix_def)
  then show ?thesis by (simp add: filtered.only_passing [of p names "dl_out dl n"] filtered_all)
qed

lemma run_worker_system: "system_run d s0 tr s dl \<Longrightarrow> system_run d s0 tr s (run_worker k n dl)"
proof (induction k arbitrary: dl)
  case (Suc k)
  then show ?case using run_delivery [OF Suc.prems works, of n] by (cases "worker_step n dl") auto
qed simp

definition sample_published :: "recorded_event list \<Rightarrow> delivery" where
  "sample_published evs = run_worker 2 ''c'' (sample_kicked evs)"

definition toy_net :: "sqs_message list net" where
  "toy_net = \<lparr>nx_ParseURL = (\<lambda>_. None), nx_Do = (\<lambda>r w. (Inr 200, w)), nx_SendMessage = (\<lambda>m w. (None, w @ [m]))\<rparr>"

definition toy_queue :: "sqs_message list publisher" where
  "toy_queue = sqs_publish toy_net ''q'' (NewTranslator ''us-east-1'' ''1'' None)"

definition toy_wire :: "sqs_message list wire" where
  "toy_wire = \<lparr>wi_ids = NewSequence ''e-'', wi_world = []\<rparr>"

theorem only_events_delivered_witness:
  "case Start_locked toy_deps None 10 ''c''
      \<lparr>sc_ConfigurationName = ''c'', sc_TicketID = ''a'', sc_Players = [toy_player ''p'']\<rparr> toy_service of
     (x, evs, s') \<Rightarrow> length (dl_out (sample_published evs) ''c'') = 1 \<and>
       length (wi_world (publish_all (Filtered toy_queue [''MatchmakingSearching''])
         (dl_out (sample_published evs) ''c'') toy_wire)) = 1 \<and>
       wi_world (publish_all (Filtered toy_queue [''MatchmakingSucceeded''])
         (dl_out (sample_published evs) ''c'') toy_wire) = []"
proof -
  let ?cmd = "\<lparr>sc_ConfigurationName = ''c'', sc_TicketID = ''a'', sc_Players = [toy_player ''p'']\<rparr>"
  obtain x evs s' where r: "Start_locked toy_deps None 10 ''c'' ?cmd toy_service = (x, evs, s')"
    by (metis prod_cases3)
  have "map (EventName \<circ> re_event) (fst (snd (Start_locked toy_deps None 10 ''c'' ?cmd toy_service))) =
      [''MatchmakingSearching'']"
    by (simp add: run_defs)
  then obtain re where evs: "evs = [re]" "EventName (re_event re) = ''MatchmakingSearching''"
    unfolding r by auto
  have "system_run toy_deps toy_service [] toy_service sample_working"
    using sample_moves by (blast intro: run_begin run_delivery)
  from run_command [OF this sample_working_at run_start [OF r]]
  have "system_run toy_deps toy_service [(''c'', evs)] s' (flush_batch 0 ''c'' evs sample_working)" by simp
  then have run: "system_run toy_deps toy_service [(''c'', evs)] s' (sample_published evs)"
    unfolding sample_published_def using evs by (blast intro: run_worker_system run_delivery sample_kicks)
  have out: "dl_out (sample_published evs) ''c'' = [re]"
    by (simp add: sample_published_def evs delivery_run_defs numeral_eq_Suc)
  have "generated [(''c'', evs)] ''c'' = [re]" by (simp add: generated_def evs)
  then have "wi_world (publish_all (Filtered toy_queue [''MatchmakingSucceeded'']) (dl_out (sample_published evs) ''c'') toy_wire) = []"
    "length (wi_world (publish_all (Filtered toy_queue [''MatchmakingSearching'']) (dl_out (sample_published evs) ''c'') toy_wire)) = 1"
    unfolding only_events_delivered [OF run, where n = "''c''"]
    by (simp_all add: out evs(2) publish_all_def publishOne_def toy_queue_def sqs_publish_def toy_net_def
        toy_wire_def case_prod_unfold Let_def)
  then show ?thesis unfolding r prod.case by (simp add: out)
qed

end
