(* ===== verification/Wire_Types.thy ===== *)
theory Wire_Types
  imports Notification Json_Laws
begin

text \<open>
  The types of the published messages: a small schema language for JSON, the schema of each event
  kind, and the proof that every envelope the program renders has its event's schema, also after a
  subscriber has parsed its text.
\<close>

section \<open>Schemas\<close>

text \<open>
  An object's members come in the order of its schema; a member that is not required may be
  missing, and no other member occurs.
\<close>

datatype schema =
    SString
  | SOneOf "string list"
  | SInt
  | SBool
  | SArray schema
  | SObject "(string \<times> bool \<times> schema) list"

fun typed :: "schema \<Rightarrow> json \<Rightarrow> bool"
  and members_typed :: "(string \<times> bool \<times> schema) list \<Rightarrow> (string \<times> json) list \<Rightarrow> bool" where
  "typed SString j = (case j of JString _ \<Rightarrow> True | _ \<Rightarrow> False)"
| "typed (SOneOf ss) j = (case j of JString s \<Rightarrow> s \<in> set ss | _ \<Rightarrow> False)"
| "typed SInt j = (case j of JInt _ \<Rightarrow> True | _ \<Rightarrow> False)"
| "typed SBool j = (case j of JBool _ \<Rightarrow> True | _ \<Rightarrow> False)"
| "typed (SArray s) j = (case j of JArray xs \<Rightarrow> list_all (typed s) xs | _ \<Rightarrow> False)"
| "typed (SObject ms) j = (case j of JObject fs \<Rightarrow> members_typed ms fs | _ \<Rightarrow> False)"
| "members_typed [] fs = (fs = [])"
| "members_typed ((k, required, s) # ms) fs =
     (case fs of
        [] \<Rightarrow> \<not> required \<and> members_typed ms fs
      | (k', j) # rest \<Rightarrow>
          if k' = k then typed s j \<and> members_typed ms rest else \<not> required \<and> members_typed ms fs)"

text \<open>A schema whose names and constants are ASCII does not notice that strings were made valid UTF-8.\<close>

definition ascii :: "string \<Rightarrow> bool" where
  "ascii s \<longleftrightarrow> list_all (\<lambda>c. (of_char c :: nat) < 128) s"

lemma ascii_to_valid: "ascii s \<Longrightarrow> to_valid s = s"
  by (simp add: ascii_def valid_ascii to_valid_id)

fun ascii_schema :: "schema \<Rightarrow> bool"
  and ascii_members :: "(string \<times> bool \<times> schema) list \<Rightarrow> bool" where
  "ascii_schema (SOneOf ss) = list_all ascii ss"
| "ascii_schema (SArray s) = ascii_schema s"
| "ascii_schema (SObject ms) = ascii_members ms"
| "ascii_schema _ = True"
| "ascii_members [] = True"
| "ascii_members ((k, required, s) # ms) = (ascii k \<and> ascii_schema s \<and> ascii_members ms)"

lemma members_keys: "members_typed ms fs \<Longrightarrow> ascii_members ms \<Longrightarrow> list_all (\<lambda>f. ascii (fst f)) fs"
proof (induction ms arbitrary: fs)
  case (Cons m ms)
  obtain k req s where m: "m = (k, req, s)" by (metis prod_cases3)
  from Cons.prems show ?case
    using Cons.IH [of fs] Cons.IH [of "tl fs"] by (cases fs) (auto simp: m split: if_splits)
qed simp

lemma typed_clean:
  "ascii_schema s \<Longrightarrow> typed s j \<Longrightarrow> typed s (clean j)"
  "ascii_members ms \<Longrightarrow> members_typed ms fs \<Longrightarrow>
     members_typed ms (map (\<lambda>f. (to_valid (fst f), clean (snd f))) fs)"
proof (induction s j and ms fs rule: typed_members_typed.induct)
  case (2 ss j)
  then show ?case by (cases j) (auto simp: ascii_to_valid list_all_iff)
next
  case (5 s j)
  then show ?case by (cases j) (auto simp: list_all_iff)
next
  case (6 ms j)
  then show ?case by (cases j) simp_all
next
  case (8 k req s ms fs)
  show ?case
  proof (cases fs)
    case (Cons f rest)
    obtain k' j where f: "f = (k', j)" by fastforce
    have k': "to_valid k' = k'" using members_keys [OF 8(6,5)] Cons f ascii_to_valid by simp
    show ?thesis
    proof (cases "k' = k")
      case True
      then show ?thesis using 8(2,3) [OF Cons f [symmetric] True] 8(5,6) Cons f k' by simp
    next
      case False
      then show ?thesis using 8(4) [OF Cons f [symmetric] False] 8(5,6) Cons f k' by simp
    qed
  qed (use 8 in auto)
qed (auto split: json.splits)

section \<open>Members\<close>

text \<open>The next member decides; a member written with \<open>omitempty\<close> is there or not.\<close>

lemma members_next [simp]:
  "members_typed ((k, required, s) # ms) [] \<longleftrightarrow> \<not> required \<and> members_typed ms []"
  "members_typed ((k, required, s) # ms) ((k', j) # rest) \<longleftrightarrow>
     (if k' = k then typed s j \<and> members_typed ms rest
      else \<not> required \<and> members_typed ms ((k', j) # rest))"
  by simp_all

declare members_typed.simps(2) [simp del]

text \<open>\<open>without k fs\<close>: no member of \<open>fs\<close> is called \<open>k\<close>.\<close>

definition without :: "string \<Rightarrow> (string \<times> json) list \<Rightarrow> bool" where
  "without k fs \<longleftrightarrow> list_all (\<lambda>f. fst f \<noteq> k) fs"

lemma without_simps [simp]:
  "without k []"
  "without k ((k', j) # fs) \<longleftrightarrow> k' \<noteq> k \<and> without k fs"
  "without k (fs @ gs) \<longleftrightarrow> without k fs \<and> without k gs"
  "k' \<noteq> k \<Longrightarrow> without k (omit_string k' v)"
  "k' \<noteq> k \<Longrightarrow> without k (omit_list k' xs)"
  by (simp_all add: without_def omit_string_def omit_list_def)

lemma members_skip: "without k fs \<Longrightarrow> members_typed ((k, required, s) # ms) fs \<longleftrightarrow> \<not> required \<and> members_typed ms fs"
  by (cases fs) (auto simp: without_def)

lemma omit_empty [simp]: "omit_string k [] = []" "omit_list k [] = []" "omit_option k None = []"
  "omit_option k (Some j) = [(k, j)]"
  by (simp_all add: omit_string_def omit_list_def omit_option_def)

lemma members_omit [simp]:
  "without k fs \<Longrightarrow> members_typed ((k, required, SString) # ms) (omit_string k v @ fs) \<longleftrightarrow>
     (required \<longrightarrow> v \<noteq> []) \<and> members_typed ms fs"
  "without k fs \<Longrightarrow> members_typed ((k, required, SArray s) # ms) (omit_list k xs @ fs) \<longleftrightarrow>
     (required \<longrightarrow> xs \<noteq> []) \<and> list_all (typed s) xs \<and> members_typed ms fs"
  "without k fs \<Longrightarrow> members_typed ((k, True, SOneOf ss) # ms) (omit_string k v @ fs) \<longleftrightarrow>
     v \<noteq> [] \<and> v \<in> set ss \<and> members_typed ms fs"
  by (auto simp: omit_string_def omit_list_def members_skip)

lemma members_omit_last [simp]:
  "members_typed ((k, required, SString) # ms) (omit_string k v) \<longleftrightarrow>
     (required \<longrightarrow> v \<noteq> []) \<and> members_typed ms []"
  using members_omit(1) [of k "[]" required ms v] by simp

section \<open>The schema of an event\<close>

text \<open>A player of a ticket; only an AcceptMatch event says who has answered.\<close>

definition player_schema :: "bool \<Rightarrow> schema" where
  "player_schema answers = SObject
     ([(''playerId'', True, SString)] @ (if answers then [(''accepted'', False, SBool)] else []) @
      [(''team'', False, SString)])"

definition ticket_schema :: "bool \<Rightarrow> schema" where
  "ticket_schema answers = SObject
     [(''ticketId'', True, SString), (''startTime'', False, SString),
      (''players'', True, SArray (player_schema answers))]"

definition metric_schema :: schema where
  "metric_schema = SObject
     [(''ruleName'', True, SString), (''passedCount'', True, SInt), (''failedCount'', True, SInt)]"

text \<open>
  What an event kind has beside its type and tickets; the session of a succeeded match repeats its
  identifier, and no event says where a game session runs.
\<close>

fun event_answers :: "event \<Rightarrow> bool" where
  "event_answers (EventPlayerAcceptanceRecorded b m ids acceptances) = True"
| "event_answers _ = False"

fun event_members :: "event \<Rightarrow> (string \<times> bool \<times> schema) list" where
  "event_members (EventTicketSearchingStarted b i) = [(''estimatedWaitMillis'', True, SOneOf [''NOT_AVAILABLE''])]"
| "event_members (EventTicketAssignedToProposal b m ids metrics required timeout) =
     [(''matchId'', m \<noteq> [], SString), (''acceptanceRequired'', True, SBool)] @
     (if required then [(''acceptanceTimeout'', True, SInt)] else []) @
     [(''ruleEvaluationMetrics'', metrics \<noteq> [], SArray metric_schema)]"
| "event_members (EventPlayerAcceptanceRecorded b m ids acceptances) = [(''matchId'', m \<noteq> [], SString)]"
| "event_members (EventAcceptanceCompleted b m ids outcome) =
     [(''matchId'', m \<noteq> [], SString),
      (''acceptance'', True, SOneOf [''Accepted'', ''Rejected'', ''TimedOut''])]"
| "event_members (EventMatchmakingSucceeded b m ids) = [(''matchId'', m \<noteq> [], SString)]"
| "event_members (EventMatchmakingFailed b i m reason msg metrics) =
     [(''matchId'', m \<noteq> [], SString), (''ruleEvaluationMetrics'', metrics \<noteq> [], SArray metric_schema)]"
| "event_members (EventMatchmakingTimedOut b i m reason msg metrics) =
     [(''matchId'', m \<noteq> [], SString), (''ruleEvaluationMetrics'', metrics \<noteq> [], SArray metric_schema)]"
| "event_members (EventMatchmakingCancelled b i m reason msg metrics) =
     [(''matchId'', m \<noteq> [], SString), (''ruleEvaluationMetrics'', metrics \<noteq> [], SArray metric_schema)]"

fun event_end :: "event \<Rightarrow> (string \<times> bool \<times> schema) list" where
  "event_end (EventMatchmakingFailed b i m reason msg metrics) =
     [(''reason'', reason \<noteq> [], SString), (''message'', msg \<noteq> [], SString)]"
| "event_end (EventMatchmakingTimedOut b i m reason msg metrics) =
     [(''reason'', reason \<noteq> [], SString), (''message'', msg \<noteq> [], SString)]"
| "event_end (EventMatchmakingCancelled b i m reason msg metrics) =
     [(''reason'', reason \<noteq> [], SString), (''message'', msg \<noteq> [], SString)]"
| "event_end _ = []"

definition session_schema :: "event \<Rightarrow> schema" where
  "session_schema e = SObject
     ((case e of EventMatchmakingSucceeded b m ids \<Rightarrow> [(''matchId'', m \<noteq> [], SString)] | _ \<Rightarrow> []) @
      [(''players'', True, SArray (player_schema (event_answers e)))])"

definition detail_schema :: "event \<Rightarrow> schema" where
  "detail_schema e = SObject
     ([(''type'', True, SOneOf [EventName e]),
       (''tickets'', False, SArray (ticket_schema (event_answers e)))] @
      event_members e @ [(''gameSessionInfo'', True, session_schema e)] @ event_end e)"

definition envelope_schema :: "event \<Rightarrow> schema" where
  "envelope_schema e = SObject
     [(''version'', True, SOneOf [''0'']), (''id'', True, SString),
      (''detail-type'', True, SOneOf [''GameLift Matchmaking Event'']),
      (''source'', True, SOneOf [''aws.gamelift'']), (''account'', True, SString), (''time'', True, SString),
      (''region'', True, SString), (''resources'', True, SArray SString), (''detail'', True, detail_schema e)]"

lemmas schema_defs = player_schema_def ticket_schema_def metric_schema_def session_schema_def
  detail_schema_def envelope_schema_def

lemma ascii_envelope: "ascii_schema (envelope_schema e)"
  by (cases e) (simp_all add: schema_defs ascii_def)

section \<open>Rendering is typed\<close>

text \<open>A player as a snapshot has it, with an answer at most in an AcceptMatch event.\<close>

definition plain_player :: "bool \<Rightarrow> player_detail \<Rightarrow> bool" where
  "plain_player answers p \<longleftrightarrow> pd_PlayerSessionID p = [] \<and> (answers \<or> pd_Accepted p = None)"

definition plain_ticket :: "bool \<Rightarrow> ticket_detail \<Rightarrow> bool" where
  "plain_ticket answers td \<longleftrightarrow> list_all (plain_player answers) (td_Players td)"

lemma player_typed: "plain_player answers p \<Longrightarrow> typed (player_schema answers) (player_json p)"
  by (cases "pd_Accepted p")
     (auto simp: plain_player_def player_schema_def player_json_def members_skip)

lemma players_typed:
  "list_all (plain_player answers) ps \<Longrightarrow> list_all (typed (player_schema answers)) (map player_json ps)"
  by (auto simp: list_all_iff player_typed)

lemma ticket_typed: "plain_ticket answers td \<Longrightarrow> typed (ticket_schema answers) (ticket_json td)"
  by (simp add: plain_ticket_def ticket_schema_def ticket_json_def players_typed del: list.pred_map)

lemma metric_typed: "typed metric_schema (metric_json m)"
  by (simp add: metric_schema_def metric_json_def)

lemma tickets_typed:
  "list_all (plain_ticket answers) ts \<Longrightarrow> list_all (typed (ticket_schema answers)) (map ticket_json ts)"
  by (auto simp: list_all_iff ticket_typed)

lemma lookup_plain:
  "tr_lookup t = None \<Longrightarrow> list_all (plain_ticket False) (lookupTickets t snap ids)"
  by (induction ids)
     (auto simp: plain_ticket_def plain_player_def detail_of_snapshot_def list_all_iff split: option.split)

lemma mark_plain: "plain_ticket False td \<Longrightarrow> plain_ticket True (mark_accepted acc td)"
  by (auto simp: plain_ticket_def plain_player_def mark_accepted_def list_all_iff split: option.split)

lemma event_tickets_plain:
  assumes "tr_lookup t = None" and "dt_Tickets d = []"
  shows "list_all (plain_ticket (event_answers e)) (dt_Tickets (event_detail t snap e d))"
  using lookup_plain [OF assms(1)] assms(2)
  by (cases e) (auto simp: fill_detail_def list_all_iff mark_plain simp del: lookupTickets.simps)

lemma flatten_plain:
  "list_all (plain_ticket answers) ts \<Longrightarrow> list_all (plain_player answers) (flattenTicketPlayers ts)"
  by (auto simp: flattenTicketPlayers_def plain_ticket_def list_all_iff)

lemma session_typed:
  "list_all (plain_player (event_answers e)) ps \<Longrightarrow>
   typed (session_schema e) (session_json \<lparr>gs_IPAddress = [], gs_Port = 0, gs_GameSessionARN = [],
     gs_MatchID = (case e of EventMatchmakingSucceeded b m ids \<Rightarrow> m | _ \<Rightarrow> []), gs_Players = ps\<rparr>)"
  by (cases e) (simp_all add: session_schema_def session_json_def players_typed del: list.pred_map)

lemma succeeded_match:
  "(if is_succeeded e then dt_MatchID (event_detail t snap e d) else []) =
     (case e of EventMatchmakingSucceeded b m ids \<Rightarrow> m | _ \<Rightarrow> [])"
  by (cases e) (simp_all add: is_succeeded_def)

lemma metrics_typed: "list_all (typed metric_schema) (map (metric_json \<circ> f) ms)"
  by (simp add: list_all_iff metric_typed)

lemma outcome_typed: "outcome_string x \<noteq> [] \<and> outcome_string x \<in> {''Accepted'', ''Rejected'', ''TimedOut''}"
  by (cases x) simp_all

text \<open>The members of a detail with its tickets and its session left open.\<close>

lemma detail_members:
  assumes "list_all (typed (ticket_schema (event_answers e))) (map ticket_json ts)"
    and "typed (session_schema e) (session_json g)"
  shows "typed (detail_schema e) (detail_json
    ((event_detail t snap e (empty_detail (EventName e)))\<lparr>dt_Tickets := ts, dt_GameSessionInfo := Some g\<rparr>))"
  using assms
  by (cases e)
     (use outcome_typed in \<open>auto simp: detail_schema_def detail_json_def fill_detail_def empty_detail_def
       toWireRuleMetrics_def metrics_typed simp del: list.pred_map lookupTickets.simps\<close>)

lemma detail_typed:
  assumes "tr_lookup t = None"
  shows "typed (detail_schema e) (detail_json (buildDetail t snap e))"
proof -
  let ?d = "event_detail t snap e (empty_detail (EventName e))"
  have ts: "list_all (plain_ticket (event_answers e)) (dt_Tickets ?d)"
    by (rule event_tickets_plain [OF assms]) (simp add: empty_detail_def)
  have "buildDetail t snap e = ?d\<lparr>dt_Tickets := dt_Tickets ?d, dt_GameSessionInfo := Some
      \<lparr>gs_IPAddress = [], gs_Port = 0, gs_GameSessionARN = [],
       gs_MatchID = (case e of EventMatchmakingSucceeded b m ids \<Rightarrow> m | _ \<Rightarrow> []),
       gs_Players = flattenTicketPlayers (dt_Tickets ?d)\<rparr>\<rparr>"
    by (simp add: buildDetail_def Let_def succeeded_match)
  then show ?thesis
    using detail_members [OF tickets_typed [OF ts] session_typed [OF flatten_plain [OF ts]]] by (simp only:)
qed

lemma envelope_typed:
  assumes "tr_lookup t = None"
  shows "typed (envelope_schema e) (envelope_json (fst (RenderContext t snap e g)))"
  using detail_typed [OF assms, of e snap]
  by (simp add: envelope_schema_def envelope_json_def RenderContext_def split: prod.split)

section \<open>What a subscriber parses\<close>

text \<open>
  C14. Every message has the type of its event: the text rendered for an event, without a fallback
  lookup as the program is wired, is JSON that reads as an envelope of the event's schema. Its
  constants are the documented ones, exactly the members of the event's kind occur, in order, with
  their types; the acceptance time-out occurs exactly when acceptance is required, an answer only in
  an AcceptMatch event, the match identifier in the session only after success.
\<close>

theorem messages_typed:
  "\<exists>j. json_read (fst (MarshalContext (NewTranslator region account None) snap e g)) = Some j \<and>
     typed (envelope_schema e) j"
proof -
  let ?t = "NewTranslator region account None"
  let ?env = "envelope_json (fst (RenderContext ?t snap e g))"
  have "fst (MarshalContext ?t snap e g) = json_text ?env"
    by (simp add: MarshalContext_def split: prod.split)
  moreover have "typed (envelope_schema e) (clean ?env)"
    by (rule typed_clean(1) [OF ascii_envelope envelope_typed]) (simp add: NewTranslator_def)
  ultimately show ?thesis by (simp only: json_read_text) blast
qed

end
