(* ===== verification/Configfile.thy ===== *)
theory Configfile
  imports Ticket_Domain
begin

text \<open>
  The configuration file (\<open>internal/system/configfile\<close>): the document as YAML decodes it, its
  defaults, the conversion into the domain's configurations and rule sets, and the validation that
  everything else rests on. Reading a file and decoding YAML are parameters.
\<close>

section \<open>The document\<close>

record server_section =
  ss_AWSAPIPort :: int
  ss_WebUIPort :: int
  ss_Region :: string
  ss_AccountID :: string
  ss_TickInterval :: duration
  ss_TicketRetention :: duration
  ss_LogLevel :: string

record mc_section =
  ms_Name :: string
  ms_RuleSetName :: string
  ms_RequestTimeoutSeconds :: int
  ms_AcceptanceRequired :: bool
  ms_AcceptanceTimeoutSeconds :: int
  ms_BackfillMode :: string
  ms_FlexMatchMode :: string
  ms_NotificationTargets :: "string list"

record ruleset_section =
  rss_Name :: string
  rss_Path :: string

record publisher_section =
  pss_ID :: string
  pss_Kind :: string
  pss_Enabled :: bool
  pss_URL :: string
  pss_QueueURL :: string
  pss_AWSEndpoint :: string
  pss_AWSRegion :: string
  pss_AccessKey :: string
  pss_SecretKey :: string
  pss_OnlyEvents :: "string list"

record document =
  doc_Server :: server_section
  doc_MatchmakingConfigurations :: "mc_section list"
  doc_RuleSets :: "ruleset_section list"
  doc_Publishers :: "publisher_section list"

section \<open>What is loaded\<close>

record publisher_settings =
  ps_ID :: string
  ps_Kind :: string
  ps_Enabled :: bool
  ps_URL :: string
  ps_QueueURL :: string
  ps_AWSEndpoint :: string
  ps_AWSRegion :: string
  ps_AccessKey :: string
  ps_SecretKey :: string
  ps_OnlyEvents :: "string list"

record binding =
  bi_Configuration :: configuration
  bi_PublisherIDs :: "string list"

datatype log_level = LevelDebug | LevelInfo | LevelWarn | LevelError

record loaded =
  ld_Region :: string
  ld_AccountID :: string
  ld_AWSAPIPort :: int
  ld_WebUIPort :: int
  ld_TickInterval :: duration
  ld_TicketRetention :: duration
  ld_LogLevel :: log_level
  ld_Configurations :: "binding list"
  ld_RuleSets :: "ruleset list"
  ld_Publishers :: "publisher_settings list"

datatype load_err =
    ReadFailed string string
  | YamlFailed string
  | RuleSetReadFailed string string string
  | UnknownLogLevel string
  | APIPortRequired
  | WebUIPortRequired
  | PortsEqual
  | RuleSetUnnamed
  | RuleSetDuplicate string
  | PublisherUnnamed
  | PublisherDuplicate string
  | PublisherNeedsURL string
  | PublisherNeedsQueueURL string
  | PublisherNoKind string
  | PublisherUnknownKind string string
  | PublisherUnknownEvent string string
  | ConfigurationUnnamed
  | ConfigurationBadName string
  | ConfigurationDuplicate string
  | ConfigurationUnknownRuleSet string string
  | ConfigurationNotStandalone string string
  | ConfigurationAutomaticBackfill string
  | ConfigurationUnknownBackfill string string
  | ConfigurationUnknownPublisher string string
  | ConfigurationDisabledPublisher string string

section \<open>Paths\<close>

text \<open>
  \<open>filepath.Clean\<close>, \<open>Dir\<close>, \<open>Join\<close> and \<open>IsAbs\<close> on Unix: a path is its components; \<open>.\<close> and empty ones
  go, and \<open>..\<close> takes the component before it.
\<close>

fun split_slash :: "string \<Rightarrow> string list" where
  "split_slash [] = [[]]"
| "split_slash (c # cs) =
     (case split_slash cs of
        [] \<Rightarrow> [[c]]
      | x # xs \<Rightarrow> if c = CHR ''/'' then [] # x # xs else (c # x) # xs)"

fun clean_parts :: "bool \<Rightarrow> string list \<Rightarrow> string list \<Rightarrow> string list" where
  "clean_parts rooted stack [] = rev stack"
| "clean_parts rooted stack (p # ps) =
     (if p = [] \<or> p = ''.'' then clean_parts rooted stack ps
      else if p = ''..'' then
        (case stack of
           [] \<Rightarrow> clean_parts rooted (if rooted then [] else [p]) ps
         | t # rest \<Rightarrow> if t = ''..'' then clean_parts rooted (p # stack) ps else clean_parts rooted rest ps)
      else clean_parts rooted (p # stack) ps)"

definition IsAbs :: "string \<Rightarrow> bool" where
  "IsAbs p \<longleftrightarrow> take 1 p = ''/''"

definition Clean :: "string \<Rightarrow> string" where
  "Clean p =
     (let out = (if IsAbs p then ''/'' else []) @ join ''/'' (clean_parts (IsAbs p) [] (split_slash p))
      in if out = [] then ''.'' else out)"

definition Dir :: "string \<Rightarrow> string" where
  "Dir p = Clean (rev (dropWhile (\<lambda>c. c \<noteq> CHR ''/'') (rev p)))"

definition Join :: "string \<Rightarrow> string \<Rightarrow> string" where
  "Join a b =
     (if a = [] \<and> b = [] then []
      else Clean (join ''/'' (filter (\<lambda>p. p \<noteq> []) [a, b])))"

section \<open>Loading\<close>

record files =
  os_ReadFile :: "string \<Rightarrow> string + string"
  yaml_Unmarshal :: "string \<Rightarrow> string + document"

definition cmp_Or :: "string \<Rightarrow> string \<Rightarrow> string" where
  "cmp_Or a b = (if a \<noteq> [] then a else b)"

definition applyDefaults :: "document \<Rightarrow> document" where
  "applyDefaults d =
     (let s = doc_Server d in d\<lparr>doc_Server := s
        \<lparr>ss_Region := cmp_Or (ss_Region s) ''us-east-1'',
         ss_AccountID := cmp_Or (ss_AccountID s) ''000000000000'',
         ss_TickInterval := (if ss_TickInterval s = 0 then second else ss_TickInterval s),
         ss_LogLevel := cmp_Or (ss_LogLevel s) ''info''\<rparr>\<rparr>)"

definition parseLogLevel :: "string \<Rightarrow> load_err + log_level" where
  "parseLogLevel s =
     (if s = ''debug'' then Inr LevelDebug
      else if s = ''info'' then Inr LevelInfo
      else if s = ''warn'' then Inr LevelWarn
      else if s = ''error'' then Inr LevelError
      else Inl (UnknownLogLevel s))"

definition arn :: "document \<Rightarrow> string \<Rightarrow> string \<Rightarrow> string" where
  "arn d kind name =
     ''arn:aws:gamelift:'' @ ss_Region (doc_Server d) @ '':'' @ ss_AccountID (doc_Server d) @ '':'' @ kind @ ''/'' @ name"

text \<open>The loop over the rule sets reads their files and stops at the first that fails.\<close>

fun load_rulesets :: "files \<Rightarrow> document \<Rightarrow> string \<Rightarrow> ruleset_section list \<Rightarrow> load_err + ruleset list" where
  "load_rulesets fs d base [] = Inr []"
| "load_rulesets fs d base (rs # rss) =
     (let p = (if IsAbs (rss_Path rs) then rss_Path rs else Join base (rss_Path rs)) in
      case os_ReadFile fs p of
        Inl e \<Rightarrow> Inl (RuleSetReadFailed (rss_Name rs) p e)
      | Inr body \<Rightarrow>
          (case load_rulesets fs d base rss of
             Inl e \<Rightarrow> Inl e
           | Inr rest \<Rightarrow>
               Inr (\<lparr>rs_Name = rss_Name rs, rs_ARN = arn d ''matchmakingruleset'' (rss_Name rs), rs_Body = body\<rparr> # rest)))"

definition load_publisher :: "publisher_section \<Rightarrow> publisher_settings" where
  "load_publisher p =
     \<lparr>ps_ID = pss_ID p, ps_Kind = pss_Kind p, ps_Enabled = pss_Enabled p, ps_URL = pss_URL p,
      ps_QueueURL = pss_QueueURL p, ps_AWSEndpoint = pss_AWSEndpoint p, ps_AWSRegion = pss_AWSRegion p,
      ps_AccessKey = pss_AccessKey p, ps_SecretKey = pss_SecretKey p, ps_OnlyEvents = pss_OnlyEvents p\<rparr>"

definition load_binding :: "document \<Rightarrow> mc_section \<Rightarrow> binding" where
  "load_binding d mc =
     \<lparr>bi_Configuration =
        \<lparr>cfg_Name = ms_Name mc, cfg_ARN = arn d ''matchmakingconfiguration'' (ms_Name mc),
         cfg_RuleSetName = ms_RuleSetName mc, cfg_RuleSetARN = arn d ''matchmakingruleset'' (ms_RuleSetName mc),
         cfg_RequestTimeout = seconds_duration (ms_RequestTimeoutSeconds mc),
         cfg_AcceptanceRequired = ms_AcceptanceRequired mc,
         cfg_AcceptanceTimeout = seconds_duration (ms_AcceptanceTimeoutSeconds mc),
         cfg_BackfillMode = ms_BackfillMode mc,
         cfg_FlexMatchMode = cmp_Or (ms_FlexMatchMode mc) ''STANDALONE'',
         cfg_NotificationTargetIDs = ms_NotificationTargets mc\<rparr>,
      bi_PublisherIDs = ms_NotificationTargets mc\<rparr>"

section \<open>Validation\<close>

fun check_rulesets :: "ruleset_name list \<Rightarrow> ruleset list \<Rightarrow> load_err + ruleset_name list" where
  "check_rulesets names [] = Inr names"
| "check_rulesets names (rs # rss) =
     (if rs_Name rs = [] then Inl RuleSetUnnamed
      else if rs_Name rs \<in> set names then Inl (RuleSetDuplicate (rs_Name rs))
      else check_rulesets (rs_Name rs # names) rss)"

definition check_kind :: "publisher_settings \<Rightarrow> load_err option" where
  "check_kind p =
     (if ps_Kind p = ''sns_http'' then
        (if ps_URL p = [] then Some (PublisherNeedsURL (ps_ID p)) else None)
      else if ps_Kind p = ''sqs_eventbridge'' then
        (if ps_QueueURL p = [] then Some (PublisherNeedsQueueURL (ps_ID p)) else None)
      else if ps_Kind p = [] then Some (PublisherNoKind (ps_ID p))
      else Some (PublisherUnknownKind (ps_ID p) (ps_Kind p)))"

fun check_events :: "string \<Rightarrow> string list \<Rightarrow> load_err option" where
  "check_events i [] = None"
| "check_events i (n # ns) =
     (if n \<notin> set KnownEventNames then Some (PublisherUnknownEvent i n) else check_events i ns)"

type_synonym publisher_map = "(string \<times> publisher_settings) list"

fun check_publishers :: "publisher_map \<Rightarrow> publisher_settings list \<Rightarrow> load_err + publisher_map" where
  "check_publishers pubs [] = Inr pubs"
| "check_publishers pubs (p # ps) =
     (if ps_ID p = [] then Inl PublisherUnnamed
      else if map_of pubs (ps_ID p) \<noteq> None then Inl (PublisherDuplicate (ps_ID p))
      else case check_kind p of
             Some e \<Rightarrow> Inl e
           | None \<Rightarrow>
               (case check_events (ps_ID p) (ps_OnlyEvents p) of
                  Some e \<Rightarrow> Inl e
                | None \<Rightarrow> check_publishers ((ps_ID p, p) # pubs) ps))"

text \<open>\<open>^[a-zA-Z0-9.-]*$\<close>.\<close>

definition name_char :: "char \<Rightarrow> bool" where
  "name_char c \<longleftrightarrow>
     (let b = of_char c :: nat in
      97 \<le> b \<and> b \<le> 122 \<or> 65 \<le> b \<and> b \<le> 90 \<or> 48 \<le> b \<and> b \<le> 57 \<or> c = CHR ''.'' \<or> c = CHR ''-'')"

definition configNamePattern :: "string \<Rightarrow> bool" where
  "configNamePattern s \<longleftrightarrow> list_all name_char s"

fun check_targets :: "publisher_map \<Rightarrow> string \<Rightarrow> string list \<Rightarrow> load_err option" where
  "check_targets pubs name [] = None"
| "check_targets pubs name (i # ids) =
     (case map_of pubs i of
        None \<Rightarrow> Some (ConfigurationUnknownPublisher name i)
      | Some p \<Rightarrow>
          if \<not> ps_Enabled p then Some (ConfigurationDisabledPublisher name i)
          else check_targets pubs name ids)"

definition check_modes :: "configuration \<Rightarrow> load_err option" where
  "check_modes cfg =
     (if cfg_FlexMatchMode cfg \<noteq> ''STANDALONE''
      then Some (ConfigurationNotStandalone (cfg_Name cfg) (cfg_FlexMatchMode cfg))
      else if cfg_BackfillMode cfg = [] \<or> cfg_BackfillMode cfg = ''MANUAL'' then None
      else if cfg_BackfillMode cfg = ''AUTOMATIC'' then Some (ConfigurationAutomaticBackfill (cfg_Name cfg))
      else Some (ConfigurationUnknownBackfill (cfg_Name cfg) (cfg_BackfillMode cfg)))"

fun check_configurations ::
  "ruleset_name list \<Rightarrow> publisher_map \<Rightarrow> config_name list \<Rightarrow> binding list \<Rightarrow> load_err option" where
  "check_configurations rsNames pubs names [] = None"
| "check_configurations rsNames pubs names (b # bs) =
     (let cfg = bi_Configuration b; name = cfg_Name cfg in
      if name = [] then Some ConfigurationUnnamed
      else if \<not> configNamePattern name then Some (ConfigurationBadName name)
      else if name \<in> set names then Some (ConfigurationDuplicate name)
      else if cfg_RuleSetName cfg \<notin> set rsNames
      then Some (ConfigurationUnknownRuleSet name (cfg_RuleSetName cfg))
      else case check_modes cfg of
             Some e \<Rightarrow> Some e
           | None \<Rightarrow>
               (case check_targets pubs name (bi_PublisherIDs b) of
                  Some e \<Rightarrow> Some e
                | None \<Rightarrow> check_configurations rsNames pubs (name # names) bs))"

definition validate :: "loaded \<Rightarrow> load_err option" where
  "validate l =
     (if ld_AWSAPIPort l = 0 then Some APIPortRequired
      else if ld_WebUIPort l = 0 then Some WebUIPortRequired
      else if ld_AWSAPIPort l = ld_WebUIPort l then Some PortsEqual
      else case check_rulesets [] (ld_RuleSets l) of
             Inl e \<Rightarrow> Some e
           | Inr rsNames \<Rightarrow>
               (case check_publishers [] (ld_Publishers l) of
                  Inl e \<Rightarrow> Some e
                | Inr pubs \<Rightarrow> check_configurations rsNames pubs [] (ld_Configurations l)))"

definition LoadFile :: "files \<Rightarrow> string \<Rightarrow> load_err + loaded" where
  "LoadFile fs path =
     (case os_ReadFile fs path of
        Inl e \<Rightarrow> Inl (ReadFailed path e)
      | Inr raw \<Rightarrow>
     (case yaml_Unmarshal fs raw of
        Inl e \<Rightarrow> Inl (YamlFailed e)
      | Inr doc \<Rightarrow>
     (let d = applyDefaults doc; srv = doc_Server d in
      case load_rulesets fs d (Dir path) (doc_RuleSets d) of
        Inl e \<Rightarrow> Inl e
      | Inr ruleSets \<Rightarrow>
     (case parseLogLevel (ss_LogLevel srv) of
        Inl e \<Rightarrow> Inl e
      | Inr level \<Rightarrow>
     (let l = \<lparr>ld_Region = ss_Region srv, ld_AccountID = ss_AccountID srv,
               ld_AWSAPIPort = ss_AWSAPIPort srv, ld_WebUIPort = ss_WebUIPort srv,
               ld_TickInterval = ss_TickInterval srv, ld_TicketRetention = ss_TicketRetention srv,
               ld_LogLevel = level,
               ld_Configurations = map (load_binding d) (doc_MatchmakingConfigurations d),
               ld_RuleSets = ruleSets,
               ld_Publishers = map load_publisher (doc_Publishers d)\<rparr>
      in case validate l of Some e \<Rightarrow> Inl e | None \<Rightarrow> Inr l)))))"

end
