(* ===== verification/Composition.thy ===== *)
theory Composition
  imports Configfile Publisher Service_System
begin

text \<open>
  The composition root (\<open>cmd/fmlocal/main.go\<close>) up to the point where the servers start, and the
  construction of an engine from a configuration and its rule set (\<open>engine_build.go\<close>).
\<close>

section \<open>Engines\<close>

text \<open>
  A decoded JSON document maps names to values; the decoder's own values are opaque, the program
  adds a boolean and two integers. \<open>bd_decode\<close> is \<open>json.Unmarshal\<close> into a \<open>map[string]any\<close>: an
  error, \<open>None\<close> for the document \<open>null\<close> (a nil map), or the map. \<open>bd_New\<close> is \<open>json.Marshal\<close> followed
  by \<open>flexi.New\<close>.
\<close>

datatype 'j member = Decoded 'j | BoolMember bool | IntMember int

record ('j, 'e) builder =
  bd_decode :: "string \<Rightarrow> string + (string \<rightharpoonup> 'j) option"
  bd_New :: "(string \<rightharpoonup> 'j member) \<Rightarrow> flexi_err + 'e"

datatype build_err = RuleSetUnparsable string | NilMapPanic | EngineRefused flexi_err

text \<open>Writing to a nil map panics: a rule set whose body is \<open>null\<close> ends the program.\<close>

definition injectEngineSettings ::
  "('j, 'e) builder \<Rightarrow> string \<Rightarrow> configuration \<Rightarrow> build_err + (string \<rightharpoonup> 'j member)" where
  "injectEngineSettings bd body cfg =
     (case bd_decode bd body of
        Inl e \<Rightarrow> Inl (RuleSetUnparsable e)
      | Inr None \<Rightarrow> Inl NilMapPanic
      | Inr (Some doc) \<Rightarrow>
          Inr ((\<lambda>k. map_option Decoded (doc k))
            (''acceptanceRequired'' \<mapsto> BoolMember (cfg_AcceptanceRequired cfg),
             ''acceptanceTimeoutSeconds'' \<mapsto> IntMember (int_seconds (cfg_AcceptanceTimeout cfg)),
             ''requestTimeoutSeconds'' \<mapsto> IntMember (int_seconds (cfg_RequestTimeout cfg)))))"

definition BuildEngine :: "('j, 'e) builder \<Rightarrow> configuration \<Rightarrow> ruleset \<Rightarrow> build_err + 'e" where
  "BuildEngine bd cfg rs =
     (case injectEngineSettings bd (rs_Body rs) cfg of
        Inl e \<Rightarrow> Inl e
      | Inr doc \<Rightarrow> (case bd_New bd doc of Inl e \<Rightarrow> Inl (EngineRefused e) | Inr eng \<Rightarrow> Inr eng))"

section \<open>Wiring\<close>

definition mmConfigurations :: "loaded \<Rightarrow> configuration list" where
  "mmConfigurations l = map bi_Configuration (ld_Configurations l)"

definition findRuleSet :: "ruleset list \<Rightarrow> ruleset_name \<Rightarrow> ruleset" where
  "findRuleSet list name =
     (case find (\<lambda>rs. rs_Name rs = name) list of
        Some rs \<Rightarrow> rs
      | None \<Rightarrow> \<lparr>rs_Name = name, rs_ARN = [], rs_Body = []\<rparr>)"

text \<open>The first loop of \<open>run\<close>: an engine for every configuration.\<close>

fun register_engines ::
  "('j, 'e) builder \<Rightarrow> ruleset list \<Rightarrow> binding list \<Rightarrow> (config_name \<rightharpoonup> 'e) \<Rightarrow>
     (config_name \<times> build_err) + (config_name \<rightharpoonup> 'e)" where
  "register_engines bd sets [] m = Inr m"
| "register_engines bd sets (b # bs) m =
     (let cfg = bi_Configuration b in
      case BuildEngine bd cfg (findRuleSet sets (cfg_RuleSetName cfg)) of
        Inl e \<Rightarrow> Inl (cfg_Name cfg, e)
      | Inr eng \<Rightarrow> register_engines bd sets bs (m(cfg_Name cfg \<mapsto> eng)))"

text \<open>
  The clients the publishers use: the HTTP client, and \<open>ou_sqs endpoint region accessKey secretKey\<close>,
  an SQS client or the error of loading its settings.
\<close>

record 'w outside =
  ou_net :: "'w net"
  ou_sqs :: "string \<Rightarrow> string \<Rightarrow> string \<Rightarrow> string \<Rightarrow> string + (sqs_message \<Rightarrow> 'w \<Rightarrow> string option \<times> 'w)"

datatype wiring_err = AWSSettings string string | UnsupportedKind string string

definition build_publisher ::
  "'w outside \<Rightarrow> loaded \<Rightarrow> publisher_settings \<Rightarrow> wiring_err + 'w publisher" where
  "build_publisher ou l p =
     (let t = NewTranslator (ld_Region l) (ld_AccountID l) None;
          r = (if ps_Kind p = ''sns_http'' then Inr (sns_publish (ou_net ou) (ps_URL p) t)
               else if ps_Kind p = ''sqs_eventbridge'' then
                 (case ou_sqs ou (ps_AWSEndpoint p) (cmp_Or (ps_AWSRegion p) ''us-east-1'')
                    (cmp_Or (ps_AccessKey p) ''x'') (cmp_Or (ps_SecretKey p) ''x'') of
                    Inl e \<Rightarrow> Inl (AWSSettings (ps_ID p) e)
                  | Inr send \<Rightarrow> Inr (sqs_publish ((ou_net ou)\<lparr>nx_SendMessage := send\<rparr>) (ps_QueueURL p) t))
               else Inl (UnsupportedKind (ps_ID p) (ps_Kind p)))
      in case r of
           Inl e \<Rightarrow> Inl e
         | Inr pub \<Rightarrow> Inr (if ps_OnlyEvents p \<noteq> [] then Filtered pub (ps_OnlyEvents p) else pub))"

fun buildPublishers ::
  "'w outside \<Rightarrow> loaded \<Rightarrow> publisher_settings list \<Rightarrow> (string \<rightharpoonup> 'w publisher) \<Rightarrow>
     wiring_err + (string \<rightharpoonup> 'w publisher)" where
  "buildPublishers ou l [] m = Inr m"
| "buildPublishers ou l (p # ps) m =
     (if \<not> ps_Enabled p then buildPublishers ou l ps m
      else case build_publisher ou l p of
             Inl e \<Rightarrow> Inl e
           | Inr pub \<Rightarrow> buildPublishers ou l ps (m(ps_ID p \<mapsto> pub)))"

definition publisher_for :: "(string \<rightharpoonup> 'w publisher) \<Rightarrow> string list \<Rightarrow> 'w publisher" where
  "publisher_for byID ids =
     (let children = List.map_filter byID ids in if children = [] then Noop else Multi children)"

fun publishers_by_config ::
  "(string \<rightharpoonup> 'w publisher) \<Rightarrow> binding list \<Rightarrow> (config_name \<rightharpoonup> 'w publisher) \<Rightarrow> config_name \<rightharpoonup> 'w publisher" where
  "publishers_by_config byID [] m = m"
| "publishers_by_config byID (b # bs) m =
     publishers_by_config byID bs
       (m(cfg_Name (bi_Configuration b) \<mapsto> publisher_for byID (bi_PublisherIDs b)))"

datatype run_err = EngineFailed config_name build_err | PublishersFailed wiring_err

text \<open>\<open>Service.publisher\<close>: a configuration without a publisher gets the no-op.\<close>

definition service_publisher :: "(config_name \<rightharpoonup> 'w publisher) \<Rightarrow> config_name \<Rightarrow> 'w publisher" where
  "service_publisher pubs name = (case pubs name of Some p \<Rightarrow> p | None \<Rightarrow> Noop)"

text \<open>\<open>run\<close> before the servers start: the service and its publishers.\<close>

definition run_setup ::
  "('j, 'e) builder \<Rightarrow> 'w outside \<Rightarrow> idgen \<Rightarrow> idgen \<Rightarrow> loaded \<Rightarrow>
     run_err + 'e service \<times> (config_name \<rightharpoonup> 'w publisher)" where
  "run_setup bd ou ids mids l =
     (case register_engines bd (ld_RuleSets l) (ld_Configurations l) Map.empty of
        Inl (name, e) \<Rightarrow> Inl (EngineFailed name e)
      | Inr engines \<Rightarrow>
          (let s = (empty_service (ld_TicketRetention l) ids mids)\<lparr>sv_engines := engines\<rparr>;
               s = LoadRuleSets (ld_RuleSets l) (LoadConfigurations (mmConfigurations l) s)
           in case buildPublishers ou l (ld_Publishers l) Map.empty of
                Inl e \<Rightarrow> Inl (PublishersFailed e)
              | Inr byID \<Rightarrow> Inr (s, publishers_by_config byID (ld_Configurations l) Map.empty)))"

end
