(* ===== verification/Config_Props.thy ===== *)
theory Config_Props
  imports Composition Sample_World
begin

text \<open>
  What a validated configuration guarantees: the validation accepts exactly the well-formed
  settings, loading keeps what the file says, and the composition root finds everything the
  settings refer to.
\<close>

section \<open>The validation is exact\<close>

definition valid_publisher :: "publisher_settings \<Rightarrow> bool" where
  "valid_publisher p \<longleftrightarrow>
     ps_ID p \<noteq> [] \<and>
     (ps_Kind p = ''sns_http'' \<and> ps_URL p \<noteq> [] \<or> ps_Kind p = ''sqs_eventbridge'' \<and> ps_QueueURL p \<noteq> []) \<and>
     set (ps_OnlyEvents p) \<subseteq> set KnownEventNames"

definition valid_configuration :: "configuration \<Rightarrow> bool" where
  "valid_configuration cfg \<longleftrightarrow>
     cfg_Name cfg \<noteq> [] \<and> configNamePattern (cfg_Name cfg) \<and> cfg_FlexMatchMode cfg = ''STANDALONE'' \<and>
     cfg_BackfillMode cfg \<in> {[], ''MANUAL''}"

text \<open>Every name a configuration refers to is there, and its publishers are enabled.\<close>

definition resolved :: "loaded \<Rightarrow> binding \<Rightarrow> bool" where
  "resolved l b \<longleftrightarrow>
     cfg_RuleSetName (bi_Configuration b) \<in> rs_Name ` set (ld_RuleSets l) \<and>
     (\<forall>i\<in>set (bi_PublisherIDs b). \<exists>p\<in>set (ld_Publishers l). ps_ID p = i \<and> ps_Enabled p)"

definition valid_loaded :: "loaded \<Rightarrow> bool" where
  "valid_loaded l \<longleftrightarrow>
     ld_AWSAPIPort l \<noteq> 0 \<and> ld_WebUIPort l \<noteq> 0 \<and> ld_AWSAPIPort l \<noteq> ld_WebUIPort l \<and>
     distinct (map rs_Name (ld_RuleSets l)) \<and> [] \<notin> rs_Name ` set (ld_RuleSets l) \<and>
     distinct (map ps_ID (ld_Publishers l)) \<and> list_all valid_publisher (ld_Publishers l) \<and>
     distinct (map (cfg_Name \<circ> bi_Configuration) (ld_Configurations l)) \<and>
     list_all (\<lambda>b. valid_configuration (bi_Configuration b) \<and> resolved l b) (ld_Configurations l)"

lemma check_rulesets_iff:
  "check_rulesets names rss = Inr ns \<longleftrightarrow>
     ns = rev (map rs_Name rss) @ names \<and> distinct (map rs_Name rss) \<and>
     set names \<inter> rs_Name ` set rss = {} \<and> [] \<notin> rs_Name ` set rss"
  by (induction rss arbitrary: names) auto

lemma check_events_iff: "check_events i ns = None \<longleftrightarrow> set ns \<subseteq> set KnownEventNames"
  by (induction ns) auto

lemma check_publisher_iff:
  "ps_ID p \<noteq> [] \<and> check_kind p = None \<and> check_events (ps_ID p) (ps_OnlyEvents p) = None \<longleftrightarrow> valid_publisher p"
  by (auto simp: check_kind_def valid_publisher_def check_events_iff)

lemma check_publishers_iff:
  "check_publishers pubs ps = Inr m \<longleftrightarrow>
     m = rev (map (\<lambda>p. (ps_ID p, p)) ps) @ pubs \<and> distinct (map ps_ID ps) \<and>
     fst ` set pubs \<inter> ps_ID ` set ps = {} \<and> list_all valid_publisher ps"
proof (induction ps arbitrary: pubs)
  case (Cons p ps)
  have "check_publishers pubs (p # ps) = Inr m \<longleftrightarrow>
      valid_publisher p \<and> ps_ID p \<notin> fst ` set pubs \<and> check_publishers ((ps_ID p, p) # pubs) ps = Inr m"
    by (auto simp: map_of_eq_None_iff check_publisher_iff [symmetric] split: option.split)
  then show ?case unfolding Cons.IH by auto
qed auto

lemma check_targets_iff:
  "check_targets pubs name ids = None \<longleftrightarrow> (\<forall>i\<in>set ids. \<exists>p. map_of pubs i = Some p \<and> ps_Enabled p)"
  by (induction ids) (auto split: option.split)

lemma check_modes_iff:
  "check_modes cfg = None \<longleftrightarrow> cfg_FlexMatchMode cfg = ''STANDALONE'' \<and> cfg_BackfillMode cfg \<in> {[], ''MANUAL''}"
  by (auto simp: check_modes_def)

lemma valid_configuration_iff:
  "valid_configuration cfg \<longleftrightarrow> cfg_Name cfg \<noteq> [] \<and> configNamePattern (cfg_Name cfg) \<and> check_modes cfg = None"
  unfolding valid_configuration_def check_modes_iff by simp

lemma check_configurations_iff:
  "check_configurations rsNames pubs names bs = None \<longleftrightarrow>
     distinct (map (cfg_Name \<circ> bi_Configuration) bs) \<and>
     set names \<inter> (cfg_Name \<circ> bi_Configuration) ` set bs = {} \<and>
     list_all (\<lambda>b. valid_configuration (bi_Configuration b) \<and>
       cfg_RuleSetName (bi_Configuration b) \<in> set rsNames \<and>
       (\<forall>i\<in>set (bi_PublisherIDs b). \<exists>p. map_of pubs i = Some p \<and> ps_Enabled p)) bs"
proof (induction bs arbitrary: names)
  case (Cons b bs)
  let ?cfg = "bi_Configuration b"
  have "check_configurations rsNames pubs names (b # bs) = None \<longleftrightarrow>
      valid_configuration ?cfg \<and> cfg_Name ?cfg \<notin> set names \<and> cfg_RuleSetName ?cfg \<in> set rsNames \<and>
      check_targets pubs (cfg_Name ?cfg) (bi_PublisherIDs b) = None \<and>
      check_configurations rsNames pubs (cfg_Name ?cfg # names) bs = None"
    by (auto simp: Let_def valid_configuration_iff split: option.split)
  then show ?case
    unfolding Cons.IH check_targets_iff by (auto simp: o_def simp del: check_configurations.simps)
qed simp

lemma publisher_lookup:
  assumes "distinct (map ps_ID ps)"
  shows "map_of (rev (map (\<lambda>p. (ps_ID p, p)) ps)) i = Some p \<longleftrightarrow> p \<in> set ps \<and> ps_ID p = i"
proof -
  have "distinct (map fst (rev (map (\<lambda>p. (ps_ID p, p)) ps)))" using assms by (simp add: rev_map [symmetric] o_def)
  from map_of_in_set [OF this, of i p] show ?thesis by auto
qed

lemma validate_valid: "validate l = None \<longleftrightarrow> valid_loaded l"
proof (cases "\<exists>ns m. check_rulesets [] (ld_RuleSets l) = Inr ns \<and> check_publishers [] (ld_Publishers l) = Inr m")
  case True
  then obtain ns m where r: "check_rulesets [] (ld_RuleSets l) = Inr ns" "check_publishers [] (ld_Publishers l) = Inr m"
    by blast
  note rs = r(1) [unfolded check_rulesets_iff] and ps = r(2) [unfolded check_publishers_iff]
  have "(\<exists>p. map_of m i = Some p \<and> ps_Enabled p) \<longleftrightarrow> (\<exists>p\<in>set (ld_Publishers l). ps_ID p = i \<and> ps_Enabled p)" for i
    using ps publisher_lookup by auto
  then show ?thesis
    using rs ps by (auto simp: validate_def r check_configurations_iff valid_loaded_def resolved_def list_all_iff)
next
  case False
  then have "validate l \<noteq> None" by (auto simp: validate_def split: sum.split)
  moreover have "\<not> valid_loaded l"
    using False by (auto simp: valid_loaded_def check_rulesets_iff check_publishers_iff)
  ultimately show ?thesis by simp
qed

text \<open>
  C18. The validation accepts exactly the well-formed settings: two different ports that are set,
  rule sets, publishers and configurations named apart, publishers with a known kind, the address
  it needs and known event names, and configurations in the modes that are supported which refer
  only to existing rule sets and enabled publishers.
\<close>

theorem validate_exact: "validate l = None \<longleftrightarrow> valid_loaded l"
  by (rule validate_valid)

section \<open>Loading\<close>

lemma load_rulesets_files:
  "load_rulesets fs d base rss = Inr sets \<Longrightarrow>
   list_all2 (\<lambda>rs r. rs_Name r = rss_Name rs \<and>
     os_ReadFile fs (if IsAbs (rss_Path rs) then rss_Path rs else Join base (rss_Path rs)) = Inr (rs_Body r)) rss sets"
  by (induction rss arbitrary: sets) (auto simp: Let_def split: sum.splits)

lemma LoadFile_cases:
  assumes "LoadFile fs path = Inr l"
  obtains raw doc where "os_ReadFile fs path = Inr raw" "yaml_Unmarshal fs raw = Inr doc" "validate l = None"
    "load_rulesets fs (applyDefaults doc) (Dir path) (doc_RuleSets doc) = Inr (ld_RuleSets l)"
    "ld_Configurations l = map (load_binding (applyDefaults doc)) (doc_MatchmakingConfigurations doc)"
    "ld_Publishers l = map load_publisher (doc_Publishers doc)"
  using assms
  by (auto simp: LoadFile_def Let_def applyDefaults_def split: sum.splits option.splits)

lemma LoadFile_valid: "LoadFile fs path = Inr l \<Longrightarrow> valid_loaded l"
  by (metis LoadFile_cases validate_valid)

text \<open>An entry of the file and what it was loaded as. A time-out is the entry's number of seconds
  as long as it fits a duration, about 292 years.\<close>

definition fits_duration :: "int \<Rightarrow> bool" where
  "fits_duration n \<longleftrightarrow> \<bar>n\<bar> \<le> 9223372036"

definition states_entry :: "mc_section \<Rightarrow> binding \<Rightarrow> bool" where
  "states_entry mc b \<longleftrightarrow>
     (let cfg = bi_Configuration b in
      cfg_Name cfg = ms_Name mc \<and> cfg_RuleSetName cfg = ms_RuleSetName mc \<and>
      cfg_AcceptanceRequired cfg = ms_AcceptanceRequired mc \<and> bi_PublisherIDs b = ms_NotificationTargets mc \<and>
      (fits_duration (ms_RequestTimeoutSeconds mc) \<longrightarrow>
        int_seconds (cfg_RequestTimeout cfg) = ms_RequestTimeoutSeconds mc) \<and>
      (fits_duration (ms_AcceptanceTimeoutSeconds mc) \<longrightarrow>
        int_seconds (cfg_AcceptanceTimeout cfg) = ms_AcceptanceTimeoutSeconds mc))"

definition states_ruleset :: "files \<Rightarrow> string \<Rightarrow> ruleset_section \<Rightarrow> ruleset \<Rightarrow> bool" where
  "states_ruleset fs base rs r \<longleftrightarrow>
     rs_Name r = rss_Name rs \<and>
     os_ReadFile fs (if IsAbs (rss_Path rs) then rss_Path rs else Join base (rss_Path rs)) = Inr (rs_Body r)"

lemma load_binding_states: "states_entry mc (load_binding d mc)"
  by (simp add: states_entry_def load_binding_def fits_duration_def int_seconds_configured(2))

lemma load_rulesets_states:
  "load_rulesets fs d base rss = Inr sets \<Longrightarrow> list_all2 (states_ruleset fs base) rss sets"
  by (induction rss arbitrary: sets) (auto simp: Let_def states_ruleset_def split: sum.splits)


section \<open>Wiring\<close>

lemma register_engines_other:
  "register_engines bd sets bs m = Inr m' \<Longrightarrow> n \<notin> set (map (cfg_Name \<circ> bi_Configuration) bs) \<Longrightarrow> m' n = m n"
  by (induction bs arbitrary: m) (auto simp: Let_def split: sum.splits)

lemma register_engines_built:
  assumes "register_engines bd sets bs m = Inr m'" and "distinct (map (cfg_Name \<circ> bi_Configuration) bs)" and "b \<in> set bs"
  shows "\<exists>eng. m' (cfg_Name (bi_Configuration b)) = Some eng \<and>
    BuildEngine bd (bi_Configuration b) (findRuleSet sets (cfg_RuleSetName (bi_Configuration b))) = Inr eng"
  using assms
proof (induction bs arbitrary: m)
  case (Cons c bs)
  then obtain eng where eng: "BuildEngine bd (bi_Configuration c) (findRuleSet sets (cfg_RuleSetName (bi_Configuration c))) = Inr eng"
    "register_engines bd sets bs (m(cfg_Name (bi_Configuration c) \<mapsto> eng)) = Inr m'"
    by (auto simp: Let_def split: sum.splits)
  from register_engines_other [OF eng(2)] Cons.prems(2)
  have "m' (cfg_Name (bi_Configuration c)) = Some eng" by auto
  with eng Cons.IH [OF eng(2)] Cons.prems show ?case by auto
qed simp

lemma fold_update_lookup:
  "distinct (map key xs) \<Longrightarrow> set (map key xs) \<inter> fst ` set m = {} \<Longrightarrow> x \<in> set xs \<Longrightarrow>
   map_of (fold (\<lambda>x m. AList.update (key x) x m) xs m) (key x) = Some x"
proof (induction xs arbitrary: m)
  case (Cons y ys)
  have other: "map_of (fold (\<lambda>x m. AList.update (key x) x m) zs m') k = map_of m' k" if "k \<notin> key ` set zs" for zs m' k
    using that by (induction zs arbitrary: m') (auto simp: map_of_update_iff)
  show ?case
  proof (cases "x = y")
    case True
    with Cons.prems(1) show ?thesis by (simp add: other map_of_update_iff)
  next
    case False
    then show ?thesis
      using Cons.prems Cons.IH [of "AList.update (key y) y m"] by (auto simp: dom_update)
  qed
qed simp

lemma built_publishers:
  "buildPublishers ou l ps m = Inr m' \<Longrightarrow> distinct (map ps_ID ps) \<Longrightarrow>
   (\<forall>i. i \<notin> ps_ID ` set ps \<longrightarrow> m' i = m i) \<and>
   (\<forall>p\<in>set ps. ps_Enabled p \<longrightarrow> (\<exists>pub. m' (ps_ID p) = Some pub \<and> build_publisher ou l p = Inr pub))"
proof (induction ps arbitrary: m)
  case (Cons p ps)
  show ?case
  proof (cases "ps_Enabled p")
    case True
    then obtain pub where pub: "build_publisher ou l p = Inr pub" "buildPublishers ou l ps (m(ps_ID p \<mapsto> pub)) = Inr m'"
      using Cons.prems by (auto split: sum.splits)
    from Cons.IH [OF pub(2)] Cons.prems(2) pub(1) show ?thesis by (auto simp: image_iff)
  next
    case False
    with Cons.IH [of m] Cons.prems show ?thesis by auto
  qed
qed simp

lemma publishers_by_config_lookup:
  "distinct (map (cfg_Name \<circ> bi_Configuration) bs) \<Longrightarrow>
   (\<forall>n. n \<notin> (cfg_Name \<circ> bi_Configuration) ` set bs \<longrightarrow> publishers_by_config byID bs m n = m n) \<and>
   (\<forall>b\<in>set bs. publishers_by_config byID bs m (cfg_Name (bi_Configuration b)) =
      Some (publisher_for byID (bi_PublisherIDs b)))"
proof (induction bs arbitrary: m)
  case (Cons b bs)
  from Cons.IH [of "m(cfg_Name (bi_Configuration b) \<mapsto> publisher_for byID (bi_PublisherIDs b))"] Cons.prems
  show ?case by (auto simp: image_iff fun_upd_def)
qed simp

lemma run_setup_service:
  assumes "run_setup bd ou ids mids l = Inr (s, pubs)"
    and "distinct (map (cfg_Name \<circ> bi_Configuration) (ld_Configurations l))"
  shows "\<exists>engine. s = new_service (ld_TicketRetention l) ids mids (mmConfigurations l) (ld_RuleSets l) engine"
proof -
  obtain m where m: "register_engines bd (ld_RuleSets l) (ld_Configurations l) Map.empty = Inr m"
    "s = (LoadRuleSets (ld_RuleSets l) (LoadConfigurations (mmConfigurations l)
       (empty_service (ld_TicketRetention l) ids mids)))\<lparr>sv_engines := m\<rparr>"
    using assms(1)
    by (auto simp: run_setup_def Let_def LoadRuleSets_def LoadConfigurations_def split: sum.splits prod.splits)
  let ?e = "\<lambda>n. the (m n)" and ?names = "(cfg_Name \<circ> bi_Configuration) ` set (ld_Configurations l)"
  have fold: "fold (\<lambda>c s. Register (cfg_Name c) (?e (cfg_Name c)) s) cs s =
      s\<lparr>sv_engines := \<lambda>n. if n \<in> cfg_Name ` set cs then Some (?e n) else sv_engines s n\<rparr>" for cs and s :: "'a service"
    by (induction cs arbitrary: s) (auto simp: Register_def fun_eq_iff)
  have "m n = (if n \<in> cfg_Name ` set (mmConfigurations l) then Some (?e n) else None)" for n
  proof (cases "n \<in> ?names")
    case True
    then obtain b where "b \<in> set (ld_Configurations l)" "n = cfg_Name (bi_Configuration b)" by auto
    with register_engines_built [OF m(1) assms(2), of b] show ?thesis by (auto simp: mmConfigurations_def)
  next
    case False
    with register_engines_other [OF m(1)] show ?thesis by (auto simp: mmConfigurations_def)
  qed
  moreover let ?s0 = "LoadRuleSets (ld_RuleSets l) (LoadConfigurations (mmConfigurations l)
    (empty_service (ld_TicketRetention l) ids mids)) :: 'a service"
  have "sv_engines ?s0 = Map.empty"
    by (simp add: empty_service_def LoadRuleSets_def LoadConfigurations_def)
  ultimately have "m = (\<lambda>n. if n \<in> cfg_Name ` set (mmConfigurations l) then Some (?e n) else sv_engines ?s0 n)"
    by (simp only:)
  then have "s = new_service (ld_TicketRetention l) ids mids (mmConfigurations l) (ld_RuleSets l) ?e"
    unfolding new_service_def fold m(2) by (rule arg_cong)
  then show ?thesis by blast
qed

lemma findRuleSet_found:
  "distinct (map rs_Name sets) \<Longrightarrow> name \<in> rs_Name ` set sets \<Longrightarrow>
   findRuleSet sets name \<in> set sets \<and> rs_Name (findRuleSet sets name) = name"
  by (auto simp: findRuleSet_def find_Some_iff find_None_iff split: option.split)

text \<open>The service of a loaded file knows each of its configurations and rule sets by name.\<close>

lemma run_setup_cases:
  assumes "run_setup bd ou ids mids l = Inr (s, pubs)"
  obtains m byID where "register_engines bd (ld_RuleSets l) (ld_Configurations l) Map.empty = Inr m"
    "buildPublishers ou l (ld_Publishers l) Map.empty = Inr byID"
    "pubs = publishers_by_config byID (ld_Configurations l) Map.empty"
    "s = LoadRuleSets (ld_RuleSets l) (LoadConfigurations (mmConfigurations l)
       ((empty_service (ld_TicketRetention l) ids mids)\<lparr>sv_engines := m\<rparr>))"
  using assms by (auto simp: run_setup_def Let_def split: sum.splits prod.splits)

lemma setup_lookups:
  assumes "LoadFile fs path = Inr l" and "run_setup bd ou ids mids l = Inr (s, pubs)"
  shows "b \<in> set (ld_Configurations l) \<Longrightarrow> GetConfiguration (cfg_Name (bi_Configuration b)) s = Inr (bi_Configuration b)"
    "rs \<in> set (ld_RuleSets l) \<Longrightarrow> GetRuleSet (rs_Name rs) s = Inr rs"
proof -
  from LoadFile_valid [OF assms(1)] have v: "distinct (map rs_Name (ld_RuleSets l))"
    "distinct (map (cfg_Name \<circ> bi_Configuration) (ld_Configurations l))"
    by (auto simp: valid_loaded_def)
  obtain m where s: "s = LoadRuleSets (ld_RuleSets l) (LoadConfigurations (mmConfigurations l)
       ((empty_service (ld_TicketRetention l) ids mids)\<lparr>sv_engines := m\<rparr>))"
    using assms(2) by (rule run_setup_cases)
  show "b \<in> set (ld_Configurations l) \<Longrightarrow> GetConfiguration (cfg_Name (bi_Configuration b)) s = Inr (bi_Configuration b)"
    using fold_update_lookup [of cfg_Name "mmConfigurations l" "[]" "bi_Configuration b"] v(2)
    by (simp add: s GetConfiguration_def LoadRuleSets_def LoadConfigurations_def mmConfigurations_def o_def)
  show "rs \<in> set (ld_RuleSets l) \<Longrightarrow> GetRuleSet (rs_Name rs) s = Inr rs"
    using fold_update_lookup [of rs_Name "ld_RuleSets l" "[]" rs] v(1)
    by (simp add: s GetRuleSet_def LoadRuleSets_def)
qed

lemma children_built:
  assumes "buildPublishers ou l (ld_Publishers l) Map.empty = Inr byID" and "distinct (map ps_ID (ld_Publishers l))"
    and "resolved l b" and "set is \<subseteq> set (bi_PublisherIDs b)"
  shows "list_all2 (\<lambda>i pub. \<exists>p\<in>set (ld_Publishers l). ps_ID p = i \<and> build_publisher ou l p = Inr pub)
    is (List.map_filter byID is)"
  using assms(4)
proof (induction "is")
  case (Cons i "is")
  then obtain p where "p \<in> set (ld_Publishers l)" "ps_ID p = i" "ps_Enabled p"
    using assms(3) by (auto simp: resolved_def)
  moreover from this built_publishers [OF assms(1,2)]
  obtain pub where "byID i = Some pub" "build_publisher ou l p = Inr pub" by blast
  ultimately show ?case using Cons by (auto simp: List.map_filter_def)
qed (simp add: List.map_filter_def)

text \<open>
  C17. When a loaded file starts up, everything it refers to is in place: the service starts from
  the initial state, each configuration is registered and has the engine built from it and from
  the rule set it names, and its publisher sends to all its targets in the order listed, each
  built from the settings of that identifier; none is dropped silently.
\<close>

theorem started_service_wired:
  assumes "LoadFile fs path = Inr l" and "run_setup bd ou ids mids l = Inr (s, pubs)"
    and "b \<in> set (ld_Configurations l)"
  shows "let cfg = bi_Configuration b; rs = findRuleSet (ld_RuleSets l) (cfg_RuleSetName cfg) in
    service_reachable d s \<and> GetConfiguration (cfg_Name cfg) s = Inr cfg \<and>
    rs \<in> set (ld_RuleSets l) \<and> GetRuleSet (cfg_RuleSetName cfg) s = Inr rs \<and>
    (\<exists>eng. EngineFor (cfg_Name cfg) s = Inr eng \<and> BuildEngine bd cfg rs = Inr eng) \<and>
    (\<exists>children. list_all2 (\<lambda>i pub. \<exists>p\<in>set (ld_Publishers l). ps_ID p = i \<and> build_publisher ou l p = Inr pub)
        (bi_PublisherIDs b) children \<and>
      service_publisher pubs (cfg_Name cfg) = (if children = [] then Noop else Multi children))"
proof -
  let ?cfg = "bi_Configuration b"
  from LoadFile_valid [OF assms(1)] have v: "distinct (map rs_Name (ld_RuleSets l))" "distinct (map ps_ID (ld_Publishers l))"
    "distinct (map (cfg_Name \<circ> bi_Configuration) (ld_Configurations l))" "resolved l b"
    using assms(3) by (auto simp: valid_loaded_def list_all_iff)
  obtain m byID where m: "register_engines bd (ld_RuleSets l) (ld_Configurations l) Map.empty = Inr m"
    "buildPublishers ou l (ld_Publishers l) Map.empty = Inr byID"
    "pubs = publishers_by_config byID (ld_Configurations l) Map.empty"
    "s = LoadRuleSets (ld_RuleSets l) (LoadConfigurations (mmConfigurations l)
       ((empty_service (ld_TicketRetention l) ids mids)\<lparr>sv_engines := m\<rparr>))"
    using assms(2) by (rule run_setup_cases)
  let ?rs = "findRuleSet (ld_RuleSets l) (cfg_RuleSetName ?cfg)"
  have rs: "?rs \<in> set (ld_RuleSets l)" "rs_Name ?rs = cfg_RuleSetName ?cfg"
    using findRuleSet_found [OF v(1)] v(4) by (auto simp: resolved_def)
  have reach: "service_reachable d s"
    using run_setup_service [OF assms(2) v(3)] steps_done unfolding service_reachable_def by blast
  note look = setup_lookups [OF assms(1,2)]
  have conf: "GetConfiguration (cfg_Name ?cfg) s = Inr ?cfg" by (rule look(1) [OF assms(3)])
  have sets: "GetRuleSet (cfg_RuleSetName ?cfg) s = Inr ?rs" using look(2) [OF rs(1)] rs(2) by simp
  have eng: "\<exists>eng. EngineFor (cfg_Name ?cfg) s = Inr eng \<and> BuildEngine bd ?cfg ?rs = Inr eng"
    using register_engines_built [OF m(1) v(3) assms(3)]
    by (auto simp: m(4) EngineFor_def LoadRuleSets_def LoadConfigurations_def)
  have pub: "service_publisher pubs (cfg_Name ?cfg) = publisher_for byID (bi_PublisherIDs b)"
    using publishers_by_config_lookup [OF v(3), of byID Map.empty] assms(3) by (auto simp: m(3) service_publisher_def)
  have "\<exists>children. list_all2 (\<lambda>i pub. \<exists>p\<in>set (ld_Publishers l). ps_ID p = i \<and> build_publisher ou l p = Inr pub)
        (bi_PublisherIDs b) children \<and>
      service_publisher pubs (cfg_Name ?cfg) = (if children = [] then Noop else Multi children)"
    using children_built [OF m(2) v(2,4) subset_refl] pub unfolding publisher_for_def Let_def by blast
  with reach conf sets eng rs(1) show ?thesis by (simp only: Let_def)
qed

text \<open>
  The engine of a configuration is built from its rule set's document with three settings put
  in its place, whatever the document says of them: whether acceptance is required and the two
  time-outs, in the seconds of the configuration file.
\<close>

theorem engine_settings_configured:
  assumes "fits_duration (ms_AcceptanceTimeoutSeconds mc)" and "fits_duration (ms_RequestTimeoutSeconds mc)"
    and "bd_decode bd (rs_Body rs) = Inr (Some doc)"
  shows "\<exists>doc'. BuildEngine bd (bi_Configuration (load_binding d mc)) rs =
      (case bd_New bd doc' of Inl e \<Rightarrow> Inl (EngineRefused e) | Inr eng \<Rightarrow> Inr eng) \<and>
    doc' ''acceptanceRequired'' = Some (BoolMember (ms_AcceptanceRequired mc)) \<and>
    doc' ''acceptanceTimeoutSeconds'' = Some (IntMember (ms_AcceptanceTimeoutSeconds mc)) \<and>
    doc' ''requestTimeoutSeconds'' = Some (IntMember (ms_RequestTimeoutSeconds mc)) \<and>
    (\<forall>k. k \<in> {''acceptanceRequired'', ''acceptanceTimeoutSeconds'', ''requestTimeoutSeconds''} \<or>
      doc' k = map_option Decoded (doc k))"
proof -
  let ?doc = "(\<lambda>k. map_option Decoded (doc k))
    (''acceptanceRequired'' \<mapsto> BoolMember (ms_AcceptanceRequired mc),
     ''acceptanceTimeoutSeconds'' \<mapsto> IntMember (ms_AcceptanceTimeoutSeconds mc),
     ''requestTimeoutSeconds'' \<mapsto> IntMember (ms_RequestTimeoutSeconds mc))"
  have "injectEngineSettings bd (rs_Body rs) (bi_Configuration (load_binding d mc)) = Inr ?doc"
    using load_binding_states [of mc d] assms by (simp add: injectEngineSettings_def states_entry_def Let_def)
  then show ?thesis by (intro exI [of _ ?doc]) (simp add: BuildEngine_def)
qed

text \<open>
  A rule set whose body is the JSON document \<open>null\<close> is not refused: building its engine writes
  to a nil map and panics.
\<close>

lemma null_build_panics:
  assumes "bd_decode bd (rs_Body rs) = Inr None"
  shows "BuildEngine bd cfg rs = Inl NilMapPanic"
  using assms by (simp add: BuildEngine_def injectEngineSettings_def)

section \<open>A configuration file\<close>

definition toy_mc :: mc_section where
  "toy_mc = \<lparr>ms_Name = ''c'', ms_RuleSetName = ''r'', ms_RequestTimeoutSeconds = 60, ms_AcceptanceRequired = True,
     ms_AcceptanceTimeoutSeconds = 20, ms_BackfillMode = [], ms_FlexMatchMode = [], ms_NotificationTargets = [''p'']\<rparr>"

definition toy_document :: document where
  "toy_document = \<lparr>doc_Server = \<lparr>ss_AWSAPIPort = 8080, ss_WebUIPort = 8081, ss_Region = [], ss_AccountID = [],
       ss_TickInterval = 0, ss_TicketRetention = 0, ss_LogLevel = []\<rparr>,
     doc_MatchmakingConfigurations = [toy_mc],
     doc_RuleSets = [\<lparr>rss_Name = ''r'', rss_Path = ''../r.json''\<rparr>],
     doc_Publishers = [\<lparr>pss_ID = ''p'', pss_Kind = ''sns_http'', pss_Enabled = True, pss_URL = ''http://x'',
       pss_QueueURL = [], pss_AWSEndpoint = [], pss_AWSRegion = [], pss_AccessKey = [], pss_SecretKey = [],
       pss_OnlyEvents = [''MatchmakingSucceeded'']\<rparr>]\<rparr>"

definition toy_files :: files where
  "toy_files = \<lparr>os_ReadFile = (\<lambda>p. if p = ''etc/config.yaml'' then Inr ''yaml'' else if p = ''r.json'' then Inr ''{}''
       else Inl ''not found''), yaml_Unmarshal = (\<lambda>_. Inr toy_document)\<rparr>"

definition toy_loaded :: loaded where
  "toy_loaded = (case LoadFile toy_files ''etc/config.yaml'' of Inr l \<Rightarrow> l)"

lemmas toy_config_defs = toy_files_def toy_document_def toy_mc_def toy_loaded_def LoadFile_def
  applyDefaults_def cmp_Or_def second_def Dir_def Clean_def Join_def IsAbs_def arn_def parseLogLevel_def
  load_binding_def load_publisher_def validate_def check_kind_def configNamePattern_def name_char_def check_modes_def
  KnownEventNames_def Let_def

lemma toy_load: "LoadFile toy_files ''etc/config.yaml'' = Inr toy_loaded"
  by (simp add: toy_config_defs)


definition toy_builder :: "(nat, toy) builder" where
  "toy_builder = \<lparr>bd_decode = (\<lambda>body. if body = ''{}'' then Inr (Some [''name'' \<mapsto> 7]) else if body = ''null'' then Inr None
       else Inl ''syntax''), bd_New = (\<lambda>doc. Inr toy_engine)\<rparr>"

definition toy_outside :: "http_request list outside" where
  "toy_outside = \<lparr>ou_net = \<lparr>nx_ParseURL = (\<lambda>_. None), nx_Do = (\<lambda>r w. (Inr 200, w @ [r])),
     nx_SendMessage = (\<lambda>m w. (None, w))\<rparr>, ou_sqs = (\<lambda>e r a k. Inl ''no SQS'')\<rparr>"

definition toy_setup :: "toy service \<times> (config_name \<rightharpoonup> http_request list publisher)" where
  "toy_setup = (case run_setup toy_builder toy_outside (NewSequence ''t-'') (NewSequence ''m-'') toy_loaded of Inr r \<Rightarrow> r)"

lemma toy_set_up:
  obtains s pubs where
    "run_setup toy_builder toy_outside (NewSequence ''t-'') (NewSequence ''m-'') toy_loaded = Inr (s, pubs)"
    "toy_setup = (s, pubs)"
proof -
  let ?r = "run_setup toy_builder toy_outside (NewSequence ''t-'') (NewSequence ''m-'') toy_loaded"
  have "\<exists>r. ?r = Inr r"
    by (simp add: run_setup_def toy_config_defs toy_builder_def toy_outside_def BuildEngine_def
        injectEngineSettings_def findRuleSet_def build_publisher_def)
  then show ?thesis using that by (auto simp: toy_setup_def)
qed

theorem started_service_wired_witness:
  "service_reachable toy_deps (fst toy_setup) \<and> EngineFor ''c'' (fst toy_setup) = Inr toy_engine \<and>
   (\<exists>pub. service_publisher (snd toy_setup) ''c'' = Multi [pub])"
proof -
  obtain s pubs where r: "run_setup toy_builder toy_outside (NewSequence ''t-'') (NewSequence ''m-'') toy_loaded = Inr (s, pubs)"
    "toy_setup = (s, pubs)"
    by (rule toy_set_up)
  obtain b where b: "ld_Configurations toy_loaded = [b]" "cfg_Name (bi_Configuration b) = ''c''"
    "bi_PublisherIDs b = [''p'']"
    by (simp add: toy_config_defs)
  from started_service_wired [OF toy_load r(1), of b toy_deps] b
  obtain eng children rs where w: "service_reachable toy_deps s" "EngineFor ''c'' s = Inr eng"
    "BuildEngine toy_builder (bi_Configuration b) rs = Inr eng" "length children = 1"
    "service_publisher pubs ''c'' = (if children = [] then Noop else Multi children)"
    by (auto simp: Let_def dest: list_all2_lengthD)
  then have "eng = toy_engine" "\<exists>pub. children = [pub]"
    by (auto simp: BuildEngine_def toy_builder_def length_Suc_conv split: sum.splits)
  then have "EngineFor ''c'' s = Inr toy_engine" "\<exists>pub. service_publisher pubs ''c'' = Multi [pub]"
    using w(2,5) by auto
  with w(1) show ?thesis unfolding r(2) by simp
qed

theorem engine_settings_configured_witness:
  "\<exists>doc'. BuildEngine toy_builder (bi_Configuration (load_binding toy_document toy_mc))
       \<lparr>rs_Name = ''r'', rs_ARN = [], rs_Body = ''{}''\<rparr> = (case bd_New toy_builder doc' of
         Inl e \<Rightarrow> Inl (EngineRefused e) | Inr eng \<Rightarrow> Inr eng) \<and>
     doc' ''acceptanceTimeoutSeconds'' = Some (IntMember 20) \<and> doc' ''name'' = Some (Decoded 7)"
proof -
  let ?rs = "\<lparr>rs_Name = ''r'', rs_ARN = [], rs_Body = ''{}''\<rparr>"
  have "fits_duration (ms_AcceptanceTimeoutSeconds toy_mc)" "fits_duration (ms_RequestTimeoutSeconds toy_mc)"
    "bd_decode toy_builder (rs_Body ?rs) = Inr (Some [''name'' \<mapsto> 7])"
    by (simp_all add: fits_duration_def toy_mc_def toy_builder_def)
  from engine_settings_configured [OF this, of toy_document] obtain doc' where d: "BuildEngine toy_builder (bi_Configuration (load_binding toy_document toy_mc)) ?rs =
      (case bd_New toy_builder doc' of Inl e \<Rightarrow> Inl (EngineRefused e) | Inr eng \<Rightarrow> Inr eng)"
    "doc' ''acceptanceTimeoutSeconds'' = Some (IntMember (ms_AcceptanceTimeoutSeconds toy_mc))"
    "\<forall>k. k \<in> {''acceptanceRequired'', ''acceptanceTimeoutSeconds'', ''requestTimeoutSeconds''} \<or>
      doc' k = map_option Decoded ([''name'' \<mapsto> 7] k)"
    by blast
  have "doc' ''name'' = Some (Decoded 7)" using d(3) [rule_format, of "''name''"] by simp
  with d(1,2) show ?thesis by (intro exI [of _ doc'] conjI) (simp_all add: toy_mc_def)
qed

end
