(* ===== verification/Cbor.thy ===== *)
theory Cbor
  imports Go_Float Json_Laws
begin

text \<open>
  The CBOR codec (\<open>internal/interfaces/awsapi/cbor_codec.go\<close>): it walks a Go value by reflection
  into a CBOR value, and turns a CBOR value into the plain value \<open>encoding/json\<close> then writes. The
  byte format of CBOR belongs to smithy-go; the model ends at its \<open>Value\<close> type.
\<close>

section \<open>Go values\<close>

text \<open>
  What \<open>reflect\<close> sees of a value: a pointer or interface is nil or holds a value, a slice or map
  may be nil, a struct field has its Go name and its \<open>json\<close> tag. \<open>GOther\<close> is any other kind.
\<close>

datatype goval =
    GString string
  | GBool bool
  | GInt int
  | GUint nat
  | GFloat float64
  | GNil
  | GPtr goval
  | GSlice "goval list"
  | GNilSlice
  | GMap "(string \<times> goval) list"
  | GNilMap
  | GStruct "((string \<times> string) \<times> goval) list"
  | GOther

text \<open>The values of \<open>smithycbor\<close>; \<open>CFloat32\<close> carries the value already widened.\<close>

datatype cbor =
    CUint nat
  | CNegInt nat
  | CString string
  | CBool bool
  | CFloat32 float64
  | CFloat64 float64
  | CList "cbor list"
  | CMap "(string \<times> cbor) list"
  | CTag nat cbor
  | CNil
  | COther

section \<open>Struct tags\<close>

fun cut_comma :: "string \<Rightarrow> string \<times> string" where
  "cut_comma [] = ([], [])"
| "cut_comma (c # cs) = (if c = CHR '','' then ([], cs) else (let (a, b) = cut_comma cs in (c # a, b)))"

fun contains :: "string \<Rightarrow> string \<Rightarrow> bool" where
  "contains [] sub = (sub = [])"
| "contains (c # cs) sub = (take (length sub) (c # cs) = sub \<or> contains cs sub)"

definition tag_name :: "string \<times> string \<Rightarrow> string" where
  "tag_name f = (let n = fst (cut_comma (snd f)) in if n = [] then fst f else n)"

definition tag_omitempty :: "string \<times> string \<Rightarrow> bool" where
  "tag_omitempty f = contains (snd (cut_comma (snd f))) ''omitempty''"

definition isZeroValue :: "goval \<Rightarrow> bool" where
  "isZeroValue v =
     (case v of
        GString s \<Rightarrow> s = []
      | GBool b \<Rightarrow> \<not> b
      | GInt i \<Rightarrow> i = 0
      | GUint n \<Rightarrow> n = 0
      | GFloat f \<Rightarrow> is_zero f
      | GNil \<Rightarrow> True
      | GSlice vs \<Rightarrow> vs = []
      | GNilSlice \<Rightarrow> True
      | GMap m \<Rightarrow> m = []
      | GNilMap \<Rightarrow> True
      | _ \<Rightarrow> False)"

section \<open>Encoding\<close>

definition timestampFields :: "string list" where
  "timestampFields = [''StartTime'', ''EndTime'', ''CreationTime'']"

text \<open>
  \<open>goToCBOR\<close> and \<open>structToCBOR\<close>; their error results are always nil and are left out. An \<open>int\<close> is
  64 bits wide, so \<open>-i - 1\<close> does not overflow.
\<close>

fun goToCBOR :: "goval \<Rightarrow> string \<Rightarrow> cbor" and
    structToCBOR :: "((string \<times> string) \<times> goval) list \<Rightarrow> (string \<times> cbor) list \<Rightarrow> (string \<times> cbor) list" where
  "goToCBOR (GString s) name = CString s"
| "goToCBOR (GBool b) name = CBool b"
| "goToCBOR (GInt i) name = (if 0 \<le> i then CUint (nat i) else CNegInt (nat (- i - 1)))"
| "goToCBOR (GUint n) name = CUint n"
| "goToCBOR (GFloat f) name =
     (if name \<in> set timestampFields then CTag 1 (CFloat64 f) else CFloat64 f)"
| "goToCBOR GNil name = CNil"
| "goToCBOR (GPtr v) name = goToCBOR v name"
| "goToCBOR (GSlice vs) name = CList (map (\<lambda>v. goToCBOR v []) vs)"
| "goToCBOR GNilSlice name = CNil"
| "goToCBOR (GMap m) name = CMap (map (\<lambda>kv. (fst kv, goToCBOR (snd kv) [])) m)"
| "goToCBOR GNilMap name = CMap []"
| "goToCBOR (GStruct fs) name = CMap (structToCBOR fs [])"
| "goToCBOR GOther name = CNil"
| "structToCBOR [] m = m"
| "structToCBOR ((f, v) # fs) m =
     (if tag_name f = ''-'' \<or> tag_omitempty f \<and> isZeroValue v then structToCBOR fs m
      else structToCBOR fs (AList.update (tag_name f) (goToCBOR v (tag_name f)) m))"

section \<open>Decoding\<close>

definition neg_float :: "rat \<Rightarrow> float64" where
  "neg_float x = (if x = 0 then NegZero else Num (- x))"

fun cborToGoValue :: "cbor \<Rightarrow> goval" where
  "cborToGoValue (CString s) = GString s"
| "cborToGoValue (CBool b) = GBool b"
| "cborToGoValue (CUint n) = GFloat (Num (f64_of_int (int n)))"
| "cborToGoValue (CNegInt n) = GFloat (Num (f64 (- f64_of_int (int n) - 1)))"
| "cborToGoValue (CFloat32 f) = GFloat f"
| "cborToGoValue (CFloat64 f) = GFloat f"
| "cborToGoValue (CMap m) = GMap (map (\<lambda>kv. (fst kv, cborToGoValue (snd kv))) m)"
| "cborToGoValue (CList xs) = GSlice (map cborToGoValue xs)"
| "cborToGoValue (CTag i c) = (if i = 1 then cborToGoValue c else GNil)"
| "cborToGoValue CNil = GNil"
| "cborToGoValue COther = GNil"

section \<open>The two formats carry the same data\<close>

text \<open>
  \<open>json_any v\<close> is what a JSON client that decodes into untyped values reads of \<open>encoding/json\<close>'s
  text for \<open>v\<close>: numbers are \<open>float64\<close>, pointers are followed, an absent value and a nil slice or
  map are null, \<open>omitempty\<close> members that are empty and members tagged \<open>-\<close> are absent, and invalid
  UTF-8 is replaced. \<open>json_encodable\<close> says that the text exists: \<open>encoding/json\<close> refuses infinities
  and NaN.
\<close>

definition kept :: "(string \<times> string) \<times> goval \<Rightarrow> bool" where
  "kept fv \<longleftrightarrow> tag_name (fst fv) \<noteq> ''-'' \<and> \<not> (tag_omitempty (fst fv) \<and> isZeroValue (snd fv))"

function (sequential) json_any :: "goval \<Rightarrow> goval" where
  "json_any (GString s) = GString (to_valid s)"
| "json_any (GInt i) = GFloat (Num (f64_of_int i))"
| "json_any (GUint n) = GFloat (Num (f64_of_int (int n)))"
| "json_any (GPtr v) = json_any v"
| "json_any (GSlice vs) = GSlice (map json_any vs)"
| "json_any GNilSlice = GNil"
| "json_any (GMap m) = GMap (map (\<lambda>kv. (to_valid (fst kv), json_any (snd kv))) m)"
| "json_any GNilMap = GNil"
| "json_any (GStruct fs) = GMap (map (\<lambda>fv. (tag_name (fst fv), json_any (snd fv))) (filter kept fs))"
| "json_any v = v"
  by pat_completeness auto
termination
  by (relation "measure size") (auto simp: less_Suc_eq_le intro: size_list_estimation' trans_le_add2
    dest: filter_is_subset [THEN subsetD])

end
