(* ===== verification/Api_Dto.thy ===== *)
theory Api_Dto
  imports Cbor Ticket_Aggregate
begin

text \<open>
  The wire types of the AWS API (\<open>dto.go\<close>) and their conversion from and to the domain
  (\<open>convert.go\<close>). A \<open>_value\<close> function gives what reflection sees of a response: the fields with
  their Go names and JSON tags, in the order of the struct.
\<close>

section \<open>Wire types\<close>

text \<open>A Go map that is only read or copied is a list of its entries; a nil map and an empty one are both \<open>[]\<close>.\<close>

record attribute_value =
  av_S :: "string option"
  av_N :: "float64 option"
  av_SL :: "string list option"
  av_SDM :: "(string \<times> float64) list option"

record player_dto =
  py_PlayerID :: string
  py_Team :: string
  py_PlayerAttributes :: "(string \<times> attribute_value) list"
  py_LatencyInMs :: "(string \<times> int) list"

record ticket_dto =
  mt_TicketID :: string
  mt_ConfigurationName :: string
  mt_ConfigurationARN :: string
  mt_Status :: string
  mt_StatusReason :: string
  mt_StatusMessage :: string
  mt_StartTime :: rat
  mt_EndTime :: rat
  mt_Players :: "player_dto list"
  mt_EstimatedWaitTime :: "int option"

record start_input =
  si_ConfigurationName :: string
  si_TicketID :: string
  si_Players :: "player_dto list"

record backfill_input =
  bf_ConfigurationName :: string
  bf_TicketID :: string
  bf_GameSessionArn :: string
  bf_Players :: "player_dto list"

record accept_input =
  ai_TicketID :: string
  ai_PlayerIDs :: "string list"
  ai_AcceptanceType :: string

record configuration_dto =
  mc_Name :: string
  mc_ConfigurationARN :: string
  mc_Description :: string
  mc_RuleSetName :: string
  mc_RuleSetARN :: string
  mc_RequestTimeoutSeconds :: int
  mc_AcceptanceRequired :: bool
  mc_AcceptanceTimeoutSeconds :: int
  mc_BackfillMode :: string
  mc_FlexMatchMode :: string
  mc_NotificationTarget :: string
  mc_CreationTime :: rat

record configurations_input =
  ci_Names :: "string list"
  ci_RuleSetName :: string
  ci_Limit :: int
  ci_NextToken :: string

record ruleset_dto =
  mr_RuleSetName :: string
  mr_RuleSetARN :: string
  mr_RuleSetBody :: string
  mr_CreationTime :: rat

record rulesets_input =
  ri_Names :: "string list"
  ri_Limit :: int
  ri_NextToken :: string

section \<open>Conversion\<close>

text \<open>The first member that is set decides; an attribute without any is dropped.\<close>

definition attribute_from :: "attribute_value \<Rightarrow> attribute option" where
  "attribute_from v =
     (case av_S v of
        Some s \<Rightarrow> Some (AttrString s)
      | None \<Rightarrow>
     (case av_N v of
        Some n \<Rightarrow> Some (AttrNumber n)
      | None \<Rightarrow>
     (case av_SL v of
        Some l \<Rightarrow> Some (AttrStringList l)
      | None \<Rightarrow> map_option AttrStringNumberMap (av_SDM v))))"

definition attributesFromDTO :: "(string \<times> attribute_value) list \<Rightarrow> (string \<times> attribute) list" where
  "attributesFromDTO m = List.map_filter (\<lambda>kv. map_option (Pair (fst kv)) (attribute_from (snd kv))) m"

definition playersFromDTO :: "player_dto list \<Rightarrow> player list" where
  "playersFromDTO ps =
     map (\<lambda>p. \<lparr>pl_ID = py_PlayerID p, pl_Team = py_Team p,
       pl_Attributes = attributesFromDTO (py_PlayerAttributes p), pl_Latencies = py_LatencyInMs p\<rparr>) ps"

definition no_attribute :: attribute_value where
  "no_attribute = \<lparr>av_S = None, av_N = None, av_SL = None, av_SDM = None\<rparr>"

definition attribute_to :: "attribute \<Rightarrow> attribute_value option" where
  "attribute_to a =
     (case a of
        AttrString s \<Rightarrow> Some (no_attribute\<lparr>av_S := Some s\<rparr>)
      | AttrNumber n \<Rightarrow> Some (no_attribute\<lparr>av_N := Some n\<rparr>)
      | AttrStringList l \<Rightarrow> Some (no_attribute\<lparr>av_SL := Some l\<rparr>)
      | AttrStringNumberMap m \<Rightarrow> Some (no_attribute\<lparr>av_SDM := Some m\<rparr>)
      | AttrUnknown \<Rightarrow> None)"

definition attributesToDTO :: "(string \<times> attribute) list \<Rightarrow> (string \<times> attribute_value) list" where
  "attributesToDTO m = List.map_filter (\<lambda>kv. map_option (Pair (fst kv)) (attribute_to (snd kv))) m"

definition playersToDTO :: "player list \<Rightarrow> player_dto list" where
  "playersToDTO ps =
     map (\<lambda>p. \<lparr>py_PlayerID = pl_ID p, py_Team = [],
       py_PlayerAttributes = attributesToDTO (pl_Attributes p), py_LatencyInMs = pl_Latencies p\<rparr>) ps"

definition ticketToDTO :: "ticket \<Rightarrow> ticket_dto" where
  "ticketToDTO t =
     \<lparr>mt_TicketID = tk_id t, mt_ConfigurationName = tk_configurationName t,
      mt_ConfigurationARN = tk_configurationARN t, mt_Status = status_string (tk_status t),
      mt_StatusReason = tk_statusReason t, mt_StatusMessage = tk_statusMessage t,
      mt_StartTime = (if is_zero_time (tk_startTime t) then 0 else unixSeconds (tk_startTime t)),
      mt_EndTime = (if is_zero_time (tk_endTime t) then 0 else unixSeconds (tk_endTime t)),
      mt_Players = map (\<lambda>p. p\<lparr>py_Team := PlayerTeam t (py_PlayerID p)\<rparr>) (playersToDTO (tk_players t)),
      mt_EstimatedWaitTime = None\<rparr>"

definition configurationToDTO :: "configuration \<Rightarrow> configuration_dto" where
  "configurationToDTO cfg =
     \<lparr>mc_Name = cfg_Name cfg, mc_ConfigurationARN = cfg_ARN cfg, mc_Description = [],
      mc_RuleSetName = cfg_RuleSetName cfg, mc_RuleSetARN = cfg_RuleSetARN cfg,
      mc_RequestTimeoutSeconds = int_seconds (cfg_RequestTimeout cfg),
      mc_AcceptanceRequired = cfg_AcceptanceRequired cfg,
      mc_AcceptanceTimeoutSeconds = int_seconds (cfg_AcceptanceTimeout cfg),
      mc_BackfillMode = cfg_BackfillMode cfg,
      mc_FlexMatchMode = (if cfg_FlexMatchMode cfg = [] then ''STANDALONE'' else cfg_FlexMatchMode cfg),
      mc_NotificationTarget = (case cfg_NotificationTargetIDs cfg of [] \<Rightarrow> [] | i # _ \<Rightarrow> i),
      mc_CreationTime = 0\<rparr>"

definition ruleSetToDTO :: "ruleset \<Rightarrow> ruleset_dto" where
  "ruleSetToDTO rs =
     \<lparr>mr_RuleSetName = rs_Name rs, mr_RuleSetARN = rs_ARN rs, mr_RuleSetBody = rs_Body rs, mr_CreationTime = 0\<rparr>"

section \<open>Responses as reflection sees them\<close>

definition gpointer :: "('a \<Rightarrow> goval) \<Rightarrow> 'a option \<Rightarrow> goval" where
  "gpointer f x = (case x of None \<Rightarrow> GNil | Some y \<Rightarrow> GPtr (f y))"

definition gstrings :: "string list \<Rightarrow> goval" where
  "gstrings xs = GSlice (map GString xs)"

definition gmap :: "('a \<Rightarrow> goval) \<Rightarrow> (string \<times> 'a) list \<Rightarrow> goval" where
  "gmap f m = GMap (map (\<lambda>kv. (fst kv, f (snd kv))) m)"

definition attribute_goval :: "attribute_value \<Rightarrow> goval" where
  "attribute_goval v = GStruct
     [((''S'', ''S,omitempty''), gpointer GString (av_S v)),
      ((''N'', ''N,omitempty''), gpointer GFloat (av_N v)),
      ((''SL'', ''SL,omitempty''), gpointer gstrings (av_SL v)),
      ((''SDM'', ''SDM,omitempty''), gpointer (gmap GFloat) (av_SDM v))]"

definition player_goval :: "player_dto \<Rightarrow> goval" where
  "player_goval p = GStruct
     [((''PlayerID'', ''PlayerId,omitempty''), GString (py_PlayerID p)),
      ((''Team'', ''Team,omitempty''), GString (py_Team p)),
      ((''PlayerAttributes'', ''PlayerAttributes,omitempty''), gmap attribute_goval (py_PlayerAttributes p)),
      ((''LatencyInMs'', ''LatencyInMs,omitempty''), gmap GInt (py_LatencyInMs p))]"

definition ticket_goval :: "ticket_dto \<Rightarrow> goval" where
  "ticket_goval t = GStruct
     [((''TicketID'', ''TicketId''), GString (mt_TicketID t)),
      ((''ConfigurationName'', ''ConfigurationName''), GString (mt_ConfigurationName t)),
      ((''ConfigurationARN'', ''ConfigurationArn''), GString (mt_ConfigurationARN t)),
      ((''Status'', ''Status''), GString (mt_Status t)),
      ((''StatusReason'', ''StatusReason,omitempty''), GString (mt_StatusReason t)),
      ((''StatusMessage'', ''StatusMessage,omitempty''), GString (mt_StatusMessage t)),
      ((''StartTime'', ''StartTime,omitempty''), GFloat (Num (mt_StartTime t))),
      ((''EndTime'', ''EndTime,omitempty''), GFloat (Num (mt_EndTime t))),
      ((''Players'', ''Players''), GSlice (map player_goval (mt_Players t))),
      ((''EstimatedWaitTime'', ''EstimatedWaitTime,omitempty''), gpointer GInt (mt_EstimatedWaitTime t))]"

definition configuration_goval :: "configuration_dto \<Rightarrow> goval" where
  "configuration_goval c = GStruct
     [((''Name'', ''Name''), GString (mc_Name c)),
      ((''ConfigurationARN'', ''ConfigurationArn''), GString (mc_ConfigurationARN c)),
      ((''Description'', ''Description,omitempty''), GString (mc_Description c)),
      ((''RuleSetName'', ''RuleSetName''), GString (mc_RuleSetName c)),
      ((''RuleSetARN'', ''RuleSetArn''), GString (mc_RuleSetARN c)),
      ((''RequestTimeoutSeconds'', ''RequestTimeoutSeconds''), GInt (mc_RequestTimeoutSeconds c)),
      ((''AcceptanceRequired'', ''AcceptanceRequired''), GBool (mc_AcceptanceRequired c)),
      ((''AcceptanceTimeoutSeconds'', ''AcceptanceTimeoutSeconds,omitempty''), GInt (mc_AcceptanceTimeoutSeconds c)),
      ((''BackfillMode'', ''BackfillMode,omitempty''), GString (mc_BackfillMode c)),
      ((''FlexMatchMode'', ''FlexMatchMode''), GString (mc_FlexMatchMode c)),
      ((''NotificationTarget'', ''NotificationTarget,omitempty''), GString (mc_NotificationTarget c)),
      ((''CreationTime'', ''CreationTime,omitempty''), GFloat (Num (mc_CreationTime c)))]"

definition ruleset_goval :: "ruleset_dto \<Rightarrow> goval" where
  "ruleset_goval r = GStruct
     [((''RuleSetName'', ''RuleSetName''), GString (mr_RuleSetName r)),
      ((''RuleSetARN'', ''RuleSetArn''), GString (mr_RuleSetARN r)),
      ((''RuleSetBody'', ''RuleSetBody''), GString (mr_RuleSetBody r)),
      ((''CreationTime'', ''CreationTime,omitempty''), GFloat (Num (mr_CreationTime r)))]"

end
