(* ===== verification/Api_Server.thy ===== *)
theory Api_Server
  imports Api_Dto Service_Commands Configfile
begin

text \<open>
  The AWS API (\<open>internal/interfaces/awsapi\<close>): the handlers of the eight actions, the translation of
  domain errors, and the dispatch of a JSON or CBOR request to its handler; with the read-only
  queries of \<open>registry.go\<close>. Decoding JSON and CBOR bytes and compiling a rule set are parameters.
\<close>

section \<open>Queries\<close>

definition DescribeConfigurations :: "config_name list \<Rightarrow> ruleset_name \<Rightarrow> 'e service \<Rightarrow> configuration list" where
  "DescribeConfigurations names rs s =
     filter (\<lambda>c. (names = [] \<or> cfg_Name c \<in> set names) \<and> (rs = [] \<or> cfg_RuleSetName c = rs)) (ListConfigurations s)"

definition DescribeRuleSets :: "ruleset_name list \<Rightarrow> 'e service \<Rightarrow> ruleset list" where
  "DescribeRuleSets names s = filter (\<lambda>r. names = [] \<or> rs_Name r \<in> set names) (ListRuleSets s)"

definition ValidateRuleSet :: "(string \<Rightarrow> flexi_err option) \<Rightarrow> string \<Rightarrow> err option" where
  "ValidateRuleSet new body =
     (case new body of
        None \<Rightarrow> None
      | Some e \<Rightarrow> Some (if e = FxInvalidRuleSet then ErrInvalidRuleSet else ErrEngine e))"

section \<open>Errors\<close>

text \<open>The format string of an error message, with its arguments.\<close>

datatype api_message =
    MissingTarget | ReadBody string | MissingAction | ParseJSON string | ParseCBOR string | ConvertCBOR string
  | UnknownAction string | HandlerFailed string err
  | TicketIdPattern nat | TicketIdRequired | TicketIdsRequired | PlayersRequired | TooManyPlayers nat nat
  | TeamNotAllowed string | TeamRequired string | AcceptanceTypeInvalid | PlayerIdsRequired
  | DomainError err

record api_error =
  ae_TypeName :: string
  ae_Message :: api_message
  ae_HTTPStatus :: int

definition newInvalidRequest :: "api_message \<Rightarrow> api_error" where
  "newInvalidRequest m = \<lparr>ae_TypeName = ''InvalidRequestException'', ae_Message = m, ae_HTTPStatus = 400\<rparr>"

definition newNotFound :: "api_message \<Rightarrow> api_error" where
  "newNotFound m = \<lparr>ae_TypeName = ''NotFoundException'', ae_Message = m, ae_HTTPStatus = 400\<rparr>"

definition newUnknownOperation :: "api_message \<Rightarrow> api_error" where
  "newUnknownOperation m = \<lparr>ae_TypeName = ''UnknownOperationException'', ae_Message = m, ae_HTTPStatus = 400\<rparr>"

definition newInternal :: "api_message \<Rightarrow> api_error" where
  "newInternal m = \<lparr>ae_TypeName = ''InternalServiceException'', ae_Message = m, ae_HTTPStatus = 500\<rparr>"

text \<open>\<open>errors.Is(e, target)\<close> for a sentinel \<open>target\<close>.\<close>

fun errors_Is :: "err \<Rightarrow> err \<Rightarrow> bool" where
  "errors_Is (ErrJoin a b) t = (errors_Is a t \<or> errors_Is b t)"
| "errors_Is e t = (e = t)"

definition translateDomainError :: "err option \<Rightarrow> api_error option" where
  "translateDomainError x =
     (case x of
        None \<Rightarrow> None
      | Some e \<Rightarrow> Some
          (if list_ex (errors_Is e) [ErrTicketNotFound, ErrConfigurationNotFound, ErrRuleSetNotFound]
           then newNotFound (DomainError e)
           else if list_ex (errors_Is e) [ErrTicketAlreadyExists, ErrPlayerNotInTicket, ErrProposalNotFound,
             ErrInvalidTransition, ErrInvalidRuleSet, ErrInvalidRequest, ErrBackfillInProgress]
           then newInvalidRequest (DomainError e)
           else newInternal (DomainError e)))"

section \<open>Decoding\<close>

text \<open>
  The two passes of \<open>decodeJSON\<close>: the strict decoder fails with the text it reports, or because of a
  member it does not know; then the lenient one decides.
\<close>

datatype 'a strict = Decoded_strictly 'a | Unknown_field | Malformed string

record 'a decoder =
  dc_strict :: "string \<Rightarrow> 'a strict"
  dc_lenient :: "string \<Rightarrow> string + 'a"

definition decodeJSON :: "'a decoder \<Rightarrow> 'a \<Rightarrow> string \<Rightarrow> api_error + 'a" where
  "decodeJSON dc zero body =
     (if body = [] then Inr zero
      else case dc_strict dc body of
             Decoded_strictly x \<Rightarrow> Inr x
           | Unknown_field \<Rightarrow>
               (case dc_lenient dc body of
                  Inl e \<Rightarrow> Inl (newInvalidRequest (ParseJSON e))
                | Inr x \<Rightarrow> Inr x)
           | Malformed e \<Rightarrow> Inl (newInvalidRequest (ParseJSON e)))"

text \<open>
  What the server does not contain: the decoders of the eight inputs, the text \<open>encoding/json\<close> writes
  for a value or its error, the CBOR decoder, and the engine's check of a rule set.
\<close>

record api =
  ap_Start :: "start_input decoder"
  ap_Stop :: "string decoder"
  ap_Describe :: "string list decoder"
  ap_Accept :: "accept_input decoder"
  ap_Backfill :: "backfill_input decoder"
  ap_Configurations :: "configurations_input decoder"
  ap_RuleSets :: "rulesets_input decoder"
  ap_Validate :: "string decoder"
  ap_MarshalJSON :: "goval \<Rightarrow> string + string"
  ap_DecodeCBOR :: "string \<Rightarrow> string + cbor"
  ap_NewRuleSet :: "string \<Rightarrow> flexi_err option"

section \<open>Handlers\<close>

datatype response =
    TicketStarted ticket_dto
  | NothingToSay
  | TicketList "ticket_dto list"
  | Configurations "configuration_dto list"
  | RuleSets "ruleset_dto list"
  | RuleSetValid

datatype handler_err = ApiFailure api_error | DomainFailure err

text \<open>What a request brings besides its body: the context and the time of the call.\<close>

record request_env =
  rq_call :: call_env
  rq_now :: gotime

type_synonym 'e handler =
  "'e deps \<Rightarrow> api \<Rightarrow> request_env \<Rightarrow> string \<Rightarrow> 'e service \<Rightarrow>
     (handler_err + response) \<times> recorded_event list \<times> 'e service"

definition maxStartMatchmakingPlayers :: nat where "maxStartMatchmakingPlayers = 10"
definition maxBackfillPlayers :: nat where "maxBackfillPlayers = 199"
definition maxTicketIDLength :: nat where "maxTicketIDLength = 128"

text \<open>\<open>^[a-zA-Z0-9-.]*$\<close>, the characters of \<open>configNamePattern\<close>.\<close>

definition ticketIDPattern :: "string \<Rightarrow> bool" where
  "ticketIDPattern s \<longleftrightarrow> list_all name_char s"

definition check_ticket_id :: "string \<Rightarrow> api_message option" where
  "check_ticket_id i =
     (if maxTicketIDLength < length i \<or> \<not> ticketIDPattern i then Some (TicketIdPattern maxTicketIDLength) else None)"

definition check_players :: "nat \<Rightarrow> player_dto list \<Rightarrow> api_message option" where
  "check_players limit ps =
     (if ps = [] then Some PlayersRequired
      else if limit < length ps then Some (TooManyPlayers limit (length ps))
      else None)"

definition check_start :: "start_input \<Rightarrow> api_message option" where
  "check_start inp =
     (case check_ticket_id (si_TicketID inp) of
        Some m \<Rightarrow> Some m
      | None \<Rightarrow>
     (case check_players maxStartMatchmakingPlayers (si_Players inp) of
        Some m \<Rightarrow> Some m
      | None \<Rightarrow> map_option (\<lambda>p. TeamNotAllowed (py_PlayerID p)) (find (\<lambda>p. py_Team p \<noteq> []) (si_Players inp))))"

definition check_backfill :: "backfill_input \<Rightarrow> api_message option" where
  "check_backfill inp =
     (case check_ticket_id (bf_TicketID inp) of
        Some m \<Rightarrow> Some m
      | None \<Rightarrow>
     (case check_players maxBackfillPlayers (bf_Players inp) of
        Some m \<Rightarrow> Some m
      | None \<Rightarrow> map_option (\<lambda>p. TeamRequired (py_PlayerID p)) (find (\<lambda>p. py_Team p = []) (bf_Players inp))))"

definition check_accept :: "accept_input \<Rightarrow> api_message option" where
  "check_accept inp =
     (if ai_TicketID inp = [] then Some TicketIdRequired
      else if ai_AcceptanceType inp \<noteq> ''ACCEPT'' \<and> ai_AcceptanceType inp \<noteq> ''REJECT'' then Some AcceptanceTypeInvalid
      else if ai_PlayerIDs inp = [] then Some PlayerIdsRequired
      else None)"

text \<open>A handler decodes its input, checks it, and calls the service; each failure ends it.\<close>

definition with_input ::
  "'a decoder \<Rightarrow> 'a \<Rightarrow> ('a \<Rightarrow> api_message option) \<Rightarrow>
     ('a \<Rightarrow> 'e service \<Rightarrow> (err + response) \<times> recorded_event list \<times> 'e service) \<Rightarrow>
     string \<Rightarrow> 'e service \<Rightarrow> (handler_err + response) \<times> recorded_event list \<times> 'e service" where
  "with_input dc zero check run body s =
     (case decodeJSON dc zero body of
        Inl e \<Rightarrow> (Inl (ApiFailure e), [], s)
      | Inr inp \<Rightarrow>
          (case check inp of
             Some m \<Rightarrow> (Inl (ApiFailure (newInvalidRequest m)), [], s)
           | None \<Rightarrow>
               (case run inp s of
                  (Inl e, evs, s) \<Rightarrow> (Inl (DomainFailure e), evs, s)
                | (Inr r, evs, s) \<Rightarrow> (Inr r, evs, s))))"

text \<open>The ticket of a successful command, as the response shows it.\<close>

definition show_ticket ::
  "(err + ref) \<times> recorded_event list \<times> 'e service \<Rightarrow> (err + response) \<times> recorded_event list \<times> 'e service" where
  "show_ticket res =
     (case res of
        (Inl e, evs, s) \<Rightarrow> (Inl e, evs, s)
      | (Inr r, evs, s) \<Rightarrow> (Inr (TicketStarted (ticketToDTO (sv_heap s r))), evs, s))"

definition show_nothing ::
  "(err + unit) \<times> recorded_event list \<times> 'e service \<Rightarrow> (err + response) \<times> recorded_event list \<times> 'e service" where
  "show_nothing res = (case res of (Inl e, evs, s) \<Rightarrow> (Inl e, evs, s) | (Inr u, evs, s) \<Rightarrow> (Inr NothingToSay, evs, s))"

definition start_command :: "start_input \<Rightarrow> start_cmd" where
  "start_command inp = \<lparr>sc_ConfigurationName = si_ConfigurationName inp, sc_TicketID = si_TicketID inp,
     sc_Players = playersFromDTO (si_Players inp)\<rparr>"

definition backfill_command :: "backfill_input \<Rightarrow> backfill_cmd" where
  "backfill_command inp = \<lparr>bc_ConfigurationName = bf_ConfigurationName inp, bc_TicketID = bf_TicketID inp,
     bc_GameSessionARN = bf_GameSessionArn inp, bc_Players = playersFromDTO (bf_Players inp)\<rparr>"

definition accept_command :: "accept_input \<Rightarrow> accept_cmd" where
  "accept_command inp = \<lparr>ac_TicketID = ai_TicketID inp, ac_PlayerIDs = ai_PlayerIDs inp,
     ac_Accepted = (ai_AcceptanceType inp = ''ACCEPT'')\<rparr>"

definition handleStartMatchmaking :: "'e handler" where
  "handleStartMatchmaking d ap env =
     with_input (ap_Start ap) \<lparr>si_ConfigurationName = [], si_TicketID = [], si_Players = []\<rparr> check_start
       (\<lambda>inp s. show_ticket (StartMatchmaking d (rq_call env) (rq_now env) (start_command inp) s))"

definition handleStartMatchBackfill :: "'e handler" where
  "handleStartMatchBackfill d ap env =
     with_input (ap_Backfill ap)
       \<lparr>bf_ConfigurationName = [], bf_TicketID = [], bf_GameSessionArn = [], bf_Players = []\<rparr> check_backfill
       (\<lambda>inp s. show_ticket (StartMatchBackfill d (rq_call env) (rq_now env) (backfill_command inp) s))"

definition handleStopMatchmaking :: "'e handler" where
  "handleStopMatchmaking d ap env =
     with_input (ap_Stop ap) [] (\<lambda>i. if i = [] then Some TicketIdRequired else None)
       (\<lambda>i s. show_nothing (StopMatchmaking d (rq_call env) i s))"

definition handleAcceptMatch :: "'e handler" where
  "handleAcceptMatch d ap env =
     with_input (ap_Accept ap) \<lparr>ai_TicketID = [], ai_PlayerIDs = [], ai_AcceptanceType = []\<rparr> check_accept
       (\<lambda>inp s. show_nothing (AcceptMatch d (rq_call env) (rq_now env) (accept_command inp) s))"

definition handleDescribeMatchmaking :: "'e handler" where
  "handleDescribeMatchmaking d ap env =
     with_input (ap_Describe ap) [] (\<lambda>ids. if ids = [] then Some TicketIdsRequired else None)
       (\<lambda>ids s. (Inr (TicketList (map (\<lambda>r. ticketToDTO (sv_heap s r)) (DescribeMatchmaking ids s))), [], s))"

definition handleDescribeConfigurations :: "'e handler" where
  "handleDescribeConfigurations d ap env =
     with_input (ap_Configurations ap) \<lparr>ci_Names = [], ci_RuleSetName = [], ci_Limit = 0, ci_NextToken = []\<rparr> (\<lambda>_. None)
       (\<lambda>inp s. (Inr (Configurations (map configurationToDTO
          (DescribeConfigurations (ci_Names inp) (ci_RuleSetName inp) s))), [], s))"

definition handleDescribeRuleSets :: "'e handler" where
  "handleDescribeRuleSets d ap env =
     with_input (ap_RuleSets ap) \<lparr>ri_Names = [], ri_Limit = 0, ri_NextToken = []\<rparr> (\<lambda>_. None)
       (\<lambda>inp s. (Inr (RuleSets (map ruleSetToDTO (DescribeRuleSets (ri_Names inp) s))), [], s))"

definition handleValidateRuleSet :: "'e handler" where
  "handleValidateRuleSet d ap env =
     with_input (ap_Validate ap) [] (\<lambda>_. None)
       (\<lambda>body s. (case ValidateRuleSet (ap_NewRuleSet ap) body of
          Some e \<Rightarrow> (Inl e, [], s) | None \<Rightarrow> (Inr RuleSetValid, [], s)))"

definition handlers :: "(string \<times> 'e handler) list" where
  "handlers =
     [(''StartMatchmaking'', handleStartMatchmaking),
      (''StopMatchmaking'', handleStopMatchmaking),
      (''DescribeMatchmaking'', handleDescribeMatchmaking),
      (''AcceptMatch'', handleAcceptMatch),
      (''StartMatchBackfill'', handleStartMatchBackfill),
      (''DescribeMatchmakingConfigurations'', handleDescribeConfigurations),
      (''DescribeMatchmakingRuleSets'', handleDescribeRuleSets),
      (''ValidateMatchmakingRuleSet'', handleValidateRuleSet)]"

section \<open>Responses\<close>

definition wrapped :: "string \<Rightarrow> goval \<Rightarrow> goval" where
  "wrapped name v = GStruct [((name, name), v)]"

text \<open>The output structs; a \<open>NextToken\<close> is never set and omitted when empty.\<close>

definition paged :: "string \<Rightarrow> goval list \<Rightarrow> goval" where
  "paged name vs = GStruct [((name, name), GSlice vs), ((''NextToken'', ''NextToken,omitempty''), GString [])]"

definition response_goval :: "response \<Rightarrow> goval" where
  "response_goval r =
     (case r of
        TicketStarted t \<Rightarrow> wrapped ''MatchmakingTicket'' (ticket_goval t)
      | NothingToSay \<Rightarrow> GMap []
      | TicketList ts \<Rightarrow> wrapped ''TicketList'' (GSlice (map ticket_goval ts))
      | Configurations cs \<Rightarrow> paged ''Configurations'' (map configuration_goval cs)
      | RuleSets rs \<Rightarrow> paged ''RuleSets'' (map ruleset_goval rs)
      | RuleSetValid \<Rightarrow> wrapped ''Valid'' (GBool True))"

text \<open>
  A body is what the writers hand to the encoder of their format: a value for \<open>encoding/json\<close> or for
  smithy's CBOR encoder, or an error's type and message.
\<close>

datatype body = JsonBody goval | CborBody cbor | JsonError string api_message | CborError string api_message

record http_response =
  hr_Status :: int
  hr_ContentType :: string
  hr_Protocol :: string
  hr_Body :: body

definition error_status :: "api_error \<Rightarrow> int" where
  "error_status e = (if ae_HTTPStatus e = 0 then 400 else ae_HTTPStatus e)"

record wire_format =
  wf_writeErr :: "api_error \<Rightarrow> http_response"
  wf_writeOK :: "response \<Rightarrow> http_response"

definition jsonFormat :: wire_format where
  "jsonFormat =
     \<lparr>wf_writeErr = (\<lambda>e. \<lparr>hr_Status = error_status e, hr_ContentType = ''application/x-amz-json-1.1'',
        hr_Protocol = ''aws-json-1.1'', hr_Body = JsonError (ae_TypeName e) (ae_Message e)\<rparr>),
      wf_writeOK = (\<lambda>r. \<lparr>hr_Status = 200, hr_ContentType = ''application/x-amz-json-1.1'',
        hr_Protocol = ''aws-json-1.1'', hr_Body = JsonBody (response_goval r)\<rparr>)\<rparr>"

definition encodeCBOR :: "goval \<Rightarrow> cbor" where
  "encodeCBOR v = goToCBOR v []"

definition cborFormat :: wire_format where
  "cborFormat =
     \<lparr>wf_writeErr = (\<lambda>e. \<lparr>hr_Status = error_status e, hr_ContentType = ''application/cbor'',
        hr_Protocol = ''rpc-v2-cbor'', hr_Body = CborError (ae_TypeName e) (ae_Message e)\<rparr>),
      wf_writeOK = (\<lambda>r. \<lparr>hr_Status = 200, hr_ContentType = ''application/cbor'',
        hr_Protocol = ''rpc-v2-cbor'', hr_Body = CborBody (encodeCBOR (response_goval r))\<rparr>)\<rparr>"

section \<open>Dispatch\<close>

definition serve ::
  "'e deps \<Rightarrow> api \<Rightarrow> wire_format \<Rightarrow> request_env \<Rightarrow> string \<Rightarrow> string \<Rightarrow> 'e service \<Rightarrow>
     http_response \<times> recorded_event list \<times> 'e service" where
  "serve d ap f env action body s =
     (case map_of handlers action of
        None \<Rightarrow> (wf_writeErr f (newUnknownOperation (UnknownAction action)), [], s)
      | Some h \<Rightarrow>
          (case h d ap env body s of
             (Inl (ApiFailure e), evs, s) \<Rightarrow> (wf_writeErr f e, evs, s)
           | (Inl (DomainFailure e), evs, s) \<Rightarrow>
               (case translateDomainError (Some e) of
                  Some mapped \<Rightarrow> (wf_writeErr f mapped, evs, s)
                | None \<Rightarrow> (wf_writeErr f (newInternal (HandlerFailed action e)), evs, s))
           | (Inr r, evs, s) \<Rightarrow> (wf_writeOK f r, evs, s)))"

text \<open>A request: the target header or the action in the path, and the body or the error of reading it.\<close>

definition dispatch ::
  "'e deps \<Rightarrow> api \<Rightarrow> request_env \<Rightarrow> string \<Rightarrow> string + string \<Rightarrow> 'e service \<Rightarrow>
     http_response \<times> recorded_event list \<times> 'e service" where
  "dispatch d ap env target rd s =
     (if take 9 target \<noteq> ''GameLift.'' \<or> drop 9 target = []
      then (wf_writeErr jsonFormat (newInvalidRequest MissingTarget), [], s)
      else case rd of
             Inl e \<Rightarrow> (wf_writeErr jsonFormat (newInvalidRequest (ReadBody e)), [], s)
           | Inr body \<Rightarrow> serve d ap jsonFormat env (drop 9 target) body s)"

definition cborBodyToJSON :: "api \<Rightarrow> string \<Rightarrow> api_message + string" where
  "cborBodyToJSON ap body =
     (if body = [] then Inr []
      else case ap_DecodeCBOR ap body of
             Inl e \<Rightarrow> Inl (ParseCBOR e)
           | Inr cv \<Rightarrow>
               if cv = CNil then Inr []
               else case ap_MarshalJSON ap (cborToGoValue cv) of
                      Inl e \<Rightarrow> Inl (ConvertCBOR e)
                    | Inr text \<Rightarrow> Inr text)"

definition dispatchCBOR ::
  "'e deps \<Rightarrow> api \<Rightarrow> request_env \<Rightarrow> string \<Rightarrow> string + string \<Rightarrow> 'e service \<Rightarrow>
     http_response \<times> recorded_event list \<times> 'e service" where
  "dispatchCBOR d ap env action rd s =
     (if action = [] then (wf_writeErr cborFormat (newInvalidRequest MissingAction), [], s)
      else case rd of
             Inl e \<Rightarrow> (wf_writeErr cborFormat (newInvalidRequest (ReadBody e)), [], s)
           | Inr body \<Rightarrow>
               (case cborBodyToJSON ap body of
                  Inl m \<Rightarrow> (wf_writeErr cborFormat (newInvalidRequest m), [], s)
                | Inr text \<Rightarrow> serve d ap cborFormat env action text s))"

end
