(* ===== verification/Change_Laws.thy ===== *)
theory Change_Laws
  imports Service_System
begin

text \<open>
  What a step does to the set of tickets: a ticket that disappears was terminal, a ticket that
  appears is what its command created. The API's and the abstract view of the service rest on it.
\<close>

section \<open>Changes of the ticket map\<close>

text \<open>
  \<open>changes Q s s'\<close>: tickets of \<open>s\<close> that are not in \<open>s'\<close> are terminal, tickets of \<open>s'\<close> that are not
  in \<open>s\<close> satisfy \<open>Q\<close>, and an identifier in both keeps its ticket.
\<close>

definition changes :: "(ticket \<Rightarrow> bool) \<Rightarrow> 'e service \<Rightarrow> 'e service \<Rightarrow> bool" where
  "changes Q s s' \<longleftrightarrow>
     (\<forall>i q. sv_tickets s i = Some q \<longrightarrow> q < sv_next s \<longrightarrow>
        sv_tickets s' i = Some q \<or> sv_tickets s' i = None \<and> IsTerminal (tk_status (sv_heap s' q))) \<and>
     (\<forall>i r. sv_tickets s i = None \<longrightarrow> sv_tickets s' i = Some r \<longrightarrow> Q (sv_heap s' r))"

lemma changesD:
  assumes "changes Q s s'"
  shows "sv_tickets s i = Some q \<Longrightarrow> q < sv_next s \<Longrightarrow>
      sv_tickets s' i = Some q \<or> sv_tickets s' i = None \<and> IsTerminal (tk_status (sv_heap s' q))"
    and "sv_tickets s i = None \<Longrightarrow> sv_tickets s' i = Some r \<Longrightarrow> Q (sv_heap s' r)"
  using assms unfolding changes_def by blast+

lemma changes_same: "sv_tickets s' = sv_tickets s \<Longrightarrow> changes Q s s'"
  by (simp add: changes_def)

lemma changes_weaken: "changes Q s s' \<Longrightarrow> (\<And>t. Q t \<Longrightarrow> R t) \<Longrightarrow> changes R s s'"
  unfolding changes_def by blast

lemma frame_le_changes: "frame_le f f' \<Longrightarrow> changes Q (fr_svc f) (fr_svc f')"
  by (simp add: frame_le_def changes_same)

lemma changes_after:
  assumes "frame_le f g" and "changes Q (fr_svc g) s"
  shows "changes Q (fr_svc f) s"
  using assms by (auto simp: changes_def frame_le_def svc_le_def hext_def)

section \<open>Start and backfill\<close>

lemma publish_changes:
  assumes "sv_tickets (fr_svc f) (tk_id t) = None" and "Q (t\<lparr>tk_events := []\<rparr>)"
  shows "changes Q (fr_svc f) (fr_svc (snd (publish_ticket t f)))"
  using assms
  by (auto simp: changes_def publish_ticket_eq addTicket_frame stored_new_def commit_simps alloc_def)

lemma choose_id_names:
  assumes "choose_id i f = (Inr j, f')"
  shows "i \<noteq> [] \<and> j = i \<or> (\<exists>k. j = ig_seq (sv_IDs (fr_svc f)) k)"
  using assms by (auto simp: choose_id_def NewID_def NewTicketID_def split: if_splits prod.splits)

lemma start_enqueue_changes:
  assumes "idle f" and "Q (t\<lparr>tk_events := []\<rparr>)"
  shows "changes Q (fr_svc f) (fr_svc (snd (start_enqueue d cmd t f)))"
proof -
  obtain x f1 where f1: "on_svc (reserveTicketID (tk_id t)) f = (x, f1)" by fastforce
  note r = reserve_keeps [OF assms(1) f1]
  obtain y f2 where f2: "on_eng (fx_Enqueue d \<lparr>ft_ID = tk_id t, ft_Players = sc_Players cmd\<rparr>) f1 = (y, f2)"
    by fastforce
  note e = on_eng_keeps [OF f2]
  have 2: "frame_le f f2" "idle f2" using r(1) e frame_le_trans by blast+
  show ?thesis
  proof (cases x)
    case None
    then have "changes Q (fr_svc f2) (fr_svc (snd (publish_ticket t f2)))"
      using r(2) e(2) assms(2) by (intro publish_changes) simp_all
    then show ?thesis
      using None changes_after [OF 2(1)] frame_le_changes [OF conjunct2 [OF release_keeps [OF 2(2)]], of Q "tk_id t"]
      by (cases y) (simp_all add: start_enqueue_def f1 f2)
  qed (use r(4) f1 in \<open>simp add: start_enqueue_def changes_same\<close>)
qed

lemma start_body_changes:
  assumes "idle f"
    and "\<And>i t. sc_TicketID cmd \<noteq> [] \<and> i = sc_TicketID cmd \<or> (\<exists>k. i = ig_seq (sv_IDs (fr_svc f)) k) \<Longrightarrow>
      NewTicket i cfg (sc_Players cmd) now = Inr t \<Longrightarrow> Q (t\<lparr>tk_events := []\<rparr>)"
  shows "changes Q (fr_svc f) (fr_svc (snd (start_body d now cmd cfg f)))"
proof -
  obtain x f1 where f1: "choose_id (sc_TicketID cmd) f = (x, f1)" by fastforce
  note c = choose_id_keeps [OF assms(1) f1]
  have new: "Q (t\<lparr>tk_events := []\<rparr>)" if "x = Inr i" "NewTicket i cfg (sc_Players cmd) now = Inr t" for i t
    using that choose_id_names [of "sc_TicketID cmd" f i f1] f1 assms(2) by auto
  show ?thesis
    using c new changes_after [of f f1 Q] start_enqueue_changes [of f1 Q]
    by (auto simp: start_body_def f1 changes_same split: option.split sum.split)
qed

lemma backfill_enqueue_changes:
  assumes "idle f" and "Q (t\<lparr>tk_events := []\<rparr>)" and "superseded = None \<or> (\<exists>r. superseded = Some r \<and> live r f)"
  shows "changes Q (fr_svc f) (fr_svc (snd (backfill_enqueue d now cmd superseded t f)))"
proof -
  obtain x f1 where f1: "on_svc (reserveTicketID (tk_id t)) f = (x, f1)" by fastforce
  note r = reserve_keeps [OF assms(1) f1]
  obtain y f2 where f2: "on_eng (fx_EnqueueBackfill d \<lparr>ft_ID = tk_id t, ft_Players = bc_Players cmd\<rparr>) f1 = (y, f2)"
    by fastforce
  note e = on_eng_keeps [OF f2]
  have 2: "frame_le f f2" "idle f2" using r(1) e frame_le_trans by blast+
  show ?thesis
  proof (cases x)
    case None
    then have free: "sv_tickets (fr_svc f2) (tk_id t) = None" using r(2) e(2) by simp
    have publish: "changes Q (fr_svc f) (fr_svc (snd (publish_ticket t g)))" if "frame_le f2 g" for g
      using that free assms(2)
      by (intro changes_after [OF frame_le_trans [OF 2(1) that]] publish_changes) (simp_all add: frame_le_def)
    have sup: "frame_le f2 g \<and> idle g"
      if "superseded = Some q" "supersedeBackfill d q now f2 = (z, g)" for q z g
    proof -
      have "live q f2" using assms(3) that(1) None r e by (auto simp: live_def holds_def idle_def active_ref_def)
      from runsD [OF supersedeBackfill_step this, of d now] that(2) show ?thesis
        by (cases z) (auto intro: holds_idle)
    qed
    have undo: "changes Q (fr_svc f) (fr_svc (snd (undo_backfill d i err g)))" if "frame_le f2 g" "idle g" for i err g
      using changes_after [OF frame_le_trans [OF 2(1) that(1)]] undo_backfill_keeps [OF that(2)]
        frame_le_changes by blast
    show ?thesis
      using None publish [OF frame_le_refl] publish sup undo changes_after [OF 2(1)]
        frame_le_changes [OF conjunct2 [OF release_keeps [OF 2(2)]], of Q "tk_id t"]
      by (auto simp: backfill_enqueue_def f1 f2 split: option.split prod.split)
  qed (use r(4) f1 in \<open>simp add: backfill_enqueue_def changes_same\<close>)
qed

lemma backfill_body_changes:
  assumes "idle f"
    and "\<And>i t. bc_TicketID cmd \<noteq> [] \<and> i = bc_TicketID cmd \<or> (\<exists>k. i = ig_seq (sv_IDs (fr_svc f)) k) \<Longrightarrow>
      NewBackfillTicket i cfg (bc_Players cmd) (bc_GameSessionARN cmd) now = Inr t \<Longrightarrow> Q (t\<lparr>tk_events := []\<rparr>)"
  shows "changes Q (fr_svc f) (fr_svc (snd (backfill_body d now cmd cfg f)))"
proof -
  obtain x f1 where f1: "choose_id (bc_TicketID cmd) f = (x, f1)" by fastforce
  note c = choose_id_keeps [OF assms(1) f1]
  let ?sup = "session_to_supersede (cfg_Name cfg) cmd (fr_svc f)"
  have "live r f1" if "?sup = Some r" for r
    using session_live [OF assms(1) that] c by (simp add: live_def holds_def idle_def active_ref_def)
  then have sup: "?sup = None \<or> (\<exists>r. ?sup = Some r \<and> live r f1)" by (cases ?sup) auto
  have new: "Q (t\<lparr>tk_events := []\<rparr>)"
    if "x = Inr i" "NewBackfillTicket i cfg (bc_Players cmd) (bc_GameSessionARN cmd) now = Inr t" for i t
    using that choose_id_names [of "bc_TicketID cmd" f i f1] f1 assms(2) by auto
  show ?thesis
    using c new changes_after [of f f1 Q] backfill_enqueue_changes [OF _ _ sup, of Q]
    by (auto simp: backfill_body_def f1 changes_same Let_def split: option.split sum.split)
qed

section \<open>A tick\<close>

text \<open>Moving up and only dropping terminal tickets is an order.\<close>

definition prunes :: "'e service \<Rightarrow> 'e service \<Rightarrow> bool" where
  "prunes s s' \<longleftrightarrow> svc_le s s' \<and> changes (\<lambda>_. False) s s'"

lemma prunes_refl [simp]: "prunes s s"
  by (simp add: prunes_def changes_same)

lemma prunes_trans:
  assumes "prunes s t" and "prunes t u"
  shows "prunes s u"
proof -
  have le: "svc_le s t" "svc_le t u" and ch: "changes (\<lambda>_. False) s t" "changes (\<lambda>_. False) t u"
    using assms by (simp_all add: prunes_def)
  have "sv_tickets u i = Some q \<or> sv_tickets u i = None \<and> IsTerminal (tk_status (sv_heap u q))"
    if i: "sv_tickets s i = Some q" "q < sv_next s" for i q
  proof -
    have below: "q < sv_next t" using le(1) i(2) by (simp add: svc_le_def hext_def)
    then have "ticket_le (sv_heap t q) (sv_heap u q)" using le(2) by (simp add: svc_le_def hext_def)
    then show ?thesis
      using changesD(1) [OF ch(1) i] changesD(1) [OF ch(2) _ below, of i] changesD(2) [OF ch(2), of i]
      by (cases "sv_tickets u i") (auto simp: ticket_le_def)
  qed
  moreover have "sv_tickets u i = None" if "sv_tickets s i = None" for i
    using changesD(2) [OF ch(1) that] changesD(2) [OF ch(2), of i] by (metis option.exhaust)
  ultimately have "changes (\<lambda>_. False) s u" by (simp add: changes_def)
  then show ?thesis using svc_le_trans [OF le] by (simp add: prunes_def)
qed

definition tidy :: "'e frame \<Rightarrow> 'e frame \<Rightarrow> bool" where
  "tidy f f' \<longleftrightarrow> prunes (fr_svc f) (fr_svc f')"

interpretation tidy: state_order tidy
  by unfold_locales (simp add: tidy_def, simp add: tidy_def, erule (1) prunes_trans)

lemma frame_le_tidy: "frame_le f f' \<Longrightarrow> tidy f f'"
  by (simp add: tidy_def prunes_def frame_le_changes) (simp add: frame_le_def)

lemma runs_tidy: "runs frame_le P f Q E \<Longrightarrow> runs tidy P f Q E"
  by (erule runs_weaken) (rule frame_le_tidy)

lemma remove_expired_prunes:
  assumes "svc_inv {} s"
  shows "prunes s (remove_expired name ret now i s)"
proof -
  have "changes (\<lambda>_. False) s (remove_expired name ret now i s)"
  proof (cases rule: remove_expired_cases [of name ret now i s])
    case (removed r)
    have "maps_ok s" using assms by (simp add: svc_inv_def store_inv_def)
    then have "sv_tickets s i = Some r" using maps_okD(4) removed(1) by blast
    with removed(2,3) show ?thesis by (auto simp: changes_def is_expired_iff)
  qed (simp add: changes_same)
  then show ?thesis by (simp add: prunes_def remove_expired_le)
qed

lemma evict_fold_prunes:
  fixes s :: "'e service"
  assumes "svc_inv {} s"
  shows "prunes s (snd (fold (evict_one d name ret now) ids (e, s)))"
  using assms
proof (induction ids arbitrary: e s)
  case (Cons i ids)
  from Cons.IH [OF remove_expired_inv [OF Cons.prems], where e = "snd (fx_Evict d i e)"]
    remove_expired_prunes [OF Cons.prems, of name ret now i]
  show ?case by (auto simp: evict_one_def intro: prunes_trans)
qed simp

lemma evict_prunes:
  assumes "svc_inv {} s"
  shows "prunes s (snd (evictExpiredTickets d name now (e, s)))"
proof -
  let ?s = "s\<lparr>sv_nextCleanup := (sv_nextCleanup s)(name := now + min minute (retention s))\<rparr>"
  have "store_inv {} ?s = store_inv {} s" by (rule store_inv_cong) simp_all
  then have s: "svc_inv {} ?s" using assms by (simp add: svc_inv_def trackers_ok_def)
  moreover have "prunes s ?s" by (simp add: prunes_def svc_le_def hext_def changes_same)
  ultimately show ?thesis
    using prunes_trans evict_fold_prunes by (fastforce simp: evictExpiredTickets_def Let_def)
qed

lemma evict_phase_tidy: "runs tidy idle (evict_phase d name now) idle idle"
proof (rule runsI)
  fix f f' :: "'a frame" assume "idle f" "evict_phase d name now f = (None, f')"
  with evict_prunes [of "fr_svc f" d name now "fr_eng f"] evict_keeps [of "fr_svc f" d name now "fr_eng f"]
  show "tidy f f' \<and> idle f'"
    by (auto simp: evict_phase_def idle_def tidy_def split: prod.splits)
qed (simp add: evict_phase_def split: prod.splits)

lemma apply_tick_tidy: "runs tidy idle (apply_tick d n now cfg matches after) idle idle"
  unfolding apply_tick_def
  by (intro tidy.runs_and_then [OF runs_tidy [OF settleOldProposals_step]]
      tidy.runs_and_then [OF runs_tidy [OF finalizeMatches_step]]
      tidy.runs_and_then [OF runs_tidy [OF applyNewProposals_step]]
      tidy.runs_and_then [OF runs_tidy [OF syncActiveTickets_step]] evict_phase_tidy)

lemma tick_body_changes:
  assumes "idle f"
  shows "changes Q (fr_svc f) (fr_svc (snd (tick_body d n now cfg f)))"
proof -
  obtain x g where eng: "on_eng (fx_Tick d) f = (x, g)" by fastforce
  then have g: "fr_svc g = fr_svc f" "fr_batch g = fr_batch f" using on_eng_svc by (metis snd_conv)+
  then have "idle g" using assms by (auto simp: idle_def)
  from runs_snd [OF apply_tick_tidy this] g(1)
  have "changes (\<lambda>_. False) (fr_svc f) (fr_svc (snd (tick_body d n now cfg f)))"
    by (cases x) (auto simp: tick_body_def eng tidy_def prunes_def changes_same)
  then show ?thesis by (rule changes_weaken) simp
qed

section \<open>Locked sections\<close>

lemma with_engine_changes:
  assumes "svc_inv {} s" and "with_engine n body s = (x, evs, s')"
    and "\<And>eng. idle (opened s eng) \<Longrightarrow> changes Q s (fr_svc (snd (body (opened s eng))))"
  shows "changes Q s s'"
proof (cases rule: with_engine_cases [of n body s])
  case (ran eng y f)
  then show ?thesis
    using assms(1,2) assms(3) [of eng] by (auto simp: idle_def changes_def Register_simps)
qed (use assms in \<open>simp add: changes_same\<close>)

lemma locked_configured_changes:
  assumes "svc_inv {} s" and "locked_configured ctx n body s = (x, evs, s')"
    and "\<And>cfg eng. GetConfiguration n s = Inr cfg \<Longrightarrow> idle (opened s eng) \<Longrightarrow>
      changes Q s (fr_svc (snd (body cfg (opened s eng))))"
  shows "changes Q s s'"
proof -
  have "changes Q s t" if "with_engine n (body cfg) s = (x, e, t)" "GetConfiguration n s = Inr cfg" for x cfg e t
    by (rule with_engine_changes [OF assms(1) that(1)]) (rule assms(3) [OF that(2)])
  then show ?thesis
    using assms(2) changes_same [of s s Q] by (auto simp: locked_configured_def split: option.splits sum.splits)
qed

lemma Stop_locked_changes:
  assumes "svc_inv {} s" and "Stop_locked d ctx i r s = (x, evs, s')"
  shows "changes Q s s'"
proof -
  have "changes Q s (fr_svc (snd (stop_body d r (opened s eng))))"
    if "GetTicket i s = Inr r" "idle (opened s eng)" for eng
    using frame_le_changes [OF conjunct1 [OF stop_body_keeps [OF _ that(2)]]] that(1) by simp
  with assms show ?thesis
    by (auto simp: Stop_locked_def on_ticket_def changes_same split: option.splits if_splits
        elim!: with_engine_changes)
qed

lemma Accept_locked_changes:
  assumes "svc_inv {} s" and "Accept_locked d ctx now cmd r s = (x, evs, s')"
  shows "changes Q s s'"
proof -
  have "changes Q s (fr_svc (snd (accept_body d now cmd r (opened s eng))))"
    if "GetTicket (ac_TicketID cmd) s = Inr r" "idle (opened s eng)" for eng
    using frame_le_changes [OF conjunct1 [OF accept_body_keeps [OF _ that(2)]]] that(1) by simp
  with assms show ?thesis
    by (auto simp: Accept_locked_def on_ticket_def changes_same split: option.splits if_splits
        elim!: with_engine_changes)
qed

lemma Tick_locked_changes:
  "svc_inv {} s \<Longrightarrow> Tick_locked d ctx now n s = (x, evs, s') \<Longrightarrow> changes Q s s'"
  unfolding Tick_locked_def by (erule (1) locked_configured_changes) (use tick_body_changes [of "opened s _"] in auto)

lemma Start_locked_changes:
  assumes "svc_inv {} s" and "Start_locked d ctx now n cmd s = (x, evs, s')"
    and "\<And>i cfg t. sc_TicketID cmd \<noteq> [] \<and> i = sc_TicketID cmd \<or> (\<exists>k. i = ig_seq (sv_IDs s) k) \<Longrightarrow>
      GetConfiguration n s = Inr cfg \<Longrightarrow>
      NewTicket i cfg (sc_Players cmd) now = Inr t \<Longrightarrow> Q (t\<lparr>tk_events := []\<rparr>)"
  shows "changes Q s s'"
  using assms(2) unfolding Start_locked_def
  by (elim locked_configured_changes [OF assms(1)])
     (use start_body_changes [of "opened s _" cmd _ now Q] assms(3) in auto)

lemma Backfill_locked_changes:
  assumes "svc_inv {} s" and "Backfill_locked d ctx now n cmd s = (x, evs, s')"
    and "\<And>i cfg t. bc_TicketID cmd \<noteq> [] \<and> i = bc_TicketID cmd \<or> (\<exists>k. i = ig_seq (sv_IDs s) k) \<Longrightarrow>
      GetConfiguration n s = Inr cfg \<Longrightarrow>
      NewBackfillTicket i cfg (bc_Players cmd) (bc_GameSessionARN cmd) now = Inr t \<Longrightarrow> Q (t\<lparr>tk_events := []\<rparr>)"
  shows "changes Q s s'"
  using assms(2) unfolding Backfill_locked_def
  by (elim locked_configured_changes [OF assms(1)])
     (use backfill_body_changes [of "opened s _" cmd _ now Q] assms(3) in auto)

end
