(* ===== verification/Api_System.thy ===== *)
theory Api_System
  imports Api_Server Change_Laws
begin

text \<open>
  The service behind the API: which steps a request can make, and what the checks of the handlers
  buy. The ticket identifiers of a service that is only reached through the API contain no
  separator of the proposal tracker's keys.
\<close>

section \<open>Steps of the API\<close>

text \<open>
  The steps of \<open>service_step\<close>, with the commands a request brings: a start and a backfill come from
  an input that passed the checks of its handler.
\<close>

inductive api_step :: "'e deps \<Rightarrow> 'e service \<Rightarrow> recorded_event list \<Rightarrow> 'e service \<Rightarrow> bool"
  for d :: "'e deps" where
  api_start: "check_start inp = None \<Longrightarrow>
    Start_locked d ctx now n (start_command inp) s = (x, evs, s') \<Longrightarrow> api_step d s evs s'"
| api_backfill: "check_backfill binp = None \<Longrightarrow>
    Backfill_locked d ctx now n (backfill_command binp) s = (x, evs, s') \<Longrightarrow> api_step d s evs s'"
| api_stop: "Stop_locked d ctx i r s = (y, evs, s') \<Longrightarrow> api_step d s evs s'"
| api_accept: "check_accept ainp = None \<Longrightarrow>
    Accept_locked d ctx now (accept_command ainp) r s = (y, evs, s') \<Longrightarrow> api_step d s evs s'"
| api_tick: "Tick_locked d ctx now n s = (y, evs, s') \<Longrightarrow> api_step d s evs s'"
| api_engine: "EngineFor n s = Inr eng \<Longrightarrow> api_step d s [] (Register n eng' s)"

lemma api_step_service: "api_step d s evs s' \<Longrightarrow> service_step d s evs s'"
  by (erule api_step.cases) (blast intro: service_step.intros)+

inductive api_reachable :: "'e deps \<Rightarrow> idgen \<Rightarrow> 'e service \<Rightarrow> bool" for d :: "'e deps" and ids :: idgen where
  api_begin: "api_reachable d ids (new_service keep ids mids cfgs sets engine)"
| api_more: "api_reachable d ids s \<Longrightarrow> api_step d s evs s' \<Longrightarrow> api_reachable d ids s'"

lemma api_reachable_service: "api_reachable d ids s \<Longrightarrow> service_reachable d s"
proof (induction rule: api_reachable.induct)
  case (api_begin keep mids cfgs sets engine)
  then show ?case unfolding service_reachable_def by (blast intro: steps_done)
next
  case (api_more s evs s')
  then show ?case by (blast intro: reachable_step api_step_service)
qed

text \<open>Every request makes at most one such step, whichever its format.\<close>

definition at_most_api_step :: "'e deps \<Rightarrow> 'e service \<Rightarrow> recorded_event list \<Rightarrow> 'e service \<Rightarrow> bool" where
  "at_most_api_step d s evs s' \<longleftrightarrow> evs = [] \<and> s' = s \<or> api_step d s evs s'"

lemma with_input_api:
  assumes "with_input dc zero check run body s = (x, evs, s')"
    and "\<And>inp y evs s'. check inp = None \<Longrightarrow> run inp s = (y, evs, s') \<Longrightarrow> at_most_api_step d s evs s'"
  shows "at_most_api_step d s evs s'"
  using assms by (auto simp: with_input_def at_most_api_step_def split: sum.splits option.splits prod.splits)

lemma find_then_api:
  assumes "find_then env i body s = (x, evs, s')" and "\<And>r y evs s'. body r s = (y, evs, s') \<Longrightarrow> api_step d s evs s'"
  shows "at_most_api_step d s evs s'"
  using assms by (auto simp: find_then_def at_most_api_step_def split: sum.splits option.splits)

lemma start_api:
  assumes "check_start inp = None" and "StartMatchmaking d env now (start_command inp) s = (x, evs, s')"
  shows "at_most_api_step d s evs s'"
  using assms(2)
  by (auto simp: StartMatchmaking_def at_most_api_step_def dest: api_start [OF assms(1)]
      split: if_splits sum.splits option.splits)

lemma backfill_api:
  assumes "check_backfill inp = None" and "StartMatchBackfill d env now (backfill_command inp) s = (x, evs, s')"
  shows "at_most_api_step d s evs s'"
  using assms(2)
  by (auto simp: StartMatchBackfill_def at_most_api_step_def dest: api_backfill [OF assms(1)]
      split: if_splits sum.splits option.splits)

lemma handlers_api:
  assumes "map_of handlers action = Some h" and "h d ap env body s = (x, evs, s')"
  shows "at_most_api_step d s evs s'"
proof -
  have shown: "at_most_api_step d s e t" if "show_ticket res = (y, e, t)"
    "\<And>x e t. res = (x, e, t) \<Longrightarrow> at_most_api_step d s e t" for res y e t
    using that by (auto simp: show_ticket_def split: prod.splits sum.splits)
  have quiet: "at_most_api_step d s e t" if "show_nothing res = (y, e, t)"
    "\<And>x e t. res = (x, e, t) \<Longrightarrow> at_most_api_step d s e t" for res y e t
    using that by (auto simp: show_nothing_def split: prod.splits sum.splits)
  have same: "at_most_api_step d s [] s" by (simp add: at_most_api_step_def)
  have "h \<in> snd ` set handlers" using map_of_SomeD [OF assms(1)] by force
  then consider "h = handleStartMatchmaking" | "h = handleStartMatchBackfill" | "h = handleStopMatchmaking"
    | "h = handleAcceptMatch" | "h \<in> {handleDescribeMatchmaking, handleDescribeConfigurations,
        handleDescribeRuleSets, handleValidateRuleSet}"
    by (auto simp: handlers_def)
  then show ?thesis
  proof cases
    case 1
    with assms(2) show ?thesis
      unfolding handleStartMatchmaking_def by simp (erule with_input_api, erule shown, erule (1) start_api)
  next
    case 2
    with assms(2) show ?thesis
      unfolding handleStartMatchBackfill_def by simp (erule with_input_api, erule shown, erule (1) backfill_api)
  next
    case 3
    with assms(2) show ?thesis
      unfolding handleStopMatchmaking_def StopMatchmaking_def
      by simp (erule with_input_api, erule quiet, erule find_then_api, erule api_stop)
  next
    case 4
    with assms(2) show ?thesis
      unfolding handleAcceptMatch_def AcceptMatch_def
      by simp (erule with_input_api, erule quiet, erule find_then_api, erule (1) api_accept)
  next
    case 5
    with assms(2) same show ?thesis
      by (auto simp: handleDescribeMatchmaking_def handleDescribeConfigurations_def handleDescribeRuleSets_def
          handleValidateRuleSet_def elim!: with_input_api split: option.splits)
  qed
qed

lemma serve_api:
  fixes d :: "'e deps"
  assumes "serve d ap f env action body s = (resp, evs, s')"
  shows "at_most_api_step d s evs s'"
proof (cases "map_of (handlers :: (string \<times> 'e handler) list) action")
  case (Some h)
  obtain x e t where h: "h d ap env body s = (x, e, t)" by (metis prod_cases3)
  then have "evs = e \<and> s' = t" using assms Some by (auto simp: serve_def split: sum.splits handler_err.splits option.splits)
  with handlers_api [OF Some h] show ?thesis by simp
qed (use assms in \<open>simp add: serve_def at_most_api_step_def\<close>)

lemma dispatch_api:
  "dispatch d ap env target rd s = (resp, evs, s') \<Longrightarrow> at_most_api_step d s evs s'"
  "dispatchCBOR d ap env action rd s = (resp, evs, s') \<Longrightarrow> at_most_api_step d s evs s'"
  by (auto simp: dispatch_def dispatchCBOR_def at_most_api_step_def dest!: serve_api
      split: if_splits sum.splits)

section \<open>Identifiers of an API service\<close>

lemma start_command_id: "check_start inp = None \<Longrightarrow> ticketIDPattern (sc_TicketID (start_command inp))"
  by (auto simp: check_start_def check_ticket_id_def start_command_def split: option.splits if_splits)

lemma backfill_command_id: "check_backfill inp = None \<Longrightarrow> ticketIDPattern (bc_TicketID (backfill_command inp))"
  by (auto simp: check_backfill_def check_ticket_id_def backfill_command_def split: option.splits if_splits)

text \<open>A step only adds a ticket under an identifier that was checked or generated.\<close>

lemma api_step_names:
  assumes "svc_inv {} s" and "\<forall>k. ticketIDPattern (ig_seq (sv_IDs s) k)" and "api_step d s evs s'"
  shows "changes (\<lambda>t. ticketIDPattern (tk_id t)) s s'"
  using assms(3)
proof cases
  case (api_start inp ctx now n x)
  show ?thesis
    by (rule Start_locked_changes [OF assms(1) api_start(2)])
       (use assms(2) start_command_id [OF api_start(1)] in
         \<open>auto simp: NewTicket_def newTicket_def recordEvent_def split: if_splits\<close>)
next
  case (api_backfill binp ctx now n x)
  show ?thesis
    by (rule Backfill_locked_changes [OF assms(1) api_backfill(2)])
       (use assms(2) backfill_command_id [OF api_backfill(1)] in \<open>auto dest!: NewBackfillTicket_fields\<close>)
qed (use assms(1) in \<open>simp_all add: Stop_locked_changes Accept_locked_changes Tick_locked_changes
       changes_same Register_simps\<close>)

lemma api_names:
  assumes "api_reachable d ids s" and "\<forall>k. ticketIDPattern (ig_seq ids k)"
  shows "ig_seq (sv_IDs s) = ig_seq ids \<and> (\<forall>i\<in>dom (sv_tickets s). ticketIDPattern i)"
  using assms(1)
proof (induction rule: api_reachable.induct)
  case (api_begin keep mids cfgs sets engine)
  have "sv_IDs (fold (\<lambda>c s. Register (cfg_Name c) (engine (cfg_Name c)) s) cfgs s) = sv_IDs s" for s
    by (induction cfgs arbitrary: s) (simp_all add: Register_simps)
  then show ?case
    by (simp add: new_service_empty) (simp add: new_service_def empty_service_def LoadRuleSets_def LoadConfigurations_def)
next
  case (api_more s evs s')
  have inv: "svc_inv {} s" using service_reachable_inv [OF api_reachable_service [OF api_more(1)]] by simp
  have "svc_grow s s'" using service_step_keeps [OF api_step_service [OF api_more(2)] inv] by simp
  then have "ig_seq (sv_IDs s') = ig_seq ids" using api_more.IH by (simp add: svc_grow_def)
  moreover have "ticketIDPattern i" if "sv_tickets s' i = Some r" for i r
  proof (cases "sv_tickets s i")
    case None
    have "changes (\<lambda>t. ticketIDPattern (tk_id t)) s s'"
      using api_step_names [OF inv _ api_more(2)] api_more.IH assms(2) by simp
    moreover have "tk_id (sv_heap s' r) = i"
      using service_step_keeps [OF api_step_service [OF api_more(2)] inv] that
      by (auto simp: svc_inv_def store_inv_def dest: maps_okD(2))
    ultimately show ?thesis using changesD(2) None that by blast
  qed (use api_more.IH in blast)
  ultimately show ?case using api_more.IH by auto
qed

end
