(* ===== verification/Cbor_Laws.thy ===== *)
theory Cbor_Laws
  imports Cbor
begin

text \<open>
  A client of the CBOR protocol reads the same data as a client of the JSON protocol: encoding a
  value and reading the result back is what decoding its JSON text gives.
\<close>

text \<open>
  The values the two formats can both carry: valid UTF-8, integers within the exact range of
  \<open>float64\<close>, finite numbers, no nil map (null in JSON, an empty map in CBOR) and no two members of
  one name.
\<close>

function (sequential) plain :: "goval \<Rightarrow> bool" where
  "plain (GString s) = valid_utf8 s"
| "plain (GInt i) = (\<bar>i\<bar> < 2 ^ 53)"
| "plain (GUint n) = (n < 2 ^ 53)"
| "plain (GFloat f) = is_finite f"
| "plain (GPtr v) = plain v"
| "plain (GSlice vs) = list_all plain vs"
| "plain (GMap m) = list_all (\<lambda>kv. valid_utf8 (fst kv) \<and> plain (snd kv)) m"
| "plain GNilMap = False"
| "plain (GStruct fs) =
     (distinct (map (tag_name \<circ> fst) (filter kept fs)) \<and> list_all (\<lambda>fv. plain (snd fv)) (filter kept fs))"
| "plain GOther = False"
| "plain v = True"
  by pat_completeness auto
termination
  by (relation "measure size") (auto simp: less_Suc_eq_le intro: size_list_estimation' trans_le_add2
    dest: filter_is_subset [THEN subsetD])

lemma structToCBOR_append:
  "distinct (map (tag_name \<circ> fst) (filter kept fs)) \<Longrightarrow>
   fst ` set m \<inter> (tag_name \<circ> fst) ` set (filter kept fs) = {} \<Longrightarrow>
   structToCBOR fs m = m @ map (\<lambda>fv. (tag_name (fst fv), goToCBOR (snd fv) (tag_name (fst fv)))) (filter kept fs)"
proof (induction fs arbitrary: m)
  case (Cons fv fs)
  obtain f v where fv: "fv = (f, v)" by fastforce
  show ?case
  proof (cases "kept fv")
    case True
    then have "tag_name f \<notin> fst ` set m" using Cons.prems fv by auto
    then have "AList.update (tag_name f) x m = m @ [(tag_name f, x)]" for x
      by (induction m) auto
    then show ?thesis using True Cons fv by (auto simp: kept_def)
  next
    case False
    then show ?thesis using Cons fv by (auto simp: kept_def)
  qed
qed simp

lemma f64_small: "\<bar>i\<bar> < 2 ^ 53 \<Longrightarrow> f64_of_int i = of_int i"
  by (simp add: f64_of_int_def f64_int)

lemma neg_int_value:
  assumes "\<bar>i\<bar> < 2 ^ 53" and "i < 0"
  shows "f64 (- f64_of_int (int (nat (- i - 1))) - 1) = f64_of_int i"
proof -
  have "f64_of_int (int (nat (- i - 1))) = of_int (- i - 1)" using assms by (simp add: f64_small)
  then have "- f64_of_int (int (nat (- i - 1))) - 1 = of_int i" by simp
  then show ?thesis by (simp only: f64_of_int_def)
qed

lemma formats_agree_at: "plain v \<Longrightarrow> cborToGoValue (goToCBOR v name) = json_any v"
proof (induction v arbitrary: name rule: json_any.induct)
  case (2 i name)
  then show ?case using neg_int_value [of i] by auto
next
  case (5 vs)
  then show ?case by (auto simp: list_all_iff)
next
  case (7 m)
  then show ?case by (auto simp: list_all_iff to_valid_id)
next
  case (9 fs)
  have "cborToGoValue (goToCBOR (snd fv) (tag_name (fst fv))) = json_any (snd fv)" if "fv \<in> set (filter kept fs)" for fv
    using 9(1) [OF that] 9(2) that by (cases fv; cases "fst fv") (auto simp: list_all_iff)
  then show ?case using 9(2) by (auto simp: structToCBOR_append)
qed (auto simp: to_valid_id)

end
