(* ===== verification/Api_Props.thy ===== *)
theory Api_Props
  imports Api_System Cbor_Laws Sample_World
begin

text \<open>
  The API's contract: which requests reach the service, what a client reads in either wire format,
  how failures are reported, and what the checks of the handlers give the layers below.
\<close>

section \<open>Requests\<close>

text \<open>The requests AWS accepts, as its documentation bounds them.\<close>

definition acceptable_id :: "string \<Rightarrow> bool" where
  "acceptable_id i \<longleftrightarrow> length i \<le> 128 \<and> (\<forall>c\<in>set i. name_char c)"

definition acceptable_start :: "start_input \<Rightarrow> bool" where
  "acceptable_start inp \<longleftrightarrow>
     acceptable_id (si_TicketID inp) \<and> 1 \<le> length (si_Players inp) \<and> length (si_Players inp) \<le> 10 \<and>
     (\<forall>p\<in>set (si_Players inp). py_Team p = [])"

definition acceptable_backfill :: "backfill_input \<Rightarrow> bool" where
  "acceptable_backfill inp \<longleftrightarrow>
     acceptable_id (bf_TicketID inp) \<and> 1 \<le> length (bf_Players inp) \<and> length (bf_Players inp) \<le> 199 \<and>
     (\<forall>p\<in>set (bf_Players inp). py_Team p \<noteq> [])"

lemma check_ticket_id_iff: "check_ticket_id i = None \<longleftrightarrow> acceptable_id i"
  by (auto simp: check_ticket_id_def acceptable_id_def maxTicketIDLength_def ticketIDPattern_def list_all_iff)

lemma check_players_iff: "check_players limit ps = None \<longleftrightarrow> 1 \<le> length ps \<and> length ps \<le> limit"
  by (cases ps) (auto simp: check_players_def)

lemma check_start_iff: "check_start inp = None \<longleftrightarrow> acceptable_start inp"
proof -
  have "check_start inp = None \<longleftrightarrow> check_ticket_id (si_TicketID inp) = None \<and>
      check_players maxStartMatchmakingPlayers (si_Players inp) = None \<and> find (\<lambda>p. py_Team p \<noteq> []) (si_Players inp) = None"
    by (auto simp: check_start_def split: option.split)
  then show ?thesis
    by (auto simp: acceptable_start_def check_ticket_id_iff check_players_iff maxStartMatchmakingPlayers_def find_None_iff)
qed

lemma check_backfill_iff: "check_backfill inp = None \<longleftrightarrow> acceptable_backfill inp"
proof -
  have "check_backfill inp = None \<longleftrightarrow> check_ticket_id (bf_TicketID inp) = None \<and>
      check_players maxBackfillPlayers (bf_Players inp) = None \<and> find (\<lambda>p. py_Team p = []) (bf_Players inp) = None"
    by (auto simp: check_backfill_def split: option.split)
  then show ?thesis
    by (auto simp: acceptable_backfill_def check_ticket_id_iff check_players_iff maxBackfillPlayers_def find_None_iff)
qed

definition start_result :: "'e deps \<Rightarrow> request_env \<Rightarrow> start_input \<Rightarrow> 'e service \<Rightarrow>
    (handler_err + response) \<times> recorded_event list \<times> 'e service" where
  "start_result d env inp s =
     (case StartMatchmaking d (rq_call env) (rq_now env) (start_command inp) s of
        (Inl e, evs, s') \<Rightarrow> (Inl (DomainFailure e), evs, s')
      | (Inr r, evs, s') \<Rightarrow> (Inr (TicketStarted (ticketToDTO (sv_heap s' r))), evs, s'))"

definition backfill_result :: "'e deps \<Rightarrow> request_env \<Rightarrow> backfill_input \<Rightarrow> 'e service \<Rightarrow>
    (handler_err + response) \<times> recorded_event list \<times> 'e service" where
  "backfill_result d env inp s =
     (case StartMatchBackfill d (rq_call env) (rq_now env) (backfill_command inp) s of
        (Inl e, evs, s') \<Rightarrow> (Inl (DomainFailure e), evs, s')
      | (Inr r, evs, s') \<Rightarrow> (Inr (TicketStarted (ticketToDTO (sv_heap s' r))), evs, s'))"

definition rejected :: "(handler_err + response) \<times> recorded_event list \<times> 'e service \<Rightarrow> 'e service \<Rightarrow> bool" where
  "rejected res s \<longleftrightarrow> (\<exists>m. res = (Inl (ApiFailure (newInvalidRequest m)), [], s))"

text \<open>
  C23. A decoded start or backfill request reaches the service exactly when it is acceptable: the
  ticket identifier has the documented pattern and length, there are 1 to 10 (1 to 199) players,
  and no player (every player) names a team. Otherwise it is an InvalidRequestException, and
  neither the service nor the event stream sees anything of it.
\<close>

theorem requests_checked:
  assumes "dc_strict (ap_Start ap) body = Decoded_strictly inp" and "body \<noteq> []"
    and "dc_strict (ap_Backfill ap) body' = Decoded_strictly binp" and "body' \<noteq> []"
  shows "(if acceptable_start inp
      then handleStartMatchmaking d ap env body s = start_result d env inp s
      else rejected (handleStartMatchmaking d ap env body s) s) \<and>
    (if acceptable_backfill binp
      then handleStartMatchBackfill d ap env body' s = backfill_result d env binp s
      else rejected (handleStartMatchBackfill d ap env body' s) s)"
proof (rule conjI)
  have "check_start inp = None \<Longrightarrow> handleStartMatchmaking d ap env body s = start_result d env inp s"
    "check_start inp \<noteq> None \<Longrightarrow> rejected (handleStartMatchmaking d ap env body s) s"
    using assms(1,2)
    by (auto simp: handleStartMatchmaking_def with_input_def decodeJSON_def start_result_def show_ticket_def
        rejected_def split: prod.split sum.split)
  then show "if acceptable_start inp then handleStartMatchmaking d ap env body s = start_result d env inp s
      else rejected (handleStartMatchmaking d ap env body s) s"
    by (simp add: check_start_iff [symmetric])
  have "check_backfill binp = None \<Longrightarrow> handleStartMatchBackfill d ap env body' s = backfill_result d env binp s"
    "check_backfill binp \<noteq> None \<Longrightarrow> rejected (handleStartMatchBackfill d ap env body' s) s"
    using assms(3,4)
    by (auto simp: handleStartMatchBackfill_def with_input_def decodeJSON_def backfill_result_def show_ticket_def
        rejected_def split: prod.split sum.split)
  then show "if acceptable_backfill binp then handleStartMatchBackfill d ap env body' s = backfill_result d env binp s
      else rejected (handleStartMatchBackfill d ap env body' s) s"
    by (simp add: check_backfill_iff [symmetric])
qed

section \<open>Wire formats\<close>

text \<open>A ticket whose texts are valid UTF-8 and whose numbers are in range is shown as a plain value.\<close>

definition ok_attribute :: "attribute_value \<Rightarrow> bool" where
  "ok_attribute v \<longleftrightarrow>
     (case av_S v of None \<Rightarrow> True | Some x \<Rightarrow> valid_utf8 x) \<and>
     (case av_N v of None \<Rightarrow> True | Some n \<Rightarrow> is_finite n) \<and>
     (case av_SL v of None \<Rightarrow> True | Some l \<Rightarrow> list_all valid_utf8 l) \<and>
     (case av_SDM v of None \<Rightarrow> True | Some m \<Rightarrow> list_all (\<lambda>kv. valid_utf8 (fst kv) \<and> is_finite (snd kv)) m)"

definition ok_player :: "player_dto \<Rightarrow> bool" where
  "ok_player p \<longleftrightarrow>
     valid_utf8 (py_PlayerID p) \<and> valid_utf8 (py_Team p) \<and>
     list_all (\<lambda>kv. valid_utf8 (fst kv) \<and> ok_attribute (snd kv)) (py_PlayerAttributes p) \<and>
     list_all (\<lambda>kv. valid_utf8 (fst kv) \<and> \<bar>snd kv\<bar> < 2 ^ 53) (py_LatencyInMs p)"

definition ok_ticket :: "ticket_dto \<Rightarrow> bool" where
  "ok_ticket t \<longleftrightarrow>
     list_all valid_utf8 [mt_TicketID t, mt_ConfigurationName t, mt_ConfigurationARN t, mt_Status t,
       mt_StatusReason t, mt_StatusMessage t] \<and>
     list_all ok_player (mt_Players t) \<and>
     (case mt_EstimatedWaitTime t of None \<Rightarrow> True | Some n \<Rightarrow> \<bar>n\<bar> < 2 ^ 53)"

lemma plain_struct:
  assumes "distinct (map (tag_name \<circ> fst) fs)" and "\<forall>fv\<in>set fs. plain (snd fv)"
  shows "plain (GStruct fs)"
proof -
  have "distinct (map (tag_name \<circ> fst) (filter kept fs))"
    using assms(1) by (induction fs) auto
  with assms(2) show ?thesis by (auto simp: list_all_iff)
qed

lemma plain_attribute: "ok_attribute v \<Longrightarrow> plain (attribute_goval v)"
  unfolding attribute_goval_def ok_attribute_def
  by (rule plain_struct)
     (auto simp: tag_name_def gpointer_def gstrings_def gmap_def list_all_iff split: option.splits)

lemma plain_player: "ok_player p \<Longrightarrow> plain (player_goval p)"
  unfolding player_goval_def ok_player_def
  by (rule plain_struct) (auto simp: tag_name_def gmap_def list_all_iff plain_attribute)

lemma plain_ticket: "ok_ticket t \<Longrightarrow> plain (ticket_goval t)"
  unfolding ticket_goval_def ok_ticket_def
  by (rule plain_struct)
     (auto simp: tag_name_def gpointer_def list_all_iff plain_player is_finite_def split: option.splits)

text \<open>What a response says, without the headers of its format.\<close>

definition same_data :: "body \<Rightarrow> body \<Rightarrow> bool" where
  "same_data b c \<longleftrightarrow>
     (case b of
        JsonBody v \<Rightarrow> (\<exists>cv. c = CborBody cv \<and> (plain v \<longrightarrow> cborToGoValue cv = json_any v))
      | JsonError t m \<Rightarrow> c = CborError t m
      | _ \<Rightarrow> False)"


section \<open>Errors\<close>

definition not_found_errors :: "err list" where
  "not_found_errors = [ErrTicketNotFound, ErrConfigurationNotFound, ErrRuleSetNotFound]"

definition invalid_request_errors :: "err list" where
  "invalid_request_errors = [ErrTicketAlreadyExists, ErrPlayerNotInTicket, ErrProposalNotFound, ErrInvalidTransition,
     ErrInvalidRuleSet, ErrInvalidRequest, ErrBackfillInProgress]"

text \<open>
  A domain error is reported by what it wraps: NotFoundException for a missing ticket,
  configuration or rule set, InvalidRequestException for the other errors of a caller, both with
  status 400, and InternalServiceException with status 500 otherwise. ErrInvalidCommand is among
  the latter, although the documentation has it mapped to a code of its own.
\<close>

theorem domain_errors_classified:
  "translateDomainError (Some e) = Some
     (if \<exists>t\<in>set not_found_errors. errors_Is e t
      then \<lparr>ae_TypeName = ''NotFoundException'', ae_Message = DomainError e, ae_HTTPStatus = 400\<rparr>
      else if \<exists>t\<in>set invalid_request_errors. errors_Is e t
      then \<lparr>ae_TypeName = ''InvalidRequestException'', ae_Message = DomainError e, ae_HTTPStatus = 400\<rparr>
      else \<lparr>ae_TypeName = ''InternalServiceException'', ae_Message = DomainError e, ae_HTTPStatus = 500\<rparr>) \<and>
   map_option ae_HTTPStatus (translateDomainError (Some ErrInvalidCommand)) = Some 500"
  by (auto simp: translateDomainError_def not_found_errors_def invalid_request_errors_def newNotFound_def
      newInvalidRequest_def newInternal_def list_ex_iff)

section \<open>Players\<close>

text \<open>An attribute with exactly one member, as the API documents it.\<close>

definition one_member :: "attribute_value \<Rightarrow> bool" where
  "one_member v \<longleftrightarrow> length (filter id [av_S v \<noteq> None, av_N v \<noteq> None, av_SL v \<noteq> None, av_SDM v \<noteq> None]) = 1"

lemma attribute_round_trip:
  assumes "one_member v"
  shows "\<exists>a. attribute_from v = Some a \<and> attribute_to a = Some v"
proof -
  obtain s n l m where v: "v = \<lparr>av_S = s, av_N = n, av_SL = l, av_SDM = m\<rparr>" by (cases v) simp
  show ?thesis using assms unfolding v one_member_def
    by (cases s; cases n; cases l; cases m) (auto simp: attribute_from_def attribute_to_def no_attribute_def)
qed

lemma attributes_round_trip:
  "\<forall>kv\<in>set m. one_member (snd kv) \<Longrightarrow> attributesToDTO (attributesFromDTO m) = m"
proof (induction m)
  case (Cons kv m)
  obtain a where "attribute_from (snd kv) = Some a" "attribute_to a = Some (snd kv)"
    using attribute_round_trip Cons.prems by auto
  with Cons show ?case by (simp add: attributesFromDTO_def attributesToDTO_def List.map_filter_def)
qed (simp add: attributesFromDTO_def attributesToDTO_def List.map_filter_def)

text \<open>
  C25. The players a client sends come back in the response: identifiers, latencies and attributes
  of every kind, empty collections included, in the order sent. The team shown is the assigned one.
\<close>

theorem players_round_trip:
  assumes "\<forall>p\<in>set ps. \<forall>kv\<in>set (py_PlayerAttributes p). one_member (snd kv)" and "tk_players t = playersFromDTO ps"
  shows "mt_Players (ticketToDTO t) = map (\<lambda>p. p\<lparr>py_Team := PlayerTeam t (py_PlayerID p)\<rparr>) ps"
  using assms(1)
  by (auto simp: ticketToDTO_def playersToDTO_def playersFromDTO_def attributes_round_trip assms(2))

section \<open>What the checks give the tracker\<close>

lemma pattern_separable:
  assumes "xs \<noteq> []" and "\<forall>i\<in>set xs. ticketIDPattern i"
  shows "separable xs"
proof -
  have "\<not> name_char (CHR ''|'')" by (simp add: name_char_def)
  with assms show ?thesis by (auto simp: separable_def ticketIDPattern_def list_all_iff)
qed

text \<open>
  C24. In a service that is only driven through the API, with generated identifiers of the same
  pattern, the proposal tracker's keys are exact: two rosters of the service's tickets have the
  same key exactly when they hold the same tickets.
\<close>

theorem api_rosters_identified:
  assumes "api_reachable d ids s" and "\<forall>k. ticketIDPattern (ig_seq ids k)"
    and "set xs \<subseteq> dom (sv_tickets s)" and "xs \<noteq> []" and "set ys \<subseteq> dom (sv_tickets s)" and "ys \<noteq> []"
  shows "proposalKey xs = proposalKey ys \<longleftrightarrow> mset xs = mset ys"
proof -
  have "\<forall>i\<in>dom (sv_tickets s). ticketIDPattern i" using api_names [OF assms(1,2)] by simp
  with assms(3-6) have "separable xs" "separable ys" by (auto intro!: pattern_separable)
  then show ?thesis by (rule proposalKey_iff)
qed

section \<open>Sample requests\<close>

definition sample_dto :: "string \<Rightarrow> player_dto" where
  "sample_dto i = \<lparr>py_PlayerID = i, py_Team = [],
     py_PlayerAttributes = [(''skill'', no_attribute\<lparr>av_N := Some (Num 7)\<rparr>), (''tags'', no_attribute\<lparr>av_SL := Some []\<rparr>)],
     py_LatencyInMs = [(''eu'', 20)]\<rparr>"

definition sample_input :: "string \<Rightarrow> start_input" where
  "sample_input i = \<lparr>si_ConfigurationName = ''c'', si_TicketID = i, si_Players = [sample_dto ''p'']\<rparr>"

definition sample_backfill :: backfill_input where
  "sample_backfill = \<lparr>bf_ConfigurationName = ''c'', bf_TicketID = ''b'', bf_GameSessionArn = ''g'', bf_Players = [sample_dto ''p'']\<rparr>"

definition fixed :: "'a \<Rightarrow> 'a decoder" where
  "fixed x = \<lparr>dc_strict = (\<lambda>_. Decoded_strictly x), dc_lenient = (\<lambda>_. Inr x)\<rparr>"

definition sample_api :: api where
  "sample_api =
     \<lparr>ap_Start = fixed (sample_input ''a''), ap_Stop = fixed ''a'', ap_Describe = fixed [''a''],
      ap_Accept = fixed \<lparr>ai_TicketID = ''a'', ai_PlayerIDs = [''p''], ai_AcceptanceType = ''ACCEPT''\<rparr>,
      ap_Backfill = fixed sample_backfill,
      ap_Configurations = fixed \<lparr>ci_Names = [], ci_RuleSetName = [], ci_Limit = 0, ci_NextToken = []\<rparr>,
      ap_RuleSets = fixed \<lparr>ri_Names = [], ri_Limit = 0, ri_NextToken = []\<rparr>, ap_Validate = fixed ''{}'',
      ap_MarshalJSON = (\<lambda>_. Inr ''x''), ap_DecodeCBOR = (\<lambda>_. Inr CNil), ap_NewRuleSet = (\<lambda>_. None)\<rparr>"

definition sample_env :: request_env where
  "sample_env = \<lparr>rq_call = calm, rq_now = 10\<rparr>"

lemmas sample_api_defs = sample_api_def fixed_def sample_input_def sample_backfill_def sample_dto_def sample_env_def
  acceptable_start_def acceptable_backfill_def acceptable_id_def name_char_def

lemma sample_acceptable: "acceptable_id i \<Longrightarrow> check_start (sample_input i) = None"
  by (simp add: check_start_iff acceptable_start_def sample_input_def sample_dto_def)

lemma sample_checked:
  "handleStartMatchmaking toy_deps sample_api sample_env ''x'' toy_service =
     start_result toy_deps sample_env (sample_input ''a'') toy_service"
proof -
  have "check_start (sample_input ''a'') = None"
    by (rule sample_acceptable) (simp add: acceptable_id_def name_char_def)
  then show ?thesis
    by (auto simp: handleStartMatchmaking_def with_input_def decodeJSON_def sample_api_def fixed_def
        start_result_def show_ticket_def split: prod.split sum.split)
qed

theorem requests_checked_witness:
  "handleStartMatchmaking toy_deps sample_api sample_env ''x'' toy_service =
     start_result toy_deps sample_env (sample_input ''a'') toy_service \<and>
   rejected (handleStartMatchBackfill toy_deps sample_api sample_env ''x'' toy_service) toy_service"
proof -
  have "dc_strict (ap_Start sample_api) ''x'' = Decoded_strictly (sample_input ''a'')"
    "dc_strict (ap_Backfill sample_api) ''x'' = Decoded_strictly sample_backfill"
    "acceptable_start (sample_input ''a'')" "\<not> acceptable_backfill sample_backfill"
    by (simp_all add: sample_api_defs)
  with requests_checked [of sample_api "''x''" "sample_input ''a''" "''x''" sample_backfill] show ?thesis by simp
qed

lemma sample_response:
  "\<exists>t e s'. handleStartMatchmaking toy_deps sample_api sample_env ''x'' toy_service = (Inr (TicketStarted t), e, s') \<and>
     ok_ticket t"
proof -
  have v: "list_all valid_utf8 [''a'', ''c'', ''arn:c'', ''QUEUED'', ''p'', ''skill'', ''tags'', ''eu'']"
    by (simp add: valid_ascii)
  note sample_checked
  moreover have "\<exists>t e s'. start_result toy_deps sample_env (sample_input ''a'') toy_service =
      (Inr (TicketStarted t), e, s') \<and> ok_ticket t"
    using v by (simp add: start_result_def start_command_def sample_input_def playersFromDTO_def sample_env_def
        sample_dto_def ticketToDTO_def playersToDTO_def attributesFromDTO_def attributesToDTO_def
        attribute_from_def attribute_to_def no_attribute_def List.map_filter_def ok_ticket_def ok_player_def
        ok_attribute_def is_finite_def run_defs)
  ultimately show ?thesis by simp
qed


theorem players_round_trip_witness:
  "map py_PlayerAttributes (mt_Players (ticketToDTO ((sv_heap toy_service 0)\<lparr>tk_players := playersFromDTO [sample_dto ''p'']\<rparr>))) =
     [py_PlayerAttributes (sample_dto ''p'')]"
  by (subst players_round_trip [where ps = "[sample_dto ''p'']"])
     (simp_all add: sample_dto_def one_member_def no_attribute_def)

definition sample_started :: "string \<Rightarrow> toy service \<Rightarrow> toy service" where
  "sample_started i s = snd (snd (Start_locked toy_deps None 10 ''c'' (start_command (sample_input i)) s))"

lemma sample_started_reachable:
  assumes "api_reachable toy_deps ids s" and "acceptable_id i"
  shows "api_reachable toy_deps ids (sample_started i s)"
proof -
  have c: "check_start (sample_input i) = None" using assms(2) by (rule sample_acceptable)
  obtain x evs s' where r: "Start_locked toy_deps None 10 ''c'' (start_command (sample_input i)) s = (x, evs, s')"
    by (metis prod_cases3)
  then have "sample_started i s = s'" by (simp add: sample_started_def)
  with api_more [OF assms(1) api_start [OF c r]] show ?thesis by simp
qed

lemma sequence_pattern: "ticketIDPattern (ig_seq (NewSequence ''t-'') k)"
proof -
  have "\<forall>c\<in>set (nat_digits n). name_char c" for n
    using nat_digits_digits [of n] by (auto simp: is_digit_def name_char_def)
  then show ?thesis by (simp add: NewSequence_def sequence_id_def ticketIDPattern_def list_all_iff name_char_def)
qed

theorem api_rosters_identified_witness:
  "proposalKey [''a'', ''b''] = proposalKey [''b'', ''a''] \<and> proposalKey [''a'', ''b''] \<noteq> proposalKey [''a'']"
proof -
  let ?s = "sample_started ''b'' (sample_started ''a'' toy_service)"
  have "api_reachable toy_deps (NewSequence ''t-'') toy_service"
    unfolding toy_service_def by (rule api_begin)
  then have reach: "api_reachable toy_deps (NewSequence ''t-'') ?s"
    by (intro sample_started_reachable) (simp_all add: acceptable_id_def name_char_def)
  have "sv_tickets ?s ''a'' \<noteq> None" "sv_tickets ?s ''b'' \<noteq> None"
    by (simp_all add: sample_started_def start_command_def sample_input_def playersFromDTO_def run_defs)
  then have "set [''a'', ''b''] \<subseteq> dom (sv_tickets ?s)" "set [''b'', ''a''] \<subseteq> dom (sv_tickets ?s)"
    "set [''a''] \<subseteq> dom (sv_tickets ?s)" by auto
  with api_rosters_identified [OF reach, of "[''a'', ''b'']" "[''b'', ''a'']"]
    api_rosters_identified [OF reach, of "[''a'', ''b'']" "[''a'']"] sequence_pattern
  show ?thesis by simp
qed

end
