(* ===== verification/Web_Ui.thy ===== *)
theory Web_Ui
  imports Service_Store
begin

text \<open>
  The operator's pages (\<open>internal/interfaces/webui/server.go\<close>): the data each handler reads from the
  service and gives to its template. The templates are in \<open>Web_Pages\<close>, the routes in \<open>Http_Server\<close>; the
  text of an instant in the server's time zone is the argument \<open>fmt\<close>.
\<close>

record index_view =
  ix_Region :: string
  ix_AccountID :: string

definition handleIndex :: "string \<Rightarrow> string \<Rightarrow> index_view" where
  "handleIndex region account = \<lparr>ix_Region = region, ix_AccountID = account\<rparr>"

definition handleRuleSets :: "'e service \<Rightarrow> string list" where
  "handleRuleSets s = map rs_Name (ListRuleSets s)"

record ruleset_view =
  rv_Name :: ruleset_name
  rv_Body :: string

text \<open>\<open>None\<close> is the answer 404.\<close>

definition handleRuleSet :: "ruleset_name \<Rightarrow> 'e service \<Rightarrow> ruleset_view option" where
  "handleRuleSet name s =
     (case GetRuleSet name s of
        Inl e \<Rightarrow> None
      | Inr rs \<Rightarrow> Some \<lparr>rv_Name = rs_Name rs, rv_Body = rs_Body rs\<rparr>)"

record pool_row =
  pr_Name :: string
  pr_RuleSetName :: string
  pr_Active :: nat

definition handlePools :: "'e service \<Rightarrow> pool_row list" where
  "handlePools s =
     map (\<lambda>c. \<lparr>pr_Name = cfg_Name c, pr_RuleSetName = cfg_RuleSetName c,
       pr_Active = ActiveTicketCountByConfiguration (cfg_Name c) s\<rparr>) (ListConfigurations s)"

record pool_ticket_row =
  pt_TicketID :: string
  pt_Status :: string
  pt_Backfill :: string
  pt_GameSession :: string
  pt_StartTime :: string
  pt_MatchID :: string

definition ticket_row :: "(gotime \<Rightarrow> string) \<Rightarrow> ticket \<Rightarrow> pool_ticket_row" where
  "ticket_row fmt t =
     \<lparr>pt_TicketID = tk_id t, pt_Status = status_string (tk_status t),
      pt_Backfill = (if tk_isBackfill t then ''yes'' else []), pt_GameSession = tk_gameSessionARN t,
      pt_StartTime = fmt (tk_startTime t), pt_MatchID = tk_matchID t\<rparr>"

definition handlePool :: "(gotime \<Rightarrow> string) \<Rightarrow> config_name \<Rightarrow> 'e service \<Rightarrow> pool_ticket_row list" where
  "handlePool fmt name s = map (\<lambda>r. ticket_row fmt (sv_heap s r)) (TicketsByConfiguration name s)"

end
