(* ===== verification/Http_Server.thy ===== *)
theory Http_Server
  imports Api_System Web_Ui
begin

text \<open>
  The two HTTP servers as functions of a request: the routes of \<open>Handler\<close> in \<open>awsapi/server.go\<close> and
  \<open>webui/server.go\<close> with the handlers behind them. \<open>net/http\<close>'s mux chooses the most specific pattern
  of the method and the path, a GET pattern also serves HEAD, and a path with patterns of other
  methods only is answered with 405.
\<close>

section \<open>Requests\<close>

text \<open>
  The segments of a clean path, decoded, and whether it ends with a slash; the root is no segment and
  a slash. The mux redirects a path that is not clean before any handler runs. \<open>hq_Body\<close> is the body
  or the error of reading it.
\<close>

record server_request =
  hq_Method :: string
  hq_Segments :: "string list"
  hq_Slash :: bool
  hq_Target :: string
  hq_Body :: "string + string"

definition is_get :: "server_request \<Rightarrow> bool" where
  "is_get req \<longleftrightarrow> hq_Method req = ''GET'' \<or> hq_Method req = ''HEAD''"

section \<open>The AWS API\<close>

datatype api_answer = ApiAnswer http_response | HealthOk | ApiMethodNotAllowed

fun operation_action :: "server_request \<Rightarrow> string option" where
  "operation_action req =
     (case hq_Segments req of
        [a, b, c, action] \<Rightarrow>
          if a = ''service'' \<and> b = ''GameLift'' \<and> c = ''operation'' \<and> \<not> hq_Slash req then Some action else None
      | _ \<Rightarrow> None)"

definition ApiHandler ::
  "'e deps \<Rightarrow> api \<Rightarrow> request_env \<Rightarrow> server_request \<Rightarrow> 'e service \<Rightarrow>
     api_answer \<times> recorded_event list \<times> 'e service" where
  "ApiHandler d ap env req s =
     (if hq_Method req = ''POST''
      then (let (resp, evs, s) =
              (case operation_action req of
                 Some action \<Rightarrow> dispatchCBOR d ap env action (hq_Body req) s
               | None \<Rightarrow> dispatch d ap env (hq_Target req) (hq_Body req) s)
            in (ApiAnswer resp, evs, s))
      else if is_get req \<and> hq_Segments req = [''healthz''] \<and> \<not> hq_Slash req then (HealthOk, [], s)
      else (ApiMethodNotAllowed, [], s))"

section \<open>The operator's pages\<close>

datatype web_answer =
    IndexPage index_view
  | RuleSetsPage "string list"
  | RuleSetPage ruleset_view
  | PoolsPage "pool_row list"
  | PoolPage config_name "pool_ticket_row list"
  | WebNotFound
  | WebMethodNotAllowed

record web_options =
  wo_Region :: string
  wo_AccountID :: string

text \<open>The page of a path, if a pattern has it.\<close>

definition web_page :: "(gotime \<Rightarrow> string) \<Rightarrow> web_options \<Rightarrow> server_request \<Rightarrow> 'e service \<Rightarrow> web_answer option" where
  "web_page fmt opts req s =
     (case hq_Segments req of
        [] \<Rightarrow> Some (IndexPage (handleIndex (wo_Region opts) (wo_AccountID opts)))
      | [a] \<Rightarrow>
          if hq_Slash req then None
          else if a = ''rulesets'' then Some (RuleSetsPage (handleRuleSets s))
          else if a = ''pools'' then Some (PoolsPage (handlePools s))
          else None
      | [a, name] \<Rightarrow>
          if hq_Slash req then None
          else if a = ''rulesets'' then
            Some (case handleRuleSet name s of None \<Rightarrow> WebNotFound | Some v \<Rightarrow> RuleSetPage v)
          else if a = ''pools'' then Some (PoolPage name (handlePool fmt name s))
          else None
      | _ \<Rightarrow> None)"

definition WebHandler :: "(gotime \<Rightarrow> string) \<Rightarrow> web_options \<Rightarrow> server_request \<Rightarrow> 'e service \<Rightarrow> web_answer" where
  "WebHandler fmt opts req s =
     (case web_page fmt opts req s of
        None \<Rightarrow> WebNotFound
      | Some page \<Rightarrow> if is_get req then page else WebMethodNotAllowed)"

section \<open>Statuses\<close>

fun answer_status :: "api_answer \<Rightarrow> int" where
  "answer_status (ApiAnswer r) = hr_Status r"
| "answer_status HealthOk = 200"
| "answer_status ApiMethodNotAllowed = 405"

lemmas api_error_defs = newInvalidRequest_def newNotFound_def newUnknownOperation_def newInternal_def

lemma error_statuses [simp]:
  "error_status (newInvalidRequest m) = 400" "error_status (newNotFound m) = 400"
  "error_status (newUnknownOperation m) = 400" "error_status (newInternal m) = 500"
  by (simp_all add: error_status_def api_error_defs)

lemma translated_status: "translateDomainError e = Some m \<Longrightarrow> error_status m \<in> {400, 500}"
  by (auto simp: translateDomainError_def split: option.splits if_splits)

lemma with_input_status:
  "with_input dc zero check run body s = (Inl (ApiFailure e), evs, s') \<Longrightarrow> error_status e = 400"
  by (auto simp: with_input_def decodeJSON_def split: sum.splits option.splits prod.splits if_splits strict.splits)

lemma handlers_status:
  assumes "map_of handlers action = Some h" and "h d ap env body s = (Inl (ApiFailure e), evs, s')"
  shows "error_status e = 400"
proof -
  have "h \<in> snd ` set handlers" using map_of_SomeD [OF assms(1)] by force
  then show ?thesis
    using assms(2)
    by (auto simp: handlers_def handleStartMatchmaking_def handleStartMatchBackfill_def handleStopMatchmaking_def
        handleAcceptMatch_def handleDescribeMatchmaking_def handleDescribeConfigurations_def
        handleDescribeRuleSets_def handleValidateRuleSet_def dest: with_input_status)
qed

definition api_statuses :: "int set" where
  "api_statuses = {200, 400, 500}"

text \<open>Whatever the format, an answer has status 200, 400 or 500.\<close>

definition plain_format :: "wire_format \<Rightarrow> bool" where
  "plain_format f \<longleftrightarrow> (\<forall>e. hr_Status (wf_writeErr f e) = error_status e) \<and> (\<forall>r. hr_Status (wf_writeOK f r) = 200)"

lemma formats_plain: "plain_format jsonFormat" "plain_format cborFormat"
  by (simp_all add: plain_format_def jsonFormat_def cborFormat_def)

lemma serve_status:
  fixes d :: "'e deps"
  assumes "plain_format f" and "serve d ap f env action body s = (resp, evs, s')"
  shows "hr_Status resp \<in> api_statuses"
proof (cases "map_of (handlers :: (string \<times> 'e handler) list) action")
  case None
  with assms show ?thesis by (auto simp: serve_def plain_format_def api_statuses_def)
next
  case (Some h)
  obtain x e t where h: "h d ap env body s = (x, e, t)" by (metis prod_cases3)
  show ?thesis
  proof (cases x)
    case (Inr r)
    with assms Some h show ?thesis by (auto simp: serve_def plain_format_def api_statuses_def)
  next
    case (Inl failure)
    then show ?thesis
      using assms Some h handlers_status [OF Some] translated_status
      by (cases failure) (fastforce simp: serve_def plain_format_def api_statuses_def split: option.splits)+
  qed
qed

lemma dispatch_status:
  "dispatch d ap env target rd s = (resp, evs, s') \<Longrightarrow> hr_Status resp \<in> api_statuses"
  "dispatchCBOR d ap env action rd s = (resp, evs, s') \<Longrightarrow> hr_Status resp \<in> api_statuses"
proof -
  have refused: "hr_Status (wf_writeErr f (newInvalidRequest m)) \<in> api_statuses"
    if "f = jsonFormat \<or> f = cborFormat" for f m
    using formats_plain that by (auto simp: plain_format_def api_statuses_def)
  note j = serve_status [OF formats_plain(1)] and c = serve_status [OF formats_plain(2)]
  show "dispatch d ap env target rd s = (resp, evs, s') \<Longrightarrow> hr_Status resp \<in> api_statuses"
    using refused by (auto simp: dispatch_def dest: j split: if_splits sum.splits)
  show "dispatchCBOR d ap env action rd s = (resp, evs, s') \<Longrightarrow> hr_Status resp \<in> api_statuses"
    using refused by (auto simp: dispatchCBOR_def dest: c split: if_splits sum.splits)
qed

text \<open>A request to the API is at most one step of the service, and none unless it is a POST.\<close>

lemma ApiHandler_step:
  assumes "ApiHandler d ap env req s = (a, evs, s')"
  shows "at_most_api_step d s evs s'" "hq_Method req \<noteq> ''POST'' \<Longrightarrow> evs = [] \<and> s' = s"
    "answer_status a \<in> insert 405 api_statuses" "hq_Method req = ''POST'' \<Longrightarrow> answer_status a \<in> api_statuses"
  using assms
  by (auto simp: ApiHandler_def at_most_api_step_def api_statuses_def Let_def
      dest: dispatch_api dispatch_status [unfolded api_statuses_def]
      simp del: operation_action.simps split: if_splits prod.splits option.splits)

end
