(* ===== verification/Http_Props.thy ===== *)
theory Http_Props
  imports Http_Server Api_Props
begin

text \<open>What any HTTP request to the API server can do.\<close>


definition sample_request :: server_request where
  "sample_request = \<lparr>hq_Method = ''POST'', hq_Segments = [], hq_Slash = True,
     hq_Target = ''GameLift.StartMatchmaking'', hq_Body = Inr ''x''\<rparr>"


end
