(* ===== verification/Ticker.thy ===== *)
theory Ticker
  imports Service_System
begin

text \<open>
  The ticker (\<open>internal/app/matchmaking/ticker.go\<close>): every interval it ticks all configurations in
  goroutines of their own, logs what fails, and waits for all of them before the next interval.
\<close>

text \<open>The period of the ticker, with its default.\<close>

definition tick_interval :: "duration \<Rightarrow> duration" where
  "tick_interval interval = (if interval \<le> 0 then second else interval)"

text \<open>
  One round. \<open>ns\<close> are the configurations whose goroutine has not run yet: the scheduler picks any
  of them, and the API's commands run in between. The trace lists the ticks in the order they
  got the lock, with their results and events; a round ends when no goroutine is left.
\<close>

type_synonym tick_record = "config_name \<times> (err + unit) \<times> recorded_event list"

inductive ticker_round ::
  "'e deps \<Rightarrow> config_name list \<Rightarrow> 'e service \<Rightarrow> tick_record list \<Rightarrow> 'e service \<Rightarrow> bool"
  for d :: "'e deps" where
  round_over: "ticker_round d [] s [] s"
| round_tick: "n \<in> set ns \<Longrightarrow> Tick d env now n s = (x, evs, t) \<Longrightarrow> ticker_round d (remove1 n ns) t tr u \<Longrightarrow>
    ticker_round d ns s ((n, x, evs) # tr) u"
| round_other: "service_step d s evs t \<Longrightarrow> ticker_round d ns t tr u \<Longrightarrow> ticker_round d ns s tr u"

inductive_simps ticker_round_none: "ticker_round d [] s tr u"

lemma Tick_reachable:
  assumes "service_reachable d s" and "Tick d env now n s = (x, evs, t)"
  shows "service_reachable d t"
  using command_reachable(5) [OF assms(1), of env now n] assms(2) by simp

lemma round_reachable:
  "ticker_round d ns s tr u \<Longrightarrow> service_reachable d s \<Longrightarrow> service_reachable d u"
  by (induction rule: ticker_round.induct) (auto intro: Tick_reachable reachable_step)

lemma round_ticks_each: "ticker_round d ns s tr u \<Longrightarrow> mset (map fst tr) = mset ns"
proof (induction rule: ticker_round.induct)
  case (round_tick n ns env now s x evs t tr u)
  then show ?case by simp
qed simp_all

text \<open>Whatever the scheduler's order, a round can be run to its end: a tick always returns.\<close>

lemma round_any_order:
  "mset ms = mset ns \<Longrightarrow> \<exists>tr u. ticker_round d ns s tr u \<and> map fst tr = ms"
proof (induction ms arbitrary: ns s)
  case Nil
  then show ?case using round_over by force
next
  case (Cons n ms)
  have n: "n \<in> set ns" using mset_eq_setD [OF Cons.prems] by auto
  obtain x evs t where t: "Tick d env now n s = (x, evs, t)" by (metis prod_cases3)
  have "mset ms = mset (remove1 n ns)" by (simp flip: Cons.prems)
  then obtain tr u where "ticker_round d (remove1 n ns) t tr u" "map fst tr = ms"
    using Cons.IH by blast
  then show ?case using round_tick [OF n t] by fastforce
qed

end
