(* ===== verification/Surface_Props.thy ===== *)
theory Surface_Props
  imports Web_Ui Ticker Sample_World
begin

text \<open>
  What the operator's pages show of a reachable service, and what a round of the ticker does.
\<close>

section \<open>Pages\<close>

lemma map_sort_key: "map f (sort_key f xs) = sort (map f xs)"
  by (rule properties_for_sort [symmetric]) simp_all

lemma byConfig_entry:
  assumes "maps_ok s"
  shows "(i, r) \<in> set (sv_byConfig s n) \<longleftrightarrow> sv_tickets s i = Some r \<and> cfg_of s r = n"
proof -
  note m = maps_okD [OF assms]
  have "(i, r) \<in> set (sv_byConfig s n) \<longleftrightarrow> configTicket s n i = Some r"
    using m(6) [of n] by (simp add: configTicket_def)
  then show ?thesis using m(3,4,5) by blast
qed

lemma page_ids:
  assumes "maps_ok s"
  shows "map (\<lambda>r. tk_id (sv_heap s r)) (TicketsByConfiguration n s) = sort (map fst (sv_byConfig s n))"
proof -
  have "tk_id (sv_heap s r) = i" if "(i, r) \<in> set (sv_byConfig s n)" for i r
    using that by (simp add: byConfig_entry [OF assms] maps_okD(2) [OF assms])
  then have "map (\<lambda>r. tk_id (sv_heap s r)) (map snd (sv_byConfig s n)) = map fst (sv_byConfig s n)"
    by (auto intro: map_cong)
  then show ?thesis by (simp only: TicketsByConfiguration_def map_sort_key)
qed

lemma page_tickets:
  assumes "maps_ok s"
  shows "set (TicketsByConfiguration n s) = {r. \<exists>i. sv_tickets s i = Some r \<and> cfg_of s r = n}"
proof -
  have "r \<in> set (TicketsByConfiguration n s) \<longleftrightarrow> (\<exists>i. (i, r) \<in> set (sv_byConfig s n))" for r
    by (force simp: TicketsByConfiguration_def)
  then show ?thesis by (auto simp: byConfig_entry [OF assms])
qed

lemma page_active:
  assumes "store_inv {} s"
  shows "length (filter (active_ref s) (TicketsByConfiguration n s)) = ActiveTicketCountByConfiguration n s"
proof -
  let ?id = "\<lambda>r. tk_id (sv_heap s r)"
  let ?live = "filter (active_ref s) (TicketsByConfiguration n s)"
  have maps: "maps_ok s" and index: "index_ok {} s" using assms by (simp_all add: store_inv_def)
  have "distinct (map ?id (TicketsByConfiguration n s))"
    using maps_okD(6) [OF maps, of n] by (simp add: page_ids [OF maps])
  then have "distinct (map ?id ?live)" by (rule distinct_map_filter)
  moreover have "set (map ?id ?live) = set (sv_active s n)"
    using maps_okD(2) [OF maps] by (force simp: page_tickets [OF maps] active_exact [OF assms])
  ultimately have "length (map ?id ?live) = length (sv_active s n)"
    by (metis index_okD(1) [OF index] distinct_card)
  then show ?thesis by (simp add: ActiveTicketCountByConfiguration_def)
qed

text \<open>
  The pages agree with the service and with each other: in every reachable service a pool's page
  has one row per ticket of its configuration, sorted by identifier, showing that ticket; and the
  number of active tickets on the overview is the number of rows of the pool's page whose ticket
  is not terminal.
\<close>

theorem pool_pages_agree:
  assumes "service_reachable d s"
  shows "sorted (map pt_TicketID (handlePool fmt n s)) \<and>
    distinct (map pt_TicketID (handlePool fmt n s)) \<and>
    set (handlePool fmt n s) =
      {ticket_row fmt (sv_heap s r) | r. sv_tickets s (tk_id (sv_heap s r)) = Some r \<and> cfg_of s r = n} \<and>
    map (\<lambda>row. (pr_Name row, pr_Active row)) (handlePools s) =
      map (\<lambda>c. (cfg_Name c, length (filter (\<lambda>r. IsActive (tk_status (sv_heap s r)))
        (TicketsByConfiguration (cfg_Name c) s)))) (ListConfigurations s)"
proof -
  have inv: "store_inv {} s" using service_reachable_inv [OF assms] by (simp add: svc_inv_def)
  then have maps: "maps_ok s" by (simp add: store_inv_def)
  have ids: "map pt_TicketID (handlePool fmt n s) = sort (map fst (sv_byConfig s n))"
    by (simp add: handlePool_def ticket_row_def comp_def page_ids [OF maps])
  moreover have "set (handlePool fmt n s) =
      {ticket_row fmt (sv_heap s r) | r. sv_tickets s (tk_id (sv_heap s r)) = Some r \<and> cfg_of s r = n}"
    using maps_okD(2) [OF maps] by (auto simp: handlePool_def page_tickets [OF maps])
  moreover have "length (filter (\<lambda>r. IsActive (tk_status (sv_heap s r))) (TicketsByConfiguration m s)) =
      ActiveTicketCountByConfiguration m s" for m
    using page_active [OF inv, of m] by (simp add: active_ref_def [abs_def])
  ultimately show ?thesis
    using maps_okD(6) [OF maps, of n] by (simp add: handlePools_def)
qed

theorem pool_pages_agree_witness:
  "map pr_Active (handlePools toy_pool) = [2] \<and> map pt_TicketID (handlePool (\<lambda>_. []) ''c'' toy_pool) = [''a'', ''b'']"
proof -
  note all = pool_pages_agree [OF toy_pool_reachable, of "\<lambda>_. []" "''c''"]
  have "map (\<lambda>row. (pr_Name row, pr_Active row)) (handlePools toy_pool) = [(''c'', 2)]"
    using all by (simp add: ListConfigurations_def TicketsByConfiguration_def run_defs)
  moreover have "map pt_TicketID (handlePool (\<lambda>_. []) ''c'' toy_pool) = [''a'', ''b'']"
    using all by (simp add: handlePool_def ticket_row_def TicketsByConfiguration_def run_defs)
  ultimately show ?thesis by (auto simp: map_eq_Cons_conv)
qed

section \<open>The ticker\<close>

text \<open>
  A round of the ticker ticks every configuration exactly once, whichever order the scheduler
  picks, whatever the API does in between and however many of the ticks fail, and leaves a
  reachable service; every order can be run to its end. The ticker's period is positive.
\<close>

theorem ticker_round_complete:
  assumes "service_reachable d s" and "mset ms = mset ns"
  shows "(\<exists>tr u. ticker_round d ns s tr u \<and> map fst tr = ms) \<and>
    {(mset (map fst tr), u) | tr u. ticker_round d ns s tr u} \<subseteq> {mset ns} \<times> Collect (service_reachable d) \<and>
    0 < tick_interval interval"
proof (intro conjI)
  show "\<exists>tr u. ticker_round d ns s tr u \<and> map fst tr = ms" by (rule round_any_order [OF assms(2)])
  have "mset (map fst tr) = mset ns \<and> service_reachable d u" if "ticker_round d ns s tr u" for tr u
    using that round_ticks_each round_reachable assms(1) by blast
  then show "{(mset (map fst tr), u) | tr u. ticker_round d ns s tr u} \<subseteq> {mset ns} \<times> Collect (service_reachable d)"
    by auto
  show "0 < tick_interval interval" by (simp add: tick_interval_def second_def)
qed

theorem ticker_round_complete_witness:
  "\<exists>tr u. ticker_round toy_deps [''x'', ''c''] toy_pool tr u \<and> map fst tr = [''c'', ''x''] \<and> service_reachable toy_deps u"
 proof -
  obtain tr u where tr: "ticker_round toy_deps [''x'', ''c''] toy_pool tr u" "map fst tr = [''c'', ''x'']"
    using conjunct1 [OF ticker_round_complete [OF toy_pool_reachable, of "[''c'', ''x'']" "[''x'', ''c'']"]] by auto
  from tr round_reachable [OF tr(1) toy_pool_reachable] show ?thesis by (intro exI conjI)
qed

end
