(* ===== verification/Board.thy ===== *)
theory Board
  imports Change_Laws
begin

text \<open>
  The service as its clients see it, in the abstract: a board of entries under their identifiers,
  to which a queued entry can be added, on which an entry that is not terminal can move, and from
  which a terminal entry can be dropped. Every step of the service is a sequence of such steps.
\<close>

section \<open>The board\<close>

text \<open>What a ticket promises its clients: the request it came from, its status and its end.\<close>

record entry =
  en_config :: config_name
  en_players :: "player list"
  en_backfill :: bool
  en_session :: string
  en_start :: gotime
  en_status :: ticket_status
  en_end :: gotime

type_synonym board = "ticket_id \<Rightarrow> entry option"

definition same_request :: "entry \<Rightarrow> entry \<Rightarrow> bool" where
  "same_request e e' \<longleftrightarrow> en_config e' = en_config e \<and> en_players e' = en_players e \<and>
     en_backfill e' = en_backfill e \<and> en_session e' = en_session e \<and> en_start e' = en_start e"

text \<open>Two entries compete when they are live backfill requests of one game session.\<close>

definition competing :: "entry \<Rightarrow> entry \<Rightarrow> bool" where
  "competing e e' \<longleftrightarrow> en_backfill e \<and> en_backfill e' \<and> en_config e = en_config e' \<and>
     en_session e = en_session e' \<and> en_session e \<noteq> [] \<and> IsActive (en_status e) \<and> IsActive (en_status e')"

text \<open>What a start or a backfill puts on the board.\<close>

definition fresh :: "config_name set \<Rightarrow> ticket_id \<Rightarrow> entry \<Rightarrow> bool" where
  "fresh C i e \<longleftrightarrow> i \<noteq> [] \<and> en_players e \<noteq> [] \<and> en_config e \<in> C \<and> en_status e = StatusQueued"

inductive board_step :: "config_name set \<Rightarrow> board \<Rightarrow> board \<Rightarrow> bool" for C :: "config_name set" where
  board_add: "b i = None \<Longrightarrow> fresh C i e \<Longrightarrow>
    \<forall>j e'. b j = Some e' \<longrightarrow> \<not> competing e' e \<Longrightarrow> board_step C b (b(i \<mapsto> e))"
| board_move: "b i = Some e \<Longrightarrow> IsActive (en_status e) \<Longrightarrow> same_request e e' \<Longrightarrow>
    (en_status e' = StatusQueued \<longrightarrow> en_status e = StatusQueued) \<Longrightarrow> board_step C b (b(i \<mapsto> e'))"
| board_drop: "b i = Some e \<Longrightarrow> IsTerminal (en_status e) \<Longrightarrow> board_step C b (b(i := None))"

abbreviation board_steps :: "config_name set \<Rightarrow> board \<Rightarrow> board \<Rightarrow> bool" where
  "board_steps C \<equiv> (board_step C)\<^sup>*\<^sup>*"

text \<open>What the board guarantees: entries are requests of known configurations, and none compete.\<close>

definition exclusive :: "board \<Rightarrow> bool" where
  "exclusive b \<longleftrightarrow> (\<forall>i j e e'. b i = Some e \<longrightarrow> b j = Some e' \<longrightarrow> competing e e' \<longrightarrow> i = j)"

definition board_ok :: "config_name set \<Rightarrow> board \<Rightarrow> bool" where
  "board_ok C b \<longleftrightarrow> exclusive b \<and>
     (\<forall>i e. b i = Some e \<longrightarrow> i \<noteq> [] \<and> en_players e \<noteq> [] \<and> en_config e \<in> C)"

lemma competing_sym: "competing e e' \<Longrightarrow> competing e' e"
  by (auto simp: competing_def)

lemma competing_move: "same_request e e' \<Longrightarrow> IsActive (en_status e) \<Longrightarrow> competing e' x \<Longrightarrow> competing e x"
  by (auto simp: competing_def same_request_def)

lemma board_step_ok: "board_step C b b' \<Longrightarrow> board_ok C b \<Longrightarrow> board_ok C b'"
proof (induction rule: board_step.induct)
  case (board_add b i e)
  then show ?case unfolding board_ok_def exclusive_def fresh_def by (auto dest: competing_sym split: if_splits)
next
  case (board_move b i e e')
  then have "competing e' x \<Longrightarrow> competing e x" "competing x e' \<Longrightarrow> competing x e" for x
    using competing_move competing_sym by blast+
  with board_move show ?case unfolding board_ok_def exclusive_def by (auto simp: same_request_def split: if_splits)
next
  case (board_drop b i e)
  then show ?case unfolding board_ok_def exclusive_def by (auto split: if_splits)
qed

lemma board_steps_ok: "board_steps C b b' \<Longrightarrow> board_ok C b \<Longrightarrow> board_ok C b'"
  by (induction rule: rtranclp_induct) (auto intro: board_step_ok)

section \<open>Many entries at once\<close>

text \<open>One entry can become another in at most one move.\<close>

definition evolves :: "entry \<Rightarrow> entry \<Rightarrow> bool" where
  "evolves e e' \<longleftrightarrow> same_request e e' \<and>
     (IsTerminal (en_status e) \<longrightarrow> en_status e' = en_status e \<and> en_end e' = en_end e) \<and>
     (en_status e' = StatusQueued \<longrightarrow> en_status e = StatusQueued)"

lemma evolves_steps:
  assumes "b i = Some e" and "evolves e e'"
  shows "board_steps C b (b(i \<mapsto> e'))"
proof (cases "IsTerminal (en_status e)")
  case True
  then have "e' = e" using assms(2) by (intro entry.equality) (auto simp: evolves_def same_request_def)
  with assms(1) show ?thesis by (simp add: fun_upd_idem)
next
  case False
  then have "board_step C b (b(i \<mapsto> e'))"
    using assms by (intro board_move) (auto simp: evolves_def IsActive_def)
  then show ?thesis by blast
qed

text \<open>\<open>follows b b'\<close>: what became of the entries of \<open>b\<close>.\<close>

definition follows :: "board \<Rightarrow> board \<Rightarrow> bool" where
  "follows b b' \<longleftrightarrow> (\<forall>i e. b i = Some e \<longrightarrow>
     (\<exists>e'. evolves e e' \<and> (b' i = Some e' \<or> b' i = None \<and> IsTerminal (en_status e'))))"

lemma follow_one:
  assumes "follows b0 b'" and "b0 i = Some e" and "b i = Some e"
  shows "board_steps C b (b(i := b' i))"
proof -
  obtain e' where e': "evolves e e'" "b' i = Some e' \<or> b' i = None \<and> IsTerminal (en_status e')"
    using assms(1,2) by (auto simp: follows_def)
  have move: "board_steps C b (b(i \<mapsto> e'))" using assms(3) e'(1) by (rule evolves_steps)
  have "board_step C (b(i \<mapsto> e')) ((b(i \<mapsto> e'))(i := None))" if "IsTerminal (en_status e')"
    by (rule board_drop) (use that in auto)
  then show ?thesis using e'(2) move by (auto intro: rtranclp.rtrancl_into_rtrancl)
qed

lemma follow_steps:
  assumes "follows b b'" and "finite A" and "A \<subseteq> dom b"
  shows "board_steps C b (override_on b b' A)"
  using assms(2,3)
proof (induction rule: finite_induct)
  case (insert i A)
  let ?m = "override_on b b' A"
  obtain e where "b i = Some e" using insert.prems by auto
  then have "board_steps C ?m (?m(i := b' i))"
    using insert.hyps by (intro follow_one [OF assms(1)]) auto
  moreover have "override_on b b' (insert i A) = ?m(i := b' i)" by (auto simp: override_on_def)
  moreover have "board_steps C b ?m" using insert by blast
  ultimately show ?case by (metis rtranclp_trans)
qed simp

lemma add_steps:
  assumes "exclusive b'" and "finite A" and "\<forall>i\<in>A. b i = None \<and> (\<exists>e. b' i = Some e \<and> fresh C i e)"
    and "\<And>i e. b i = Some e \<Longrightarrow> b' i = Some e"
  shows "board_steps C b (override_on b b' A)"
  using assms(2,3)
proof (induction rule: finite_induct)
  case (insert i A)
  let ?m = "override_on b b' A"
  obtain e where e: "b' i = Some e" "fresh C i e" "b i = None" using insert.prems by auto
  have sub: "b' j = Some e'" if "?m j = Some e'" for j e'
    using that assms(4) by (auto simp: override_on_def split: if_splits)
  have "?m i = None" using e(3) insert.hyps by simp
  moreover have "\<not> competing e' e" if "?m j = Some e'" for j e'
    using assms(1) sub [OF that] e(1) that \<open>?m i = None\<close> unfolding exclusive_def by fastforce
  ultimately have "board_step C ?m (?m(i \<mapsto> e))"
    using e(2) by (intro board_add) auto
  moreover have "override_on b b' (insert i A) = ?m(i \<mapsto> e)" using e(1) by (auto simp: override_on_def)
  moreover have "board_steps C b ?m" using insert by blast
  ultimately show ?case by (metis rtranclp.rtrancl_into_rtrancl)
qed simp

text \<open>Old entries first, then the new ones.\<close>

lemma board_simulates:
  assumes "finite (dom b)" and "finite (dom b')" and "follows b b'" and "exclusive b'"
    and "\<And>i e. b i = None \<Longrightarrow> b' i = Some e \<Longrightarrow> fresh C i e"
  shows "board_steps C b b'"
proof -
  let ?old = "override_on b b' (dom b)"
  have old: "?old i = (if b i = None then None else b' i)" for i by (auto simp: override_on_def)
  let ?new = "override_on ?old b' (dom b' - dom b)"
  have "board_steps C b ?old" by (rule follow_steps [OF assms(3,1) subset_refl])
  moreover have "board_steps C ?old ?new"
    by (rule add_steps [OF assms(4)]) (use assms(2,5) old in \<open>auto split: if_splits\<close>)
  moreover have "?new = b'" by (rule ext) (auto simp: override_on_def domIff)
  ultimately show ?thesis by (metis rtranclp_trans)
qed

section \<open>The board of a service\<close>

definition entry_of :: "ticket \<Rightarrow> entry" where
  "entry_of t = \<lparr>en_config = tk_configurationName t, en_players = tk_players t, en_backfill = tk_isBackfill t,
     en_session = tk_gameSessionARN t, en_start = tk_startTime t, en_status = tk_status t,
     en_end = tk_endTime t\<rparr>"

definition board_of :: "'e service \<Rightarrow> board" where
  "board_of s i = map_option (\<lambda>r. entry_of (sv_heap s r)) (sv_tickets s i)"

definition configured :: "'e service \<Rightarrow> config_name set" where
  "configured s = {cfg_Name cfg |n cfg. GetConfiguration n s = Inr cfg}"

lemma entry_of_simps [simp]:
  "en_status (entry_of t) = tk_status t" "en_end (entry_of t) = tk_endTime t"
  "en_players (entry_of t) = tk_players t" "en_config (entry_of t) = tk_configurationName t"
  by (simp_all add: entry_of_def)

lemma dom_board_of: "dom (board_of s) = dom (sv_tickets s)"
  by (auto simp: board_of_def)

lemma tickets_finite:
  assumes "maps_ok s"
  shows "finite (dom (sv_tickets s))"
proof (rule finite_subset)
  show "dom (sv_tickets s) \<subseteq> (\<lambda>r. tk_id (sv_heap s r)) ` {..<sv_next s}"
    using maps_okD(1,2) [OF assms] by (auto intro!: rev_image_eqI)
qed simp

lemma ticket_le_evolves: "ticket_le t t' \<Longrightarrow> evolves (entry_of t) (entry_of t')"
  unfolding ticket_le_def same_ident_def evolves_def same_request_def entry_of_def entry.select_convs by blast

lemma competing_entries:
  "competing (entry_of t) (entry_of t') \<longleftrightarrow>
     same_session t t' \<and> IsActive (tk_status t) \<and> IsActive (tk_status t')"
  by (auto simp: competing_def same_session_def entry_of_def)

lemma configured_grow: "svc_grow s s' \<Longrightarrow> configured s' = configured s"
  unfolding svc_grow_def by (elim conjE) (simp only: configured_def GetConfiguration_def)

section \<open>A step of the service\<close>

definition requested :: "config_name set \<Rightarrow> ticket \<Rightarrow> bool" where
  "requested C t \<longleftrightarrow> fresh C (tk_id t) (entry_of t)"

lemma requested_new:
  assumes "GetConfiguration n s = Inr cfg"
  shows "NewTicket i cfg ps now = Inr t \<Longrightarrow> requested (configured s) (t\<lparr>tk_events := []\<rparr>)"
    and "NewBackfillTicket i cfg ps arn now = Inr t \<Longrightarrow> requested (configured s) (t\<lparr>tk_events := []\<rparr>)"
proof -
  have "cfg_Name cfg \<in> configured s" using assms unfolding configured_def by blast
  then show "NewTicket i cfg ps now = Inr t \<Longrightarrow> requested (configured s) (t\<lparr>tk_events := []\<rparr>)"
    "NewBackfillTicket i cfg ps arn now = Inr t \<Longrightarrow> requested (configured s) (t\<lparr>tk_events := []\<rparr>)"
    by (auto simp: requested_def fresh_def entry_of_def NewTicket_def NewBackfillTicket_def newTicket_def
        recordEvent_def split: if_splits)
qed

lemma service_step_changes:
  assumes "svc_inv {} s" and "service_step d s evs s'"
  shows "changes (requested (configured s)) s s'"
  using assms(2)
proof cases
  case (step_start ctx now n cmd x)
  show ?thesis
    by (rule Start_locked_changes [OF assms(1) step_start])
       (rule requested_new)
next
  case (step_backfill ctx now n cmd x)
  show ?thesis
    by (rule Backfill_locked_changes [OF assms(1) step_backfill])
       (rule requested_new)
qed (use assms(1) in \<open>simp_all add: Stop_locked_changes Accept_locked_changes Tick_locked_changes
       changes_same Register_simps\<close>)

lemma board_follows:
  assumes "maps_ok s" and "hext s s'" and "changes Q s s'"
  shows "follows (board_of s) (board_of s')"
  unfolding follows_def
proof (intro allI impI)
  fix i e assume "board_of s i = Some e"
  then obtain r where r: "sv_tickets s i = Some r" "e = entry_of (sv_heap s r)" by (auto simp: board_of_def)
  have below: "r < sv_next s" by (rule maps_okD(1) [OF assms(1) r(1)])
  then have "evolves e (entry_of (sv_heap s' r))"
    using assms(2) r(2) ticket_le_evolves by (simp add: hext_def)
  with changesD(1) [OF assms(3) r(1) below]
  show "\<exists>e'. evolves e e' \<and> (board_of s' i = Some e' \<or> board_of s' i = None \<and> IsTerminal (en_status e'))"
    by (auto simp: board_of_def)
qed

lemma board_exclusive:
  assumes "maps_ok s" and "sessions_ok s"
  shows "exclusive (board_of s)"
  unfolding exclusive_def
proof (intro allI impI)
  fix i j e e' assume a: "board_of s i = Some e" "board_of s j = Some e'" "competing e e'"
  then obtain q r where q: "sv_tickets s i = Some q" "e = entry_of (sv_heap s q)"
    and r: "sv_tickets s j = Some r" "e' = entry_of (sv_heap s r)" by (auto simp: board_of_def)
  have "q = r" using assms(2) q r a(3) by (auto simp: sessions_ok_def competing_entries active_ref_def)
  then show "i = j" using maps_okD(2) [OF assms(1)] q(1) r(1) by blast
qed

lemma service_step_board:
  assumes "service_reachable d s" and "service_step d s evs s'"
  shows "board_steps (configured s) (board_of s) (board_of s')"
proof -
  note inv = conjunct1 [OF service_reachable_inv [OF assms(1)]]
  have reach: "service_reachable d s'" using assms by (rule reachable_step)
  have maps: "maps_ok s" "maps_ok s'"
    using inv service_reachable_inv [OF reach] by (simp_all add: svc_inv_def store_inv_def)
  note ch = service_step_changes [OF inv assms(2)]
  show ?thesis
  proof (rule board_simulates)
    show "follows (board_of s) (board_of s')"
      using board_follows [OF maps(1) _ ch] service_step_keeps [OF assms(2) inv] by (simp add: svc_grow_def)
    show "exclusive (board_of s')" using board_exclusive [OF maps(2)] service_reachable_inv [OF reach] by simp
    show "fresh (configured s) i e" if "board_of s i = None" "board_of s' i = Some e" for i e
      using that changesD(2) [OF ch] maps_okD(2) [OF maps(2)] by (fastforce simp: board_of_def requested_def)
  qed (simp_all add: dom_board_of tickets_finite maps)
qed

lemma service_steps_board:
  assumes "service_reachable d s" and "service_steps d s evs s'"
  shows "board_steps (configured s) (board_of s) (board_of s') \<and> configured s' = configured s \<and> service_reachable d s'"
  using assms(2,1)
proof (induction rule: service_steps.induct)
  case (steps_more s evs t evs' u)
  then have IH: "board_steps (configured s) (board_of s) (board_of t)" "configured t = configured s"
    "service_reachable d t" by blast+
  have "svc_grow t u" using service_step_keeps [OF steps_more(2)] service_reachable_inv [OF IH(3)] by blast
  then show ?case
    using IH service_step_board [OF IH(3) steps_more(2)] reachable_step [OF IH(3) steps_more(2)]
    by (auto simp: configured_grow intro: rtranclp_trans)
qed simp

end
