(* ===== verification/Board_Props.thy ===== *)
theory Board_Props
  imports Board Sample_World
begin

text \<open>The service refines the board: what every run of it looks like to its clients.\<close>

definition board_before :: "toy service" where
  "board_before = toy_load [] [] StatusCancelled toy_pool"

definition board_after :: "toy service" where
  "board_after = toy_start ''d'' ''p9'' 40 (snd (snd (toy_tick 30 board_before)))"

text \<open>
  C2. The service refines the abstract board. It starts empty, and every run of commands and ticks
  from a reachable service is, seen through \<open>board_of\<close>, a sequence of board steps: a fresh QUEUED
  entry of a known configuration, with players and without a live competitor for its game session, is
  added under an unused identifier; an entry that is not terminal moves, keeping its request and never
  back to QUEUED; a terminal entry is dropped. No other change ever happens, so the board's own
  guarantees hold of the service.
\<close>

theorem service_refines_board:
  assumes "service_reachable d s" and "service_steps d s evs s'"
  shows "board_of (new_service keep ids mids cfgs sets engine) = Map.empty \<and>
    board_steps (configured s) (board_of s) (board_of s') \<and> board_ok (configured s) (board_of s')"
proof -
  have empty: "board_of (new_service keep ids mids cfgs sets engine) = Map.empty" for keep ids mids cfgs sets engine
    by (rule ext) (simp add: board_of_def new_service_empty)
  note run = service_steps_board [OF assms]
  obtain keep ids mids cfgs sets engine evs0
    where start: "service_steps d (new_service keep ids mids cfgs sets engine) evs0 s"
    using assms(1) by (auto simp: service_reachable_def)
  have "service_reachable d (new_service keep ids mids cfgs sets engine)"
    unfolding service_reachable_def by (blast intro: steps_done)
  note begun = service_steps_board [OF this start, unfolded empty]
  have "board_ok C Map.empty" for C by (simp add: board_ok_def exclusive_def)
  then have "board_ok (configured s) (board_of s)" using begun board_steps_ok by metis
  then show ?thesis using empty run board_steps_ok by blast
qed

lemma run_start:
  assumes "\<exists>evs. service_steps d s evs t"
  shows "\<exists>evs. service_steps d s evs (snd (snd (StartMatchmaking d env now cmd t)))"
proof -
  have "\<exists>evs. service_steps d s evs (snd (snd (Start_locked d ctx now n cmd t)))" for ctx n
    using assms steps_more [OF _ step_start [OF parts_eq]] by blast
  with assms show ?thesis by (simp add: StartMatchmaking_def split: sum.split option.split)
qed

lemma run_tick:
  assumes "\<exists>evs. service_steps d s evs t"
  shows "\<exists>evs. service_steps d s evs (snd (snd (Tick d env now n t)))"
proof -
  have "\<exists>evs. service_steps d s evs (snd (snd (Tick_locked d ctx now n t)))" for ctx
    using assms steps_more [OF _ step_tick [OF parts_eq]] by blast
  with assms show ?thesis by (simp add: Tick_def split: option.split)
qed

theorem service_refines_board_witness:
  "board_steps (configured board_before) (board_of board_before) (board_of board_after) \<and>
   map (\<lambda>i. map_option en_status (board_of board_before i)) [''a'', ''b'', ''d''] =
     [Some StatusQueued, Some StatusQueued, None] \<and>
   map (\<lambda>i. map_option en_status (board_of board_after i)) [''a'', ''b'', ''d''] =
     [Some StatusCancelled, Some StatusCancelled, Some StatusQueued]"
proof -
  have reach: "service_reachable toy_deps board_before"
    unfolding board_before_def by (rule toy_load_reachable [OF toy_pool_reachable toy_pool_engine])
  have "\<exists>evs. service_steps toy_deps board_before evs board_after"
    unfolding board_after_def toy_start_def toy_tick_def by (intro run_start run_tick exI) (rule steps_done)
  then have "board_steps (configured board_before) (board_of board_before) (board_of board_after)"
    using service_refines_board [OF reach] by blast
  moreover have "map (\<lambda>i. map_option en_status (board_of board_before i)) [''a'', ''b'', ''d''] =
     [Some StatusQueued, Some StatusQueued, None]"
    "map (\<lambda>i. map_option en_status (board_of board_after i)) [''a'', ''b'', ''d''] =
     [Some StatusCancelled, Some StatusCancelled, Some StatusQueued]"
    by (simp_all add: board_before_def board_after_def board_of_def entry_of_def run_defs time_sub_def
        min_duration_def max_duration_def hour_def minute_def second_def defaultTicketRetention_def)
  ultimately show ?thesis by blast
qed

end
