(* ===== verification/Html.thy ===== *)
theory Html
  imports Go_Lib
begin

text \<open>
  What the operator's pages use of \<open>html/template\<close>: the escapers its contextual analysis inserts for
  a value in a text, in a title and in a quoted \<open>href\<close> after a path; and a small reader of pages, with
  which the pages are shown to say what the service says and nothing else.
\<close>

section \<open>Escapers\<close>

text \<open>
  \<open>htmlReplacer\<close> with its table for text, title and quoted attributes. Bytes of longer UTF-8 encodings,
  valid or not, are left alone.
\<close>

definition html_escape_char :: "char \<Rightarrow> string" where
  "html_escape_char c =
     (if c = CHR 0x00 then [CHR 0xEF, CHR 0xBF, CHR 0xBD]
      else if c = CHR 0x22 then ''&#34;''
      else if c = CHR ''&'' then ''&amp;''
      else if c = CHR 0x27 then ''&#39;''
      else if c = CHR ''+'' then ''&#43;''
      else if c = CHR ''<'' then ''&lt;''
      else if c = CHR ''>'' then ''&gt;''
      else [c])"

definition html_escape :: "string \<Rightarrow> string" where
  "html_escape s = concat (map html_escape_char s)"

text \<open>
  \<open>urlnormalizer\<close>, for a value after the path of a URL: reserved and unreserved characters stay, and
  so does a percent sign that two hexadecimal digits follow.
\<close>

definition is_alnum :: "char \<Rightarrow> bool" where
  "is_alnum c \<longleftrightarrow>
     (let b = of_char c :: nat in 48 \<le> b \<and> b \<le> 57 \<or> 65 \<le> b \<and> b \<le> 90 \<or> 97 \<le> b \<and> b \<le> 122)"

definition url_plain :: "char \<Rightarrow> bool" where
  "url_plain c \<longleftrightarrow> is_alnum c \<or> c \<in> set ''!#$&*+,/:;=?@[]-._~''"

definition is_hex :: "char \<Rightarrow> bool" where
  "is_hex c \<longleftrightarrow>
     (let b = of_char c :: nat in 48 \<le> b \<and> b \<le> 57 \<or> 65 \<le> b \<and> b \<le> 70 \<or> 97 \<le> b \<and> b \<le> 102)"

definition hex_low :: "nat \<Rightarrow> char" where
  "hex_low k = (if k < 10 then char_of (48 + k) else char_of (87 + k))"

definition percent_encode :: "char \<Rightarrow> string" where
  "percent_encode c = [CHR ''%'', hex_low (of_char c div 16), hex_low (of_char c mod 16)]"

fun two_hex :: "string \<Rightarrow> bool" where
  "two_hex (a # b # r) \<longleftrightarrow> is_hex a \<and> is_hex b"
| "two_hex r \<longleftrightarrow> False"

fun url_normalize :: "string \<Rightarrow> string" where
  "url_normalize [] = []"
| "url_normalize (c # r) =
     (if url_plain c \<or> c = CHR ''%'' \<and> two_hex r then [c] else percent_encode c) @ url_normalize r"

text \<open>In a quoted attribute that holds a URL, both are applied.\<close>

definition href_escape :: "string \<Rightarrow> string" where
  "href_escape s = html_escape (url_normalize s)"

section \<open>Reading\<close>

text \<open>The tags of a page, each with the text before it.\<close>

function read_tags :: "string \<Rightarrow> (string \<times> string) list" where
  "read_tags s =
     (case dropWhile (\<lambda>c. c \<noteq> CHR ''<'') s of
        [] \<Rightarrow> []
      | _ # r \<Rightarrow>
          (takeWhile (\<lambda>c. c \<noteq> CHR ''<'') s, takeWhile (\<lambda>c. c \<noteq> CHR ''>'') r) #
          read_tags (drop 1 (dropWhile (\<lambda>c. c \<noteq> CHR ''>'') r)))"
  by pat_completeness auto
termination
proof (relation "measure length")
  fix s x and r :: string
  assume s: "dropWhile (\<lambda>c. c \<noteq> CHR ''<'') s = x # r"
  have "length (dropWhile (\<lambda>c. c \<noteq> CHR ''<'') s) \<le> length s" by (rule length_dropWhile_le)
  moreover have "length (drop 1 (dropWhile (\<lambda>c. c \<noteq> CHR ''>'') r)) \<le> length r"
    using le_SucI [OF length_dropWhile_le] by (simp add: le_diff_conv)
  ultimately show "(drop 1 (dropWhile (\<lambda>c. c \<noteq> CHR ''>'') r), s) \<in> measure length" by (simp add: s)
qed simp

declare read_tags.simps [simp del]

text \<open>The character references of the escaper, read back.\<close>

fun html_unescape :: "string \<Rightarrow> string" where
  "html_unescape [] = []"
| "html_unescape (c # r) =
     (if c \<noteq> CHR ''&'' then c # html_unescape r
      else if take 4 r = ''#34;'' then CHR 0x22 # html_unescape (drop 4 r)
      else if take 4 r = ''amp;'' then CHR ''&'' # html_unescape (drop 4 r)
      else if take 4 r = ''#39;'' then CHR 0x27 # html_unescape (drop 4 r)
      else if take 4 r = ''#43;'' then CHR ''+'' # html_unescape (drop 4 r)
      else if take 3 r = ''lt;'' then CHR ''<'' # html_unescape (drop 3 r)
      else if take 3 r = ''gt;'' then CHR ''>'' # html_unescape (drop 3 r)
      else c # html_unescape r)"

text \<open>What a reader sees of a string: the character NUL becomes U+FFFD.\<close>

definition shown :: "string \<Rightarrow> string" where
  "shown s = concat (map (\<lambda>c. if c = CHR 0x00 then [CHR 0xEF, CHR 0xBF, CHR 0xBD] else [c]) s)"

lemma shown_id: "CHR 0x00 \<notin> set s \<Longrightarrow> shown s = s"
  by (induction s) (auto simp: shown_def)

lemma shown_Nil [simp]: "shown [] = []"
  by (simp add: shown_def)

lemma html_escape_simps:
  "html_escape [] = []" "html_escape (c # s) = html_escape_char c @ html_escape s"
  by (simp_all add: html_escape_def)

lemma unescape_escape: "html_unescape (html_escape s @ r) = shown s @ html_unescape r"
proof (induction s)
  case (Cons c s)
  then show ?case by (simp add: html_escape_simps html_escape_char_def shown_def)
qed (simp add: html_escape_def shown_def)

lemma unescape_html: "html_unescape (html_escape s) = shown s"
  using unescape_escape [of s "[]"] by simp

text \<open>Escaped text holds no markup.\<close>

definition no_markup :: "string \<Rightarrow> bool" where
  "no_markup s \<longleftrightarrow> (\<forall>c\<in>set s. c \<notin> {CHR ''<'', CHR ''>'', CHR 0x22, CHR 0x27})"

lemma no_markup_append [simp]: "no_markup (s @ t) \<longleftrightarrow> no_markup s \<and> no_markup t"
  by (auto simp: no_markup_def)

lemma no_markup_escape: "no_markup (html_escape s)"
proof -
  have "no_markup (html_escape_char c)" for c
    by (auto simp: html_escape_char_def no_markup_def)
  then show ?thesis by (induction s) (auto simp: html_escape_def no_markup_def)
qed

section \<open>Pieces of a page\<close>

text \<open>A page as its tags, each with the text before it: what the reader finds.\<close>

fun piece_text :: "string \<times> string \<Rightarrow> string" where
  "piece_text (body, tag) = body @ ''<'' @ tag @ ''>''"

definition piece_ok :: "string \<times> string \<Rightarrow> bool" where
  "piece_ok p \<longleftrightarrow> CHR ''<'' \<notin> set (fst p) \<and> CHR ''>'' \<notin> set (snd p)"

lemma read_piece:
  assumes "piece_ok (body, tag)"
  shows "read_tags (piece_text (body, tag) @ r) = (body, tag) # read_tags r"
proof -
  have ok: "CHR ''<'' \<notin> set body" "CHR ''>'' \<notin> set tag" using assms by (simp_all add: piece_ok_def)
  have "takeWhile (\<lambda>c. c \<noteq> CHR ''<'') (body @ CHR ''<'' # x) = body"
    "dropWhile (\<lambda>c. c \<noteq> CHR ''<'') (body @ CHR ''<'' # x) = CHR ''<'' # x" for x
    using ok(1) by (auto simp: takeWhile_append dropWhile_append)
  moreover have "takeWhile (\<lambda>c. c \<noteq> CHR ''>'') (tag @ CHR ''>'' # x) = tag"
    "dropWhile (\<lambda>c. c \<noteq> CHR ''>'') (tag @ CHR ''>'' # x) = CHR ''>'' # x" for x
    using ok(2) by (auto simp: takeWhile_append dropWhile_append)
  ultimately show ?thesis by (subst read_tags.simps) simp
qed

lemma read_pieces:
  "list_all piece_ok ps \<Longrightarrow> read_tags (concat (map piece_text ps) @ r) = ps @ read_tags r"
proof (induction ps)
  case (Cons p ps)
  then show ?case by (cases p) (simp add: read_piece del: piece_text.simps)
qed simp

text \<open>After the last tag there is nothing to read.\<close>

lemma read_end: "CHR ''<'' \<notin> set s \<Longrightarrow> read_tags s = []"
proof -
  assume "CHR ''<'' \<notin> set s"
  then have "dropWhile (\<lambda>c. c \<noteq> CHR ''<'') s = []" by (auto simp: dropWhile_eq_Nil_conv)
  then show ?thesis by (subst read_tags.simps) (simp only: list.case)
qed

lemma read_page: "list_all piece_ok ps \<Longrightarrow> CHR ''<'' \<notin> set r \<Longrightarrow> read_tags (concat (map piece_text ps) @ r) = ps"
  by (simp add: read_pieces read_end)

end
