(* ===== verification/Web_Pages.thy ===== *)
theory Web_Pages
  imports Html Http_Server
begin

text \<open>
  The pages the operator sees: the templates of \<open>internal/interfaces/webui/templates\<close>, one definition
  per template and per \<open>range\<close> body, with the escaper that \<open>html/template\<close> puts at each place; and what
  a reader finds in them.
\<close>

section \<open>The templates\<close>

definition newline :: char where
  "newline = CHR 0x0A"

text \<open>Lines, each on a line of its own below what comes before; \<open>{{-\<close> trims the break before it.\<close>

definition below :: "string list \<Rightarrow> string" where
  "below ls = concat (map (\<lambda>l. newline # l) ls)"

definition index_page :: "index_view \<Rightarrow> string" where
  "index_page v =
     ''<!doctype html>'' @ below
      [''<html>'',
       ''<head>'',
       ''  <title>fmlocal</title>'',
       ''  <meta http-equiv=\"refresh\" content=\"5\">'',
       ''</head>'',
       ''<body>'',
       ''<h1>fmlocal</h1>'',
       ''<ul>'',
       ''  <li><a href=\"/rulesets\">Rule Sets</a></li>'',
       ''  <li><a href=\"/pools\">Matchmaking Pools</a></li>'',
       ''</ul>'',
       ''<p>Region: '' @ html_escape (ix_Region v) @ '' / Account: '' @ html_escape (ix_AccountID v) @ ''</p>'',
       ''</body>'',
       ''</html>''] @ [newline]"

definition ruleset_item :: "string \<Rightarrow> string" where
  "ruleset_item r = below
      [''  <li><a href=\"/rulesets/'' @ href_escape r @ ''\">'' @ html_escape r @ ''</a></li>'']"

definition rulesets_page :: "string list \<Rightarrow> string" where
  "rulesets_page names =
     ''<!doctype html>'' @ below
      [''<html>'',
       ''<head><title>Rule Sets</title></head>'',
       ''<body>'',
       ''<h1>Rule Sets</h1>'',
       ''<ul>''] @
     (if names = [] then below [''  <li>No rule sets loaded</li>''] else concat (map ruleset_item names)) @ below
      [''</ul>'',
       ''<p><a href=\"/\">Back</a></p>'',
       ''</body>'',
       ''</html>''] @ [newline]"

definition ruleset_page :: "ruleset_view \<Rightarrow> string" where
  "ruleset_page v =
     ''<!doctype html>'' @ below
      [''<html>'',
       ''<head><title>'' @ html_escape (rv_Name v) @ ''</title></head>'',
       ''<body>'',
       ''<h1>'' @ html_escape (rv_Name v) @ ''</h1>'',
       ''<pre>'' @ html_escape (rv_Body v) @ ''</pre>'',
       ''<p><a href=\"/rulesets\">Back</a></p>'',
       ''</body>'',
       ''</html>''] @ [newline]"

definition pool_item :: "pool_row \<Rightarrow> string" where
  "pool_item r = below
      [''    <tr>'',
       ''      <td><a href=\"/pools/'' @ href_escape (pr_Name r) @ ''\">'' @ html_escape (pr_Name r) @ ''</a></td>'',
       ''      <td>'' @ html_escape (pr_RuleSetName r) @ ''</td>'',
       ''      <td>'' @ html_escape (nat_digits (pr_Active r)) @ ''</td>'',
       ''    </tr>'']"

definition pools_page :: "pool_row list \<Rightarrow> string" where
  "pools_page rows =
     ''<!doctype html>'' @ below
      [''<html>'',
       ''<head>'',
       ''  <title>Pools</title>'',
       ''  <meta http-equiv=\"refresh\" content=\"3\">'',
       ''</head>'',
       ''<body>'',
       ''<h1>Matchmaking Pools</h1>'',
       ''<table border=\"1\" cellpadding=\"4\">'',
       ''  <thead>'',
       ''    <tr><th>Configuration</th><th>Rule set</th><th>Active tickets</th></tr>'',
       ''  </thead>'',
       ''  <tbody>''] @
     concat (map pool_item rows) @ below
      [''  </tbody>'',
       ''</table>'',
       ''<p><a href=\"/\">Back</a></p>'',
       ''</body>'',
       ''</html>''] @ [newline]"

definition ticket_item :: "pool_ticket_row \<Rightarrow> string" where
  "ticket_item r = below
      [''    <tr>'',
       ''      <td>'' @ html_escape (pt_TicketID r) @ ''</td>'',
       ''      <td>'' @ html_escape (pt_Status r) @ ''</td>'',
       ''      <td>'' @ html_escape (pt_Backfill r) @ ''</td>'',
       ''      <td>'' @ html_escape (pt_GameSession r) @ ''</td>'',
       ''      <td>'' @ html_escape (pt_StartTime r) @ ''</td>'',
       ''      <td>'' @ html_escape (pt_MatchID r) @ ''</td>'',
       ''    </tr>'']"

definition pool_page :: "config_name \<Rightarrow> pool_ticket_row list \<Rightarrow> string" where
  "pool_page name rows =
     ''<!doctype html>'' @ below
      [''<html>'',
       ''<head>'',
       ''  <title>'' @ html_escape name @ ''</title>'',
       ''  <meta http-equiv=\"refresh\" content=\"3\">'',
       ''</head>'',
       ''<body>'',
       ''<h1>Pool: '' @ html_escape name @ ''</h1>'',
       ''<table border=\"1\" cellpadding=\"4\">'',
       ''  <thead>'',
       ''    <tr><th>Ticket</th><th>Status</th><th>Backfill</th><th>Game Session</th><th>Start</th><th>Match ID</th></tr>'',
       ''  </thead>'',
       ''  <tbody>''] @
     concat (map ticket_item rows) @ below
      [''  </tbody>'',
       ''</table>'',
       ''<p><a href=\"/pools\">Back</a></p>'',
       ''</body>'',
       ''</html>''] @ [newline]"

section \<open>Answers\<close>

text \<open>The body of an answer; for the two refusals it is the text of \<open>net/http\<close>.\<close>

fun answer_page :: "web_answer \<Rightarrow> string option" where
  "answer_page (IndexPage v) = Some (index_page v)"
| "answer_page (RuleSetsPage names) = Some (rulesets_page names)"
| "answer_page (RuleSetPage v) = Some (ruleset_page v)"
| "answer_page (PoolsPage rows) = Some (pools_page rows)"
| "answer_page (PoolPage name rows) = Some (pool_page name rows)"
| "answer_page _ = None"

end
