(* ===== verification/Page_Laws.thy ===== *)
theory Page_Laws
  imports Web_Pages
begin

text \<open>
  What a reader finds on the operator's pages: their tags with the texts between them, the cells of
  their tables and the links with their labels, and where a link leads.
\<close>

section \<open>The pieces of the pages\<close>

text \<open>Each template again as its tags with the text before them: what \<open>read_tags\<close> finds.\<close>

definition index_pieces :: "index_view \<Rightarrow> (string \<times> string) list" where
  "index_pieces v =
      [([], ''!doctype html''),
       ([newline], ''html''),
       ([newline], ''head''),
       (newline # ''  '', ''title''),
       (''fmlocal'', ''/title''),
       (newline # ''  '', ''meta http-equiv=\"refresh\" content=\"5\"''),
       ([newline], ''/head''),
       ([newline], ''body''),
       ([newline], ''h1''),
       (''fmlocal'', ''/h1''),
       ([newline], ''ul''),
       (newline # ''  '', ''li''),
       ([], ''a href=\"/rulesets\"''),
       (''Rule Sets'', ''/a''),
       ([], ''/li''),
       (newline # ''  '', ''li''),
       ([], ''a href=\"/pools\"''),
       (''Matchmaking Pools'', ''/a''),
       ([], ''/li''),
       ([newline], ''/ul''),
       ([newline], ''p''),
       (''Region: '' @ html_escape (ix_Region v) @ '' / Account: '' @ html_escape (ix_AccountID v), ''/p''),
       ([newline], ''/body''),
       ([newline], ''/html'')]"

definition ruleset_item_pieces :: "string \<Rightarrow> (string \<times> string) list" where
  "ruleset_item_pieces r =
      [(newline # ''  '', ''li''),
       ([], ''a href=\"/rulesets/'' @ href_escape r @ ''\"''),
       (html_escape r, ''/a''),
       ([], ''/li'')]"

definition rulesets_pieces :: "string list \<Rightarrow> (string \<times> string) list" where
  "rulesets_pieces names =
      [([], ''!doctype html''),
       ([newline], ''html''),
       ([newline], ''head''),
       ([], ''title''),
       (''Rule Sets'', ''/title''),
       ([], ''/head''),
       ([newline], ''body''),
       ([newline], ''h1''),
       (''Rule Sets'', ''/h1''),
       ([newline], ''ul'')] @
     (if names = [] then [(newline # ''  '', ''li''),
       (''No rule sets loaded'', ''/li'')] else concat (map ruleset_item_pieces names)) @
      [([newline], ''/ul''),
       ([newline], ''p''),
       ([], ''a href=\"/\"''),
       (''Back'', ''/a''),
       ([], ''/p''),
       ([newline], ''/body''),
       ([newline], ''/html'')]"

definition ruleset_pieces :: "ruleset_view \<Rightarrow> (string \<times> string) list" where
  "ruleset_pieces v =
      [([], ''!doctype html''),
       ([newline], ''html''),
       ([newline], ''head''),
       ([], ''title''),
       (html_escape (rv_Name v), ''/title''),
       ([], ''/head''),
       ([newline], ''body''),
       ([newline], ''h1''),
       (html_escape (rv_Name v), ''/h1''),
       ([newline], ''pre''),
       (html_escape (rv_Body v), ''/pre''),
       ([newline], ''p''),
       ([], ''a href=\"/rulesets\"''),
       (''Back'', ''/a''),
       ([], ''/p''),
       ([newline], ''/body''),
       ([newline], ''/html'')]"

definition pool_item_pieces :: "pool_row \<Rightarrow> (string \<times> string) list" where
  "pool_item_pieces r =
      [(newline # ''    '', ''tr''),
       (newline # ''      '', ''td''),
       ([], ''a href=\"/pools/'' @ href_escape (pr_Name r) @ ''\"''),
       (html_escape (pr_Name r), ''/a''),
       ([], ''/td''),
       (newline # ''      '', ''td''),
       (html_escape (pr_RuleSetName r), ''/td''),
       (newline # ''      '', ''td''),
       (html_escape (nat_digits (pr_Active r)), ''/td''),
       (newline # ''    '', ''/tr'')]"

definition pools_pieces :: "pool_row list \<Rightarrow> (string \<times> string) list" where
  "pools_pieces rows =
      [([], ''!doctype html''),
       ([newline], ''html''),
       ([newline], ''head''),
       (newline # ''  '', ''title''),
       (''Pools'', ''/title''),
       (newline # ''  '', ''meta http-equiv=\"refresh\" content=\"3\"''),
       ([newline], ''/head''),
       ([newline], ''body''),
       ([newline], ''h1''),
       (''Matchmaking Pools'', ''/h1''),
       ([newline], ''table border=\"1\" cellpadding=\"4\"''),
       (newline # ''  '', ''thead''),
       (newline # ''    '', ''tr''),
       ([], ''th''),
       (''Configuration'', ''/th''),
       ([], ''th''),
       (''Rule set'', ''/th''),
       ([], ''th''),
       (''Active tickets'', ''/th''),
       ([], ''/tr''),
       (newline # ''  '', ''/thead''),
       (newline # ''  '', ''tbody'')] @
     concat (map pool_item_pieces rows) @
      [(newline # ''  '', ''/tbody''),
       ([newline], ''/table''),
       ([newline], ''p''),
       ([], ''a href=\"/\"''),
       (''Back'', ''/a''),
       ([], ''/p''),
       ([newline], ''/body''),
       ([newline], ''/html'')]"

definition ticket_item_pieces :: "pool_ticket_row \<Rightarrow> (string \<times> string) list" where
  "ticket_item_pieces r =
      [(newline # ''    '', ''tr''),
       (newline # ''      '', ''td''),
       (html_escape (pt_TicketID r), ''/td''),
       (newline # ''      '', ''td''),
       (html_escape (pt_Status r), ''/td''),
       (newline # ''      '', ''td''),
       (html_escape (pt_Backfill r), ''/td''),
       (newline # ''      '', ''td''),
       (html_escape (pt_GameSession r), ''/td''),
       (newline # ''      '', ''td''),
       (html_escape (pt_StartTime r), ''/td''),
       (newline # ''      '', ''td''),
       (html_escape (pt_MatchID r), ''/td''),
       (newline # ''    '', ''/tr'')]"

definition pool_pieces :: "config_name \<Rightarrow> pool_ticket_row list \<Rightarrow> (string \<times> string) list" where
  "pool_pieces name rows =
      [([], ''!doctype html''),
       ([newline], ''html''),
       ([newline], ''head''),
       (newline # ''  '', ''title''),
       (html_escape name, ''/title''),
       (newline # ''  '', ''meta http-equiv=\"refresh\" content=\"3\"''),
       ([newline], ''/head''),
       ([newline], ''body''),
       ([newline], ''h1''),
       (''Pool: '' @ html_escape name, ''/h1''),
       ([newline], ''table border=\"1\" cellpadding=\"4\"''),
       (newline # ''  '', ''thead''),
       (newline # ''    '', ''tr''),
       ([], ''th''),
       (''Ticket'', ''/th''),
       ([], ''th''),
       (''Status'', ''/th''),
       ([], ''th''),
       (''Backfill'', ''/th''),
       ([], ''th''),
       (''Game Session'', ''/th''),
       ([], ''th''),
       (''Start'', ''/th''),
       ([], ''th''),
       (''Match ID'', ''/th''),
       ([], ''/tr''),
       (newline # ''  '', ''/thead''),
       (newline # ''  '', ''tbody'')] @
     concat (map ticket_item_pieces rows) @
      [(newline # ''  '', ''/tbody''),
       ([newline], ''/table''),
       ([newline], ''p''),
       ([], ''a href=\"/pools\"''),
       (''Back'', ''/a''),
       ([], ''/p''),
       ([newline], ''/body''),
       ([newline], ''/html'')]"

lemmas piece_defs = ruleset_item_pieces_def pool_item_pieces_def ticket_item_pieces_def index_pieces_def
  rulesets_pieces_def ruleset_pieces_def pools_pieces_def pool_pieces_def

lemmas page_defs = ruleset_item_def pool_item_def ticket_item_def index_page_def rulesets_page_def
  ruleset_page_def pools_page_def pool_page_def below_def

lemma items_text:
  "(\<And>r. f r = concat (map piece_text (g r))) \<Longrightarrow>
   concat (map f rows) = concat (map piece_text (concat (map g rows)))"
  by (induction rows) simp_all

lemma item_texts:
  "ruleset_item x = concat (map piece_text (ruleset_item_pieces x))"
  "pool_item r = concat (map piece_text (pool_item_pieces r))"
  "ticket_item t = concat (map piece_text (ticket_item_pieces t))"
  by (simp_all add: page_defs piece_defs)

lemma page_texts:
  "index_page v = concat (map piece_text (index_pieces v)) @ [newline]"
  "ruleset_page w = concat (map piece_text (ruleset_pieces w)) @ [newline]"
  "rulesets_page names = concat (map piece_text (rulesets_pieces names)) @ [newline]"
  "pools_page rows = concat (map piece_text (pools_pieces rows)) @ [newline]"
  "pool_page name trows = concat (map piece_text (pool_pieces name trows)) @ [newline]"
  by (simp_all add: index_page_def ruleset_page_def rulesets_page_def pools_page_def pool_page_def below_def
      index_pieces_def rulesets_pieces_def ruleset_pieces_def pools_pieces_def pool_pieces_def
      items_text [of ruleset_item, OF item_texts(1)] items_text [of pool_item, OF item_texts(2)]
      items_text [of ticket_item, OF item_texts(3)])

lemma escape_ok: "CHR ''<'' \<notin> set (html_escape s)" "CHR ''>'' \<notin> set (html_escape s)"
  using no_markup_escape [of s] by (auto simp: no_markup_def)

lemma items_ok: "(\<And>r. list_all piece_ok (g r)) \<Longrightarrow> list_all piece_ok (concat (map g rows))"
  by (induction rows) simp_all

lemma item_pieces_ok:
  "list_all piece_ok (ruleset_item_pieces x)" "list_all piece_ok (pool_item_pieces r)"
  "list_all piece_ok (ticket_item_pieces t)"
  by (simp_all add: piece_defs piece_ok_def newline_def escape_ok href_escape_def)

lemma pieces_ok:
  "list_all piece_ok (index_pieces v)" "list_all piece_ok (ruleset_pieces w)"
  "list_all piece_ok (rulesets_pieces names)" "list_all piece_ok (pools_pieces rows)"
  "list_all piece_ok (pool_pieces name trows)"
  by (simp_all add: index_pieces_def rulesets_pieces_def ruleset_pieces_def pools_pieces_def pool_pieces_def
      items_ok item_pieces_ok) (simp_all add: piece_ok_def newline_def escape_ok)

lemma pages_read:
  "read_tags (index_page v) = index_pieces v" "read_tags (ruleset_page w) = ruleset_pieces w"
  "read_tags (rulesets_page names) = rulesets_pieces names" "read_tags (pools_page rows) = pools_pieces rows"
  "read_tags (pool_page name trows) = pool_pieces name trows"
  unfolding page_texts by (rule read_page [OF pieces_ok(1)] read_page [OF pieces_ok(2)] read_page [OF pieces_ok(3)]
      read_page [OF pieces_ok(4)] read_page [OF pieces_ok(5)], simp add: newline_def)+

section \<open>Cells and links\<close>

text \<open>The texts that a closing tag ends, as a browser shows them.\<close>

definition texts_before :: "string \<Rightarrow> (string \<times> string) list \<Rightarrow> string list" where
  "texts_before tag ps = map (\<lambda>p. html_unescape (fst p)) (filter (\<lambda>p. snd p = tag) ps)"

lemma texts_before_simps [simp]:
  "texts_before tag [] = []"
  "texts_before tag (p # ps) = (if snd p = tag then html_unescape (fst p) # texts_before tag ps else texts_before tag ps)"
  "texts_before tag (ps @ qs) = texts_before tag ps @ texts_before tag qs"
  by (simp_all add: texts_before_def)

lemma texts_before_items: "texts_before tag (concat (map g rows)) = concat (map (\<lambda>r. texts_before tag (g r)) rows)"
  by (induction rows) simp_all

text \<open>The URL of a link is its attribute, unquoted and read back; its label is the text that follows.\<close>

definition tag_href :: "string \<Rightarrow> string option" where
  "tag_href tag = (if take 8 tag = ''a href='' @ [CHR 0x22] then Some (html_unescape (butlast (drop 8 tag))) else None)"

fun tag_links :: "(string \<times> string) list \<Rightarrow> (string \<times> string) list" where
  "tag_links (p # q # ps) =
     (case tag_href (snd p) of None \<Rightarrow> [] | Some url \<Rightarrow> [(url, html_unescape (fst q))]) @ tag_links (q # ps)"
| "tag_links ps = []"

text \<open>A link never stands at the end of a list of pieces, so lists can be read apart.\<close>

lemma tag_links_skip: "tag_href (snd p) = None \<Longrightarrow> tag_links (p # ps) = tag_links ps"
  by (cases ps) simp_all

lemma tag_links_append:
  "ps \<noteq> [] \<Longrightarrow> tag_href (snd (last ps)) = None \<Longrightarrow> tag_links (ps @ qs) = tag_links ps @ tag_links qs"
proof (induction ps)
  case (Cons p ps)
  then show ?case by (cases ps) (simp_all add: tag_links_skip)
qed simp

lemma tag_links_items:
  assumes "\<And>r. g r \<noteq> [] \<and> tag_href (snd (last (g r))) = None"
  shows "tag_links (concat (map g rows) @ qs) = concat (map (\<lambda>r. tag_links (g r)) rows) @ tag_links qs"
  using assms by (induction rows) (simp_all add: tag_links_append)

lemma url_normalize_plain: "list_all url_plain s \<Longrightarrow> url_normalize s = s"
  by (induction s) simp_all

lemma percent_no_nul: "CHR 0x00 \<notin> set (percent_encode c)"
proof -
  have "of_char (hex_low k) \<noteq> (0 :: nat)" if "k < 16" for k
    using that by (auto simp: hex_low_def)
  then have "hex_low k \<noteq> CHR 0x00" if "k < 16" for k using that by force
  from this [of "of_char c div 16"] this [of "of_char c mod 16"] show ?thesis
    by (auto simp: percent_encode_def less_mult_imp_div_less)
qed

lemma normalized_no_nul: "CHR 0x00 \<notin> set (url_normalize s)"
proof (induction s)
  case (Cons c s)
  have "\<not> url_plain (CHR 0x00)" by (simp add: url_plain_def is_alnum_def)
  then show ?case using Cons percent_no_nul by auto
qed simp

lemma shown_href: "html_unescape (href_escape s) = url_normalize s"
  by (simp add: href_escape_def unescape_html shown_id normalized_no_nul)

lemma unescape_plain: "list_all (\<lambda>c. c \<noteq> CHR ''&'') s \<Longrightarrow> html_unescape (s @ r) = s @ html_unescape r"
  by (induction s) simp_all

lemma href_tag:
  assumes "list_all (\<lambda>c. c \<noteq> CHR ''&'') path"
  shows "tag_href (''a href='' @ CHR 0x22 # path @ href_escape s @ [CHR 0x22]) = Some (path @ url_normalize s)"
proof -
  have "butlast (path @ href_escape s @ [CHR 0x22]) = path @ href_escape s"
    by (simp flip: append_assoc)
  then show ?thesis by (simp add: tag_href_def unescape_plain [OF assms] shown_href)
qed

lemma fixed_tags [simp]:
  "tag_href (CHR ''/'' # tag) = None" "tag_href ''td'' = None" "tag_href ''tr'' = None" "tag_href ''li'' = None"
  "tag_href ''p'' = None" "tag_href ''ul'' = None" "tag_href ''th'' = None" "tag_href ''h1'' = None"
  "tag_href ''html'' = None" "tag_href ''head'' = None" "tag_href ''body'' = None" "tag_href ''title'' = None"
  "tag_href ''tbody'' = None" "tag_href ''thead'' = None" "tag_href (CHR ''!'' # tag) = None"
  "tag_href (CHR ''m'' # tag) = None" "tag_href (CHR ''t'' # CHR ''a'' # tag) = None"
  by (simp_all add: tag_href_def)

lemma name_tags [simp]:
  "tag_href (''a href=\"/pools/'' @ href_escape s @ ''\"'') = Some (''/pools/'' @ url_normalize s)"
  "tag_href (''a href=\"/rulesets/'' @ href_escape s @ ''\"'') = Some (''/rulesets/'' @ url_normalize s)"
  using href_tag [of "''/pools/''" s] href_tag [of "''/rulesets/''" s] by simp_all

lemma item_links:
  "tag_links (pool_item_pieces r) = [(''/pools/'' @ url_normalize (pr_Name r), shown (pr_Name r))]"
  "tag_links (ruleset_item_pieces x) = [(''/rulesets/'' @ url_normalize x, shown x)]"
  using name_tags [of "pr_Name r"] name_tags [of x]
  by (simp_all add: piece_defs unescape_html)

lemma item_ends:
  "pool_item_pieces r \<noteq> [] \<and> tag_href (snd (last (pool_item_pieces r))) = None"
  "ruleset_item_pieces x \<noteq> [] \<and> tag_href (snd (last (ruleset_item_pieces x))) = None"
  by (simp_all add: piece_defs)

text \<open>The links of the overviews: one per row with its name as the label, and the way back.\<close>

lemma pools_links:
  "tag_links (pools_pieces rows) =
     map (\<lambda>r. (''/pools/'' @ url_normalize (pr_Name r), shown (pr_Name r))) rows @ [(''/'', ''Back'')]"
proof -
  have "concat (map (\<lambda>r. tag_links (pool_item_pieces r)) rows) =
      map (\<lambda>r. (''/pools/'' @ url_normalize (pr_Name r), shown (pr_Name r))) rows"
    by (induction rows) (simp_all add: item_links)
  then show ?thesis
    by (simp add: pools_pieces_def tag_links_skip tag_links_items [OF item_ends(1)])
       (simp add: tag_href_def)
qed

lemma rulesets_links:
  "tag_links (rulesets_pieces names) =
     map (\<lambda>x. (''/rulesets/'' @ url_normalize x, shown x)) names @ [(''/'', ''Back'')]"
proof -
  have "concat (map (\<lambda>x. tag_links (ruleset_item_pieces x)) names) =
      map (\<lambda>x. (''/rulesets/'' @ url_normalize x, shown x)) names"
    by (induction names) (simp_all add: item_links)
  then show ?thesis
    by (simp add: rulesets_pieces_def tag_links_skip tag_links_items [OF item_ends(2)])
       (simp add: tag_href_def)
qed

section \<open>Following a link\<close>

text \<open>
  The request a browser makes for a link: the path up to a query or a fragment, split at its slashes,
  each segment decoded. A path that is not clean is redirected before a page is looked up.
\<close>

fun split_path :: "string \<Rightarrow> string list" where
  "split_path [] = [[]]"
| "split_path (c # r) =
     (if c = CHR ''/'' then [] # split_path r
      else case split_path r of [] \<Rightarrow> [[c]] | x # xs \<Rightarrow> (c # x) # xs)"

definition hex_digit_value :: "char \<Rightarrow> nat" where
  "hex_digit_value c =
     (let b = of_char c :: nat in if b \<le> 57 then b - 48 else if b \<le> 70 then b - 55 else b - 87)"

fun percent_decode :: "string \<Rightarrow> string" where
  "percent_decode [] = []"
| "percent_decode (c # r) =
     (if c = CHR ''%'' \<and> two_hex r
      then char_of (16 * hex_digit_value (r ! 0) + hex_digit_value (r ! 1)) # percent_decode (drop 2 r)
      else c # percent_decode r)"

definition visit :: "string \<Rightarrow> server_request option" where
  "visit url =
     (let path = takeWhile (\<lambda>c. c \<notin> {CHR ''?'', CHR ''#''}) url;
          segs = split_path (drop 1 path); slash = last segs = [];
          names = map percent_decode (if slash then butlast segs else segs)
      in if take 1 path \<noteq> ''/'' \<or> list_ex (\<lambda>x. x \<in> {[], ''.'', ''..''}) names then None
         else Some \<lparr>hq_Method = ''GET'', hq_Segments = names, hq_Slash = slash, hq_Target = [], hq_Body = Inr []\<rparr>)"

definition linkable :: "string \<Rightarrow> bool" where
  "linkable s \<longleftrightarrow> s \<notin> {[], ''.'', ''..''} \<and> list_all (\<lambda>c. c \<notin> {CHR ''/'', CHR ''?'', CHR ''#'', CHR ''%''}) s"

lemma hex_low_value:
  assumes "k < 16"
  shows "is_hex (hex_low k)" "hex_digit_value (hex_low k) = k"
    "hex_low k \<notin> {CHR ''/'', CHR ''?'', CHR ''#''}"
proof -
  have b: "of_char (hex_low k) = (if k < 10 then 48 + k else 87 + k)" using assms by (simp add: hex_low_def)
  then show "is_hex (hex_low k)" "hex_digit_value (hex_low k) = k"
    using assms by (auto simp: is_hex_def hex_digit_value_def Let_def)
  have "(of_char c :: nat) \<in> {47, 63, 35}" if "c \<in> {CHR ''/'', CHR ''?'', CHR ''#''}" for c
    using that by auto
  then show "hex_low k \<notin> {CHR ''/'', CHR ''?'', CHR ''#''}" using b by (force split: if_splits)
qed

lemma char_halves: "of_char c div 16 < (16 :: nat)" "of_char c mod 16 < (16 :: nat)"
  using nat_of_char_less_256 [of c] by (simp_all add: less_mult_imp_div_less del: nat_of_char_less_256)

lemma decode_encoded: "percent_decode (percent_encode c @ r) = c # percent_decode r"
  using hex_low_value [OF char_halves(1), of c] hex_low_value [OF char_halves(2), of c]
  by (simp add: percent_encode_def)

lemma decode_normalized: "CHR ''%'' \<notin> set s \<Longrightarrow> percent_decode (url_normalize s) = s"
  by (induction s) (auto simp: decode_encoded)

lemma normalized_chars:
  assumes "list_all (\<lambda>c. c \<notin> {CHR ''/'', CHR ''?'', CHR ''#''}) s"
  shows "list_all (\<lambda>c. c \<notin> {CHR ''/'', CHR ''?'', CHR ''#''}) (url_normalize s)"
proof -
  have "list_all (\<lambda>c. c \<notin> {CHR ''/'', CHR ''?'', CHR ''#''}) (percent_encode c)" for c
    using hex_low_value(3) [OF char_halves(1), of c] hex_low_value(3) [OF char_halves(2), of c]
    by (simp add: percent_encode_def)
  then show ?thesis using assms by (induction s) (simp_all add: list_all_append)
qed

text \<open>The request of a link: its path and the name's segments, decoded.\<close>

lemma split_path_append:
  "CHR ''/'' \<notin> set a \<Longrightarrow> split_path (a @ CHR ''/'' # r) = a # split_path r"
  by (induction a) auto

lemma split_path_single: "CHR ''/'' \<notin> set a \<Longrightarrow> split_path a = [a]"
  by (induction a) auto

lemma split_path_Nil: "split_path s \<noteq> []"
  by (induction s) (auto split: list.split)

lemma split_path_two: "CHR ''/'' \<in> set s \<Longrightarrow> 2 \<le> length (split_path s)"
proof (induction s)
  case (Cons c s)
  then show ?case using split_path_Nil [of s] by (cases "split_path s") (auto simp: Suc_le_eq)
qed simp

lemma fixed_path:
  assumes "list_all (\<lambda>c. c \<notin> {CHR ''?'', CHR ''#''}) (url_normalize s)"
  shows "takeWhile (\<lambda>c. c \<notin> {CHR ''?'', CHR ''#''}) (''/pools/'' @ url_normalize s) = ''/pools/'' @ url_normalize s"
    "takeWhile (\<lambda>c. c \<notin> {CHR ''?'', CHR ''#''}) (''/rulesets/'' @ url_normalize s) = ''/rulesets/'' @ url_normalize s"
    "split_path (drop 1 (''/pools/'' @ url_normalize s)) = ''pools'' # split_path (url_normalize s)"
    "split_path (drop 1 (''/rulesets/'' @ url_normalize s)) = ''rulesets'' # split_path (url_normalize s)"
  using assms split_path_append [of "''pools''" "url_normalize s"] split_path_append [of "''rulesets''" "url_normalize s"]
  by (auto simp: takeWhile_eq_all_conv list_all_iff)

lemma percent_decode_plain:
  "percent_decode ''pools'' = ''pools''" "percent_decode ''rulesets'' = ''rulesets''"
  by simp_all

definition page_request :: "string list \<Rightarrow> bool \<Rightarrow> server_request" where
  "page_request segs slash =
     \<lparr>hq_Method = ''GET'', hq_Segments = segs, hq_Slash = slash, hq_Target = [], hq_Body = Inr []\<rparr>"

lemma visit_linkable:
  assumes "linkable name"
  shows "visit (''/pools/'' @ url_normalize name) = Some (page_request [''pools'', name] False)"
    "visit (''/rulesets/'' @ url_normalize name) = Some (page_request [''rulesets'', name] False)"
proof -
  have c: "list_all (\<lambda>c. c \<notin> {CHR ''/'', CHR ''?'', CHR ''#''}) (url_normalize name)"
    using assms by (intro normalized_chars) (auto simp: linkable_def list_all_iff)
  then have f: "list_all (\<lambda>c. c \<notin> {CHR ''?'', CHR ''#''}) (url_normalize name)" and
    one: "split_path (url_normalize name) = [url_normalize name]"
    by (auto simp: list_all_iff intro!: split_path_single)
  have d: "percent_decode (url_normalize name) = name"
    using assms by (intro decode_normalized) (auto simp: linkable_def list_all_iff)
  then have n: "url_normalize name \<noteq> []" "name \<notin> {[], ''.'', ''..''}"
    using assms by (auto simp: linkable_def)
  show "visit (''/pools/'' @ url_normalize name) = Some (page_request [''pools'', name] False)"
    "visit (''/rulesets/'' @ url_normalize name) = Some (page_request [''rulesets'', name] False)"
    unfolding visit_def Let_def fixed_path [OF f] one using d n by (simp_all add: page_request_def percent_decode_plain)
qed

text \<open>A name with a slash makes a path of more segments than any pattern has.\<close>

lemma visit_slashed:
  assumes "CHR ''/'' \<in> set name" and "CHR ''?'' \<notin> set name" and "CHR ''#'' \<notin> set name"
    and "visit (''/rulesets/'' @ url_normalize name) = Some req"
  shows "hq_Segments req \<noteq> []" "hq_Slash req \<or> 3 \<le> length (hq_Segments req)"
proof -
  have slash: "CHR ''/'' \<in> set (url_normalize name)" using assms(1)
    by (induction name) (auto simp: url_plain_def)
  have enc: "list_all (\<lambda>c. c \<notin> {CHR ''?'', CHR ''#''}) (percent_encode c)" for c
    using hex_low_value(3) [OF char_halves(1), of c] hex_low_value(3) [OF char_halves(2), of c]
    by (simp add: percent_encode_def)
  have f: "list_all (\<lambda>c. c \<notin> {CHR ''?'', CHR ''#''}) (url_normalize name)"
    using assms(2,3) enc by (induction name) (auto simp: list_all_append)
  have "2 \<le> length (split_path (url_normalize name))" by (rule split_path_two [OF slash])
  with assms(4) show "hq_Segments req \<noteq> []" "hq_Slash req \<or> 3 \<le> length (hq_Segments req)"
    unfolding visit_def Let_def fixed_path [OF f] by (auto split: if_splits)
qed

end
