(* ===== verification/Page_Props.thy ===== *)
theory Page_Props
  imports Page_Laws Surface_Props Config_Props
begin

text \<open>
  The operator's pages as a reader sees them: they say what the service says, in markup that no
  value can change, and the links of the overviews lead to the pages they name.
\<close>

section \<open>What the pages say\<close>

text \<open>The cells of a ticket's row.\<close>

definition ticket_cells :: "(gotime \<Rightarrow> string) \<Rightarrow> ticket \<Rightarrow> string list" where
  "ticket_cells fmt t =
     [tk_id t, status_string (tk_status t), if tk_isBackfill t then ''yes'' else [], tk_gameSessionARN t,
      fmt (tk_startTime t), tk_matchID t]"

lemma item_cells:
  "texts_before ''/td'' (ticket_item_pieces (ticket_row fmt t)) = map shown (ticket_cells fmt t)"
  "texts_before ''/td'' (pool_item_pieces r) = [[], shown (pr_RuleSetName r), shown (nat_digits (pr_Active r))]"
  by (simp_all add: ticket_item_pieces_def pool_item_pieces_def ticket_row_def ticket_cells_def unescape_html)

lemma page_cells:
  "texts_before ''/td'' (pool_pieces name (map (ticket_row fmt) ts)) = concat (map (\<lambda>t. map shown (ticket_cells fmt t)) ts)"
  "texts_before ''/td'' (pools_pieces rows) =
     concat (map (\<lambda>r. [[], shown (pr_RuleSetName r), shown (nat_digits (pr_Active r))]) rows)"
  by (simp_all add: pool_pieces_def pools_pieces_def texts_before_items item_cells o_def)

text \<open>The live tickets of a configuration, in the ticket map.\<close>

definition live_tickets :: "config_name \<Rightarrow> 'e service \<Rightarrow> ticket_id set" where
  "live_tickets n s = {i. \<exists>r. sv_tickets s i = Some r \<and> cfg_of s r = n \<and> IsActive (tk_status (sv_heap s r))}"

lemma active_count:
  assumes "store_inv {} s"
  shows "ActiveTicketCountByConfiguration n s = card (live_tickets n s)"
proof -
  have index: "index_ok {} s" using assms by (simp add: store_inv_def)
  have "live_tickets n s = set (sv_active s n)"
    by (auto simp: live_tickets_def active_exact [OF assms] active_ref_def)
  then show ?thesis
    using index_okD(1) [OF index, of n] by (simp add: ActiveTicketCountByConfiguration_def distinct_card)
qed



section \<open>The markup\<close>

text \<open>The tags of a pool's page with so many rows, and those of a rule set's page and of the index.\<close>

definition pool_markup :: "nat \<Rightarrow> string list" where
  "pool_markup rows =
     [''!doctype html'', ''html'', ''head'', ''title'', ''/title'', ''meta http-equiv=\"refresh\" content=\"3\"'', ''/head'',
      ''body'', ''h1'', ''/h1'', ''table border=\"1\" cellpadding=\"4\"'', ''thead'', ''tr''] @
     concat (replicate 6 [''th'', ''/th'']) @ [''/tr'', ''/thead'', ''tbody''] @
     concat (replicate rows ([''tr''] @ concat (replicate 6 [''td'', ''/td'']) @ [''/tr''])) @
     [''/tbody'', ''/table'', ''p'', ''a href=\"/pools\"'', ''/a'', ''/p'', ''/body'', ''/html'']"

definition ruleset_markup :: "string list" where
  "ruleset_markup =
     [''!doctype html'', ''html'', ''head'', ''title'', ''/title'', ''/head'', ''body'', ''h1'', ''/h1'', ''pre'', ''/pre'',
      ''p'', ''a href=\"/rulesets\"'', ''/a'', ''/p'', ''/body'', ''/html'']"

lemma row_markup:
  "map snd (concat (map ticket_item_pieces rows)) =
     concat (replicate (length rows) ([''tr''] @ concat (replicate 6 [''td'', ''/td'']) @ [''/tr'']))"
  by (induction rows) (simp_all add: ticket_item_pieces_def numeral_eq_Suc)

text \<open>
  C37. No value can change the markup: whatever identifiers, sessions and names the clients chose
  and whatever a rule set's document holds, the tags of a pool's page are those of the template
  with one row per ticket, and the tags of a rule set's page are those of its template.
\<close>

theorem page_markup_fixed:
  "map snd (read_tags (pool_page name rows)) = pool_markup (length rows) \<and>
   map snd (read_tags (ruleset_page v)) = ruleset_markup \<and>
   map snd (read_tags (index_page x)) = map snd (read_tags (index_page (handleIndex [] [])))"
proof -
  have "map snd (read_tags (pool_page name rows)) = pool_markup (length rows)"
    by (simp add: pages_read pool_pieces_def pool_markup_def row_markup del: map_concat)
       (simp add: numeral_eq_Suc)
  then show ?thesis
    by (simp add: pages_read ruleset_pieces_def ruleset_markup_def index_pieces_def)
qed

section \<open>Links\<close>

lemma looked_up:
  "GetConfiguration n s = Inr c \<Longrightarrow> c \<in> set (ListConfigurations s)"
  "GetRuleSet m s = Inr r \<Longrightarrow> r \<in> set (ListRuleSets s)"
proof -
  have "y \<in> set ys" if "find P ys = Some y" for P y and ys :: "configuration list"
    using that by (auto simp: find_Some_iff)
  then show "GetConfiguration n s = Inr c \<Longrightarrow> c \<in> set (ListConfigurations s)"
    by (auto simp: GetConfiguration_def ListConfigurations_def image_iff simp del: set_map
        split: option.splits dest!: map_of_SomeD) (force | blast)+
  show "GetRuleSet m s = Inr r \<Longrightarrow> r \<in> set (ListRuleSets s)"
    by (force simp: GetRuleSet_def ListRuleSets_def split: option.splits dest!: map_of_SomeD)
qed

lemma name_char_link: "name_char c \<Longrightarrow> c \<notin> {CHR ''/'', CHR ''?'', CHR ''#'', CHR ''%''}"
  by (auto simp: name_char_def)

lemma configuration_linkable:
  assumes "LoadFile fs path = Inr l" and "b \<in> set (ld_Configurations l)"
    and "cfg_Name (bi_Configuration b) \<notin> {''.'', ''..''}"
  shows "linkable (cfg_Name (bi_Configuration b))" "shown (cfg_Name (bi_Configuration b)) = cfg_Name (bi_Configuration b)"
proof -
  let ?name = "cfg_Name (bi_Configuration b)"
  have name: "?name \<noteq> []" "list_all name_char ?name"
    using LoadFile_valid [OF assms(1)] assms(2) by (auto simp: valid_loaded_def valid_configuration_def list_all_iff configNamePattern_def)
  then show "linkable ?name" using assms(3) name_char_link by (auto simp: linkable_def list_all_iff)
  have "\<not> name_char (CHR 0x00)" by (simp add: name_char_def)
  with name(2) show "shown ?name = ?name" by (intro shown_id) (auto simp: list_all_iff)
qed

lemma overview_links:
  "c \<in> set (ListConfigurations s) \<Longrightarrow>
     (''/pools/'' @ url_normalize (cfg_Name c), shown (cfg_Name c)) \<in> set (tag_links (read_tags (pools_page (handlePools s))))"
  "r \<in> set (ListRuleSets s) \<Longrightarrow>
     (''/rulesets/'' @ url_normalize (rs_Name r), shown (rs_Name r)) \<in> set (tag_links (read_tags (rulesets_page (handleRuleSets s))))"
  by (auto simp: pages_read pools_links rulesets_links handlePools_def handleRuleSets_def)

lemma requested_page:
  "WebHandler fmt opts (page_request [''pools'', n] False) s = PoolPage n (handlePool fmt n s)"
  "GetRuleSet n s = Inr r \<Longrightarrow>
     WebHandler fmt opts (page_request [''rulesets'', n] False) s = RuleSetPage \<lparr>rv_Name = rs_Name r, rv_Body = rs_Body r\<rparr>"
  by (simp_all add: WebHandler_def web_page_def page_request_def is_get_def handleRuleSet_def)



section \<open>Examples\<close>


text \<open>A rule set named \<open>u/v\<close> is accepted by the loader's validation, and found by its name.\<close>

definition slashed_ruleset :: ruleset where
  "slashed_ruleset = \<lparr>rs_Name = ''u/v'', rs_ARN = [], rs_Body = ''{}''\<rparr>"

definition slashed_loaded :: loaded where
  "slashed_loaded = toy_loaded\<lparr>ld_RuleSets := slashed_ruleset # ld_RuleSets toy_loaded\<rparr>"


end
