(* ===== verification/Program.thy ===== *)
theory Program
  imports Lifecycle_Props Call_Props Config_Props
begin

text \<open>
  The whole program (\<open>cmd/fmlocal/main.go\<close>): the parts of the process with the commands they run, the
  drain of the deliveries at the end, and the code the process exits with.
\<close>

section \<open>The running program\<close>

text \<open>
  The process and the callers of the delivery. Each command belongs to the part that runs it: a
  request to the API server, or a tick of the ticker.
\<close>

record program =
  pg_process :: process
  pg_calls :: calls

definition started_program :: program where
  "started_program = \<lparr>pg_process = started_process, pg_calls = new_calls\<rparr>"

definition no_call :: "calls \<Rightarrow> nat \<Rightarrow> bool" where
  "no_call k q \<longleftrightarrow> dl_producer (cl_delivery k) q = Outside \<and> cl_wait k q = None"

text \<open>
  A part that was shut down without an error: \<open>Shutdown\<close> returned nil, or the ticker left its loop.
\<close>

definition at_ease :: "process \<Rightarrow> part \<Rightarrow> bool" where
  "at_ease p c \<longleftrightarrow> pr_stage p c = Collecting None \<or> pr_result p c = Some None"

text \<open>The error \<open>CloseDelivery\<close> returns is that of its context.\<close>

definition drain_error :: "err option \<Rightarrow> string option" where
  "drain_error r = (case r of None \<Rightarrow> None | Some e \<Rightarrow> Some ''context deadline exceeded'')"

text \<open>
  A server shuts down without an error only when its requests have been answered, and the ticker
  leaves its loop only between two rounds; before that, or after a failure, its commands may run
  at any time. \<open>CloseDelivery\<close> is called once, by caller 0, when all parts have returned, and
  \<open>run\<close> returns with its result. After that nothing moves.
\<close>

inductive program_step :: "(nat \<Rightarrow> part) \<Rightarrow> program \<Rightarrow> program \<Rightarrow> bool"
  for own :: "nat \<Rightarrow> part" where
  part_moves: "process_step p p' \<Longrightarrow> pr_exit p' = None \<Longrightarrow>
    (\<And>c q. at_ease p' c \<Longrightarrow> \<not> at_ease p c \<Longrightarrow> own q = c \<Longrightarrow> no_call k q) \<Longrightarrow>
    program_step own \<lparr>pg_process = p, pg_calls = k\<rparr> \<lparr>pg_process = p', pg_calls = k\<rparr>"
| command_moves: "call_step k k' \<Longrightarrow> cl_closer k' = cl_closer k \<Longrightarrow> pr_exit p = None \<Longrightarrow>
    (\<And>q. no_call k q \<Longrightarrow> \<not> no_call k' q \<Longrightarrow> \<not> at_ease p (own q)) \<Longrightarrow>
    program_step own \<lparr>pg_process = p, pg_calls = k\<rparr> \<lparr>pg_process = p, pg_calls = k'\<rparr>"
| drain_begins: "\<forall>c. pr_stage p c = Finished \<Longrightarrow> pr_exit p = None \<Longrightarrow> cl_closer k 0 = NotClosing \<Longrightarrow>
    program_step own \<lparr>pg_process = p, pg_calls = k\<rparr> \<lparr>pg_process = p, pg_calls = close_enter 0 k\<rparr>"
| drain_moves: "close_proceed 0 k = Some k' \<or> close_expire 0 k = Some k' \<Longrightarrow> pr_exit p = None \<Longrightarrow>
    program_step own \<lparr>pg_process = p, pg_calls = k\<rparr> \<lparr>pg_process = p, pg_calls = k'\<rparr>"
| run_returns: "cl_closer k 0 = Closed r \<Longrightarrow> pr_exit p = None \<Longrightarrow>
    program_step own \<lparr>pg_process = p, pg_calls = k\<rparr> \<lparr>pg_process = finish_run (drain_error r) p, pg_calls = k\<rparr>"

inductive program_reachable :: "(nat \<Rightarrow> part) \<Rightarrow> program \<Rightarrow> bool"
  for own :: "nat \<Rightarrow> part" where
  program_begins: "program_reachable own started_program"
| program_goes_on: "program_reachable own g \<Longrightarrow> program_step own g g' \<Longrightarrow> program_reachable own g'"

section \<open>The end of the program\<close>

text \<open>
  \<open>main\<close>: a file that cannot be loaded and a set-up that fails exit with 1, a panic with 2, and a
  program that ran exits by what \<open>run\<close> returned.
\<close>

datatype program_end = NotLoaded load_err | NotStarted run_err | Ran program

definition failure_code :: "run_err \<Rightarrow> int" where
  "failure_code e = (case e of EngineFailed n b \<Rightarrow> if b = NilMapPanic then 2 else 1 | PublishersFailed w \<Rightarrow> 1)"

inductive program_ends ::
  "files \<Rightarrow> string \<Rightarrow> ('j, 'e) builder \<Rightarrow> 'w outside \<Rightarrow> (nat \<Rightarrow> part) \<Rightarrow> program_end \<Rightarrow> int \<Rightarrow> bool"
  for fs path bd ou own where
  ends_unloaded: "LoadFile fs path = Inl e \<Longrightarrow> program_ends fs path bd ou own (NotLoaded e) 1"
| ends_unstarted: "LoadFile fs path = Inr l \<Longrightarrow> run_setup bd ou ids mids l = Inl e \<Longrightarrow>
    program_ends fs path bd ou own (NotStarted e) (failure_code e)"
| ends_ran: "LoadFile fs path = Inr l \<Longrightarrow> run_setup bd ou ids mids l = Inr started \<Longrightarrow> program_reachable own g \<Longrightarrow>
    pr_exit (pg_process g) = Some x \<Longrightarrow> program_ends fs path bd ou own (Ran g) (exit_code x)"

end
