(* ===== verification/Program_Props.thy ===== *)
theory Program_Props
  imports Program
begin

text \<open>
  What the exit code of the program says: success means that everything worked and nothing a
  command committed was lost.
\<close>

section \<open>Parts\<close>

text \<open>A part's \<open>Run\<close> returns nil or a failure; the two errors that are no failures do not come up.\<close>

definition plain_part :: "process \<Rightarrow> part \<Rightarrow> bool" where
  "plain_part p c \<longleftrightarrow>
     (pr_listener p c = Some ServerClosed \<longrightarrow> pr_stage p c \<noteq> Serving) \<and> pr_listener p c \<noteq> Some ContextCanceled \<and>
     (\<forall>e. pr_stage p c = Collecting (Some e) \<or> pr_result p c = Some (Some e) \<longrightarrow> is_failure (Some e))"

lemma plain_step: "process_step p p' \<Longrightarrow> (\<And>c. plain_part p c) \<Longrightarrow> plain_part p' c"
proof (induction rule: process_step.induct)
  case (server_fails b p e)
  then have "is_failure (Some e)"
    by (cases e) (auto simp: plain_part_def is_failure_def)
  with server_fails show ?case by (auto simp: plain_part_def returns_run_def at_stage_def)
next
  case (server_shut p b r x)
  then show ?case by (auto simp: plain_part_def at_stage_def is_failure_def)
next
  case (server_collects p b r e)
  then have "r = Some x \<Longrightarrow> is_failure (Some x)" for x by (auto simp: plain_part_def)
  with server_collects show ?case by (auto simp: plain_part_def returns_run_def at_stage_def)
qed (auto simp: plain_part_def process_defs split: if_splits)

lemma plain_reachable: "process_reachable p \<Longrightarrow> plain_part p c"
proof (induction arbitrary: c rule: process_reachable.induct)
  case process_begins
  show ?case by (simp add: plain_part_def started_process_def)
qed (blast intro: plain_step)

text \<open>A part that was shut down without an error stays so.\<close>

lemma at_ease_stays:
  assumes "process_step p p'" and "process_inv p" and "at_ease p c"
  shows "at_ease p' c"
  using assms
proof (induction rule: process_step.induct)
  case (server_fails b p e)
  then show ?case using silent_part [of p b] by (auto simp: at_ease_def returns_run_def at_stage_def)
next
  case (server_collects p b r e)
  then show ?case using silent_part [of p b] by (auto simp: at_ease_def returns_run_def at_stage_def is_failure_def)
next
  case (ticker_stops p)
  then show ?case using silent_part [of p TickerLoop] by (auto simp: at_ease_def returns_run_def at_stage_def)
qed (auto simp: at_ease_def process_defs split: if_splits)

lemma finished_ease:
  assumes "process_reachable p" and "pr_stage p c = Finished" and "pr_errs p = []"
  shows "pr_result p c = Some None"
proof -
  have "\<not> reported p c" using assms(3) by (simp add: reported_def)
  then obtain r where r: "pr_result p c = Some r" "\<not> is_failure r"
    using process_invD(3) [OF process_reachable_inv [OF assms(1)], of c] assms(2) by (auto split: option.splits)
  with plain_reachable [OF assms(1), of c] show ?thesis by (cases r) (auto simp: plain_part_def)
qed

section \<open>Commands\<close>

text \<open>A service that never reserved a slot has sent nothing.\<close>

lemma worker_step_opened: "worker_step n d = Some d' \<Longrightarrow> dl_opened d' = dl_opened d"
  by (auto simp: worker_step_def move_defs split: worker.splits list.splits)

lemma opened_stays: "delivery_step t u \<Longrightarrow> dl_opened t \<Longrightarrow> dl_opened u"
  by (erule delivery_step.cases)
    (auto simp: reserve_enter_def Let_def reserve_slot_def reserve_confirm_def start_lane_def move_defs close_delivery_def
      flush_batch_def enqueue_def worker_step_def split: if_splits worker.splits list.splits elim!: delivery_move_cases)

lemma unopened_sent: "delivery_reachable d \<Longrightarrow> \<not> dl_opened d \<Longrightarrow> dl_sent d = (\<lambda>_. [])"
proof -
  have "delivery_steps s d \<Longrightarrow> s = new_delivery \<Longrightarrow> \<not> dl_opened d \<Longrightarrow> dl_sent d = (\<lambda>_. [])" for s
  proof (induction rule: delivery_steps.induct)
    case (one_more s t u)
    have inv: "delivery_inv t"
      using one_more.hyps(1) one_more.prems(1) by (intro delivery_reachable_inv) (simp add: delivery_reachable_def)
    have before: "\<not> dl_opened t"
      using one_more.hyps(2) one_more.prems(2) opened_stays by blast
    from one_more.hyps(2) show ?case
    proof cases
      case moves
      then show ?thesis using one_more.IH [OF one_more.prems(1) before] by (simp add: delivery_move_sent)
    next
      case (flushes p n b)
      then show ?thesis using counts_okD(5) [OF inv before, of p] by simp
    qed
  qed (simp add: new_delivery_def)
  then show "delivery_reachable d \<Longrightarrow> \<not> dl_opened d \<Longrightarrow> dl_sent d = (\<lambda>_. [])"
    by (auto simp: delivery_reachable_def)
qed

text \<open>Only a command that begins opens the deliveries.\<close>

lemma opened_by_command:
  assumes "call_step k k'" and "\<not> dl_opened (cl_delivery k)" and "dl_opened (cl_delivery k')" and "\<not> dl_closed (cl_delivery k)"
  shows "\<exists>q. no_call k q \<and> \<not> no_call k' q"
  using assms
proof (induction rule: call_step.induct)
  case (call_enters s p n x d)
  then have "no_call s p \<and> \<not> no_call (s\<lparr>cl_delivery := d\<rparr>) p"
    by (auto simp: no_call_def reserve_enter_def Let_def goto_def split: if_splits)
  then show ?case ..
next
  case (call_moves s d)
  then show ?case
    by (auto simp: reserve_slot_def reserve_confirm_def start_lane_def move_defs split: if_splits elim!: lane_move.cases)
next
  case (call_works n s s')
  then show ?case using worker_step_opened [OF worker_call_delivery [OF call_works.hyps]] by simp
qed (auto simp: flush_call_def flush_batch_def enqueue_def move_defs await_call_def close_enter_def close_delivery_def
    close_proceed_def close_expire_def set_closer_def cancel_delivery_def Let_def split: closer.splits if_splits)

section \<open>The invariant\<close>

text \<open>
  No command of a part at ease is left; the drain begins when all parts have finished, and what it
  returned is part of the exit. On a service that never was opened, with all parts at ease, it
  stays so.
\<close>

definition program_inv :: "(nat \<Rightarrow> part) \<Rightarrow> process \<Rightarrow> calls \<Rightarrow> bool" where
  "program_inv own p k \<longleftrightarrow>
     process_reachable p \<and> call_reachable k \<and> (\<forall>c. c \<noteq> 0 \<longrightarrow> cl_closer k c = NotClosing) \<and>
     (\<forall>q. at_ease p (own q) \<longrightarrow> no_call k q) \<and>
     (cl_closer k 0 \<noteq> NotClosing \<longrightarrow> (\<forall>c. pr_stage p c = Finished)) \<and>
     (\<forall>r. cl_closer k 0 = Closed r \<and> \<not> dl_closed (cl_delivery k) \<and> (\<forall>c. at_ease p c) \<longrightarrow> \<not> dl_opened (cl_delivery k)) \<and>
     (\<forall>x. pr_exit p = Some x \<longrightarrow> (\<exists>r. cl_closer k 0 = Closed r \<and> fst x = drain_error r))"

lemma closed_flag:
  "call_step k k' \<Longrightarrow> cl_closer k' = cl_closer k \<Longrightarrow> dl_closed (cl_delivery k') = dl_closed (cl_delivery k)"
  if "calls_inv k"
proof -
  assume step: "call_step k k'" "cl_closer k' = cl_closer k"
  show "dl_closed (cl_delivery k') = dl_closed (cl_delivery k)"
    using call_step_kinds [OF step(1) that]
  proof (elim disjE exE)
    assume "undisturbed k k'"
    then show ?thesis by (simp add: undisturbed_def Let_def)
  next
    fix c assume c: "closing_step c k k'"
    have "cl_closer k' c \<noteq> cl_closer k c"
      using c by (auto simp: closing_step_def close_enter_def close_proceed_def close_expire_def set_closer_def
          cancel_delivery_def split: closer.splits if_splits)
    with step(2) show ?thesis by simp
  qed
qed

lemma program_invD:
  assumes "program_inv own p k"
  shows "process_reachable p" "call_reachable k" "c \<noteq> 0 \<Longrightarrow> cl_closer k c = NotClosing"
    "at_ease p (own q) \<Longrightarrow> no_call k q" "cl_closer k 0 \<noteq> NotClosing \<Longrightarrow> pr_stage p b = Finished"
    "cl_closer k 0 = Closed r \<Longrightarrow> \<not> dl_closed (cl_delivery k) \<Longrightarrow> (\<And>c. at_ease p c) \<Longrightarrow> \<not> dl_opened (cl_delivery k)"
    "pr_exit p = Some x \<Longrightarrow> \<exists>r. cl_closer k 0 = Closed r \<and> fst x = drain_error r"
  using assms unfolding program_inv_def by blast+

text \<open>Once every part has finished, only a signal can still come.\<close>

lemma finished_step:
  assumes "process_step p p'" and "process_inv p" and "\<And>c. pr_stage p c = Finished" and "pr_exit p' = None"
  shows "pr_stage p' = pr_stage p \<and> pr_result p' = pr_result p"
  using assms
  by (induction rule: process_step.induct) (auto simp: process_defs)

lemma program_step_inv:
  assumes "program_step own g g'" and "program_inv own (pg_process g) (pg_calls g)"
  shows "program_inv own (pg_process g') (pg_calls g')"
  using assms
proof (induction rule: program_step.induct)
  case (part_moves p p' k)
  then have inv: "program_inv own p k" by simp
  note D = program_invD [OF inv] and pinv = process_reachable_inv [OF program_invD(1) [OF inv]]
  have same: "pr_stage p' = pr_stage p \<and> pr_result p' = pr_result p" if "cl_closer k 0 \<noteq> NotClosing"
    by (rule finished_step [OF part_moves.hyps(1) pinv D(5) [OF that] part_moves.hyps(2)])
  have "no_call k q" if "at_ease p' (own q)" for q
    using that D(4) part_moves.hyps(3) by blast
  moreover have "process_reachable p'" by (rule process_goes_on [OF D(1) part_moves.hyps(1)])
  moreover have "at_ease p c" if "at_ease p' c" "cl_closer k 0 \<noteq> NotClosing" for c
    using that same by (simp add: at_ease_def)
  ultimately show ?case
    using D part_moves.hyps(2) same unfolding program_inv_def program.simps by (metis closer.distinct(7) option.distinct(1))
next
  case (command_moves k k' p)
  then have inv: "program_inv own p k" by simp
  note D = program_invD [OF inv]
  have closed: "dl_closed (cl_delivery k') = dl_closed (cl_delivery k)"
    by (rule closed_flag [OF call_reachable_inv [OF D(2)] command_moves.hyps(1,2)])
  have "\<not> dl_opened (cl_delivery k')"
    if "cl_closer k 0 = Closed r" "\<not> dl_closed (cl_delivery k)" "\<And>c. at_ease p c" for r
    using opened_by_command [OF command_moves.hyps(1) D(6) [OF that]] that(2,3) command_moves.hyps(4) by blast
  moreover have "no_call k' q" if "at_ease p (own q)" for q using D(4) that command_moves.hyps(4) by blast
  moreover have "call_reachable k'" by (rule calls_more [OF D(2) command_moves.hyps(1)])
  ultimately show ?case
    using inv command_moves.hyps(2) closed by (auto simp: program_inv_def)
next
  case (drain_begins p k)
  then have inv: "program_inv own p k" by simp
  note D = program_invD [OF inv]
  have "call_reachable (close_enter 0 k)" by (rule calls_more [OF D(2) call_closes]) (fact drain_begins)
  moreover have "no_call (close_enter 0 k) q = no_call k q" for q
    by (simp add: no_call_def close_enter_def set_closer_def close_delivery_def)
  ultimately show ?case
    using inv drain_begins.hyps
    by (auto simp: program_inv_def close_enter_def set_closer_def close_delivery_def)
next
  case (drain_moves k k' p)
  then have inv: "program_inv own p k" by simp
  note D = program_invD [OF inv]
  have "call_step k k'" using drain_moves.hyps(1) by (blast intro: call_proceeds call_close_expires)
  then have "call_reachable k'" by (rule calls_more [OF D(2)])
  moreover have "closer_ok k (cl_closer k 0)" using only_closer_ok [OF D(2,3)] .
  then have "dl_closed (cl_delivery k)" "cl_closer k 0 \<noteq> NotClosing" "cl_delivery k' = cl_delivery k"
    "cl_wait k' = cl_wait k" "\<And>c. c \<noteq> 0 \<Longrightarrow> cl_closer k' c = cl_closer k c" "\<And>r. cl_closer k 0 \<noteq> Closed r"
    using drain_moves.hyps(1)
    by (auto simp: close_proceed_def close_expire_def set_closer_def cancel_delivery_def closer_ok_def Let_def
        split: closer.splits if_splits)
  ultimately show ?case
    using inv drain_moves.hyps(2) by (auto simp: program_inv_def no_call_def)
next
  case (run_returns k r p)
  then have inv: "program_inv own p k" by simp
  note D = program_invD [OF inv]
  have "process_step p (finish_run (drain_error r) p)"
    by (rule drains) (use D(5) run_returns.hyps in auto)
  then have "process_reachable (finish_run (drain_error r) p)" by (rule process_goes_on [OF D(1)])
  then show ?case
    using inv run_returns.hyps by (auto simp: program_inv_def finish_run_def at_ease_def)
qed

lemma program_reachable_inv: "program_reachable own g \<Longrightarrow> program_inv own (pg_process g) (pg_calls g)"
proof (induction rule: program_reachable.induct)
  case program_begins
  show ?case
    by (auto simp: program_inv_def started_program_def process_begins calls_begin new_calls_def started_process_def
        no_call_def new_delivery_def calls_begin [unfolded new_calls_def new_delivery_def]
        process_begins [unfolded started_process_def])
next
  case (program_goes_on g g')
  then show ?case by (blast intro: program_step_inv)
qed

section \<open>The exit code\<close>

lemma success_drained:
  assumes "program_inv own p k" and "pr_exit p = Some x" and "exit_code x = 0"
  shows "pr_result p c = Some None" "no_call k q" "cl_live k n = dl_sent (cl_delivery k) n"
proof -
  note D = program_invD [OF assms(1)] and pinv = process_reachable_inv [OF program_invD(1) [OF assms(1)]]
  have x: "x = (None, [])" using assms(3) by (auto simp: exit_code_def split: if_splits)
  obtain r where r: "cl_closer k 0 = Closed r" "drain_error r = None" using D(7) [OF assms(2)] x by auto
  then have closer: "cl_closer k 0 = Closed None" by (cases r) (simp_all add: drain_error_def)
  have result: "pr_result p c = Some None" for c
    by (rule finished_ease [OF D(1)]) (use process_invD(5,6) [OF pinv assms(2)] x in simp_all)
  then have ease: "at_ease p c" for c by (simp add: at_ease_def)
  show "pr_result p c = Some None" "no_call k q" by (fact result) (rule D(4) [OF ease])
  show "cl_live k n = dl_sent (cl_delivery k) n"
  proof (cases "dl_closed (cl_delivery k)")
    case True
    show ?thesis by (rule closed_outcome(3) [OF D(2,3) closer True])
  next
    case False
    have lanes: "delivery_reachable (cl_delivery k)" by (rule calls_invD(1) [OF call_reachable_inv [OF D(2)]])
    have sent: "dl_sent (cl_delivery k) = (\<lambda>_. [])" by (rule unopened_sent [OF lanes D(6) [OF closer False ease]])
    have "closer_ok k (cl_closer k 0)" by (rule only_closer_ok [OF D(2)]) (rule D(3))
    then have "cl_live k = dl_out (cl_delivery k)" using closer False by (simp add: closer_ok_def Let_def)
    then show ?thesis using lanes.in_order [OF delivery_reachable_inv [OF lanes], of n] sent by simp
  qed
qed


section \<open>A sample run\<close>

text \<open>Until a part is at ease, the commands run as they like.\<close>

lemma commands_run:
  "call_reachable k \<Longrightarrow> (\<And>c. cl_closer k c = NotClosing) \<Longrightarrow>
     program_reachable own \<lparr>pg_process = started_process, pg_calls = k\<rparr>"
proof (induction rule: call_reachable.induct)
  case calls_begin
  show ?case using program_begins by (simp add: started_program_def)
next
  case (calls_more s s')
  have "undisturbed s s'"
    using call_step_kinds [OF calls_more.hyps(2) call_reachable_inv [OF calls_more.hyps(1)]]
      closing_starts [of _ s s'] calls_more.prems by blast
  then have same: "cl_closer s' = cl_closer s" by (simp add: undisturbed_def Let_def)
  then have "program_reachable own \<lparr>pg_process = started_process, pg_calls = s\<rparr>"
    using calls_more.IH calls_more.prems by simp
  then show ?case
    by (rule program_goes_on [OF _ command_moves [OF calls_more.hyps(2) same]])
       (simp_all add: started_process_def at_ease_def)
qed

text \<open>When all commands are done, a part may take any step.\<close>

lemma part_goes_on:
  assumes "program_reachable own \<lparr>pg_process = p, pg_calls = k\<rparr>" and "\<And>q. no_call k q" and "process_step p p'"
    and "pr_exit p' = None"
  shows "program_reachable own \<lparr>pg_process = p', pg_calls = k\<rparr>"
  by (rule program_goes_on [OF assms(1) part_moves [OF assms(3,4)]]) (rule assms(2))

text \<open>A server is shut down without an error.\<close>

lemma server_ends:
  assumes "program_reachable own \<lparr>pg_process = p, pg_calls = k\<rparr>" and "\<And>q. no_call k q"
    and "c \<noteq> TickerLoop" and "pr_cancelled p" and "pr_stage p c = Serving" and "pr_listener p c = None" and "pr_exit p = None"
  shows "program_reachable own \<lparr>pg_process = returns_run c None
    (p\<lparr>pr_stage := (pr_stage p)(c := Collecting None), pr_listener := (pr_listener p)(c \<mapsto> ServerClosed)\<rparr>), pg_calls = k\<rparr>"
proof -
  let ?p1 = "at_stage c ShuttingDown p"
  let ?p2 = "at_stage c (Collecting None) ?p1"
  let ?p3 = "?p2\<lparr>pr_listener := (pr_listener ?p2)(c \<mapsto> ServerClosed)\<rparr>"
  note go = part_goes_on [OF _ assms(2)]
  have "program_reachable own \<lparr>pg_process = ?p1, pg_calls = k\<rparr>"
    by (rule go [OF assms(1) server_stops]) (use assms(3-7) in \<open>simp_all add: at_stage_def\<close>)
  then have "program_reachable own \<lparr>pg_process = ?p2, pg_calls = k\<rparr>"
    by (rule go [OF _ server_shut]) (use assms(7) in \<open>simp_all add: at_stage_def\<close>)
  then have "program_reachable own \<lparr>pg_process = ?p3, pg_calls = k\<rparr>"
    by (rule go [OF _ listener_ends]) (use assms(3,6,7) in \<open>simp_all add: at_stage_def\<close>)
  then have "program_reachable own \<lparr>pg_process = returns_run c None ?p3, pg_calls = k\<rparr>"
    by (rule go [OF _ server_collects]) (use assms(7) in \<open>simp_all add: returns_run_def at_stage_def\<close>)
  then show ?thesis by (simp add: at_stage_def)
qed

text \<open>
  The sample command publishes its event and returns; a signal comes, the parts stop, and the
  deliveries are drained.
\<close>

definition sample_answered :: calls where
  "sample_answered =
     (let s = work_calls 5 ''c'' sample_waiting
      in s\<lparr>cl_delivery := worker_done (cl_delivery s), cl_wait := (cl_wait s)(0 := None)\<rparr>)"

definition sample_closed :: calls where
  "sample_closed = the (close_proceed 0 (the (close_proceed 0 (close_enter 0 sample_answered))))"

lemma sample_answered_run:
  "call_reachable sample_answered" "cl_closer sample_answered c = NotClosing" "no_call sample_answered q"
  "cl_live sample_answered ''c'' = [sample_event]"
  "close_proceed 0 (close_enter 0 sample_answered) = Some (the (close_proceed 0 (close_enter 0 sample_answered)))"
  "close_proceed 0 (the (close_proceed 0 (close_enter 0 sample_answered))) = Some sample_closed"
  "cl_closer sample_closed 0 = Closed None" "cl_live sample_closed ''c'' = [sample_event]"
proof -
  let ?s1 = "work_calls 5 ''c'' sample_waiting"
  let ?s2 = "?s1\<lparr>cl_delivery := worker_done (cl_delivery ?s1)\<rparr>"
  have "call_reachable ?s2"
    by (rule calls_more [OF work_calls_reachable [OF sample_waiting_reachable] call_moves [OF lane_leaves]])
       (simp add: call_run_defs numeral_eq_Suc)
  then have "call_reachable (?s2\<lparr>cl_wait := (cl_wait ?s2)(0 := None)\<rparr>)"
    by (rule calls_more [OF _ call_returns]) (simp_all add: call_run_defs numeral_eq_Suc)
  then show "call_reachable sample_answered" by (simp add: sample_answered_def Let_def)
qed (simp_all add: sample_answered_def sample_closed_def no_call_def call_run_defs numeral_eq_Suc)

definition sample_stopped :: process where
  "sample_stopped =
     (let stop = (\<lambda>c p. returns_run c None (p\<lparr>pr_stage := (pr_stage p)(c := Collecting None),
            pr_listener := (pr_listener p)(c \<mapsto> ServerClosed)\<rparr>))
      in returns_run TickerLoop None (stop WebServer (stop ApiServer (cancel_run started_process))))"

lemmas sample_stop_defs = sample_stopped_def cancel_run_def started_process_def returns_run_def at_stage_def
  is_failure_def finish_run_def

lemma sample_program:
  "program_reachable own \<lparr>pg_process = finish_run None sample_stopped, pg_calls = sample_closed\<rparr>"
proof -
  let ?p0 = "cancel_run started_process" and ?k = sample_answered
  let ?stop = "\<lambda>c p. returns_run c None (p\<lparr>pr_stage := (pr_stage p)(c := Collecting None),
    pr_listener := (pr_listener p)(c \<mapsto> ServerClosed)\<rparr>)"
  note run = sample_answered_run
  note go = part_goes_on [OF _ run(3)] and stops = server_ends [OF _ run(3)]
  have "program_reachable own \<lparr>pg_process = started_process, pg_calls = ?k\<rparr>"
    by (rule commands_run [OF run(1,2)])
  then have "program_reachable own \<lparr>pg_process = ?p0, pg_calls = ?k\<rparr>"
    by (rule go [OF _ signalled]) (simp_all add: sample_stop_defs)
  then have "program_reachable own \<lparr>pg_process = ?stop ApiServer ?p0, pg_calls = ?k\<rparr>"
    by (rule stops) (simp_all add: sample_stop_defs)
  then have "program_reachable own \<lparr>pg_process = ?stop WebServer (?stop ApiServer ?p0), pg_calls = ?k\<rparr>"
    by (rule stops) (simp_all add: sample_stop_defs)
  then have "program_reachable own \<lparr>pg_process = sample_stopped, pg_calls = ?k\<rparr>"
    unfolding sample_stopped_def Let_def
    by (rule go [OF _ ticker_stops]) (simp_all add: sample_stop_defs)
  moreover have "pr_stage sample_stopped c = Finished" "pr_exit sample_stopped = None" for c
    by (cases c; simp add: sample_stop_defs)+
  ultimately have "program_reachable own \<lparr>pg_process = sample_stopped, pg_calls = close_enter 0 ?k\<rparr>"
    and alive: "pr_exit sample_stopped = None"
    using run(2) by (auto intro: program_goes_on drain_begins)
  then have "program_reachable own \<lparr>pg_process = sample_stopped, pg_calls = sample_closed\<rparr>"
    using run(5,6) by (blast intro: program_goes_on drain_moves)
  from program_goes_on [OF this run_returns [OF run(7) alive]] show ?thesis by (simp add: drain_error_def)
qed


end
