(* ===== verification/Shutdown_Laws.thy ===== *)
theory Shutdown_Laws
  imports Program_Props
begin

text \<open>
  The program is never stuck: from every reachable state the commands can finish, the parts can
  return, the workers can drain their lanes and \<open>run\<close> can return.
\<close>

section \<open>Commands finish\<close>

text \<open>A step that belongs to a command or a worker and starts no command.\<close>

definition command_step :: "calls \<Rightarrow> calls \<Rightarrow> bool" where
  "command_step k k' \<longleftrightarrow>
     call_step k k' \<and> cl_closer k' = cl_closer k \<and> (\<forall>q. no_call k q \<longrightarrow> no_call k' q)"

abbreviation command_steps :: "calls \<Rightarrow> calls \<Rightarrow> bool" where
  "command_steps \<equiv> command_step\<^sup>*\<^sup>*"

lemma command_steps_keep:
  "command_steps k k' \<Longrightarrow> call_reachable k \<Longrightarrow>
     call_reachable k' \<and> cl_closer k' = cl_closer k \<and> (\<forall>q. no_call k q \<longrightarrow> no_call k' q)"
  by (induction rule: rtranclp_induct) (auto simp: command_step_def intro: calls_more)

text \<open>How far a command is from its end.\<close>

fun producer_rank :: "producer \<Rightarrow> nat" where
  "producer_rank Outside = 0"
| "producer_rank (Selecting n) = 1"
| "producer_rank (Acquired n) = 4"
| "producer_rank (Working n) = 3"
| "producer_rank (Enqueued n) = 3"
| "producer_rank (Kicked n) = 2"
| "producer_rank (Emptied n) = 2"
| "producer_rank (Unslotting n) = 1"

definition call_rank :: "calls \<Rightarrow> nat \<Rightarrow> nat" where
  "call_rank k q = producer_rank (dl_producer (cl_delivery k) q) + (if cl_wait k q = None then 0 else 1)"

lemma rank_zero: "call_rank k q = 0 \<longleftrightarrow> no_call k q"
  by (cases "dl_producer (cl_delivery k) q") (auto simp: call_rank_def no_call_def)

definition advances :: "nat \<Rightarrow> calls \<Rightarrow> calls \<Rightarrow> bool" where
  "advances q k k' \<longleftrightarrow>
     call_step k k' \<and> cl_closer k' = cl_closer k \<and> call_rank k' q < call_rank k q \<and>
     (\<forall>p. p \<noteq> q \<longrightarrow> call_rank k' p = call_rank k p)"

lemma advances_command: "advances q k k' \<Longrightarrow> command_step k k'"
  unfolding advances_def command_step_def rank_zero [symmetric] by (metis less_nat_zero_code)

lemma advances_lane:
  assumes "lane_move (cl_delivery k) d" and "producer_rank (dl_producer d q) < producer_rank (dl_producer (cl_delivery k) q)"
    and "\<And>p. p \<noteq> q \<Longrightarrow> dl_producer d p = dl_producer (cl_delivery k) p"
  shows "advances q k (k\<lparr>cl_delivery := d\<rparr>)"
  using assms by (auto simp: advances_def call_rank_def intro: call_moves)

lemma start_lane_producer: "dl_producer (start_lane n d) = dl_producer d"
  by (simp add: start_lane_def move_defs)

lemma command_advances:
  assumes "\<not> no_call k q"
  shows "\<exists>k'. advances q k k'"
proof (cases "dl_producer (cl_delivery k) q")
  case Outside
  then obtain n c where wait: "cl_wait k q = Some (n, c)" using assms by (auto simp: no_call_def)
  have "advances q k (k\<lparr>cl_wait := (cl_wait k)(q := None)\<rparr>)"
    using call_expires [OF wait] wait by (simp add: advances_def call_rank_def)
  then show ?thesis ..
next
  case (Selecting n)
  have "advances q k (k\<lparr>cl_delivery := goto q Outside (cl_delivery k)\<rparr>)"
    by (rule advances_lane [OF lane_gives_up [OF Selecting]]) (simp_all add: goto_def Selecting)
  then show ?thesis ..
next
  case (Acquired n)
  obtain x d where c: "reserve_confirm q n (cl_delivery k) = (x, d)" by fastforce
  have "advances q k (k\<lparr>cl_delivery := d\<rparr>)"
    by (rule advances_lane [OF lane_confirms [OF Acquired c]])
       (use c in \<open>auto simp: reserve_confirm_def move_defs Acquired split: if_splits\<close>)
  then show ?thesis ..
next
  case (Working n)
  have "advances q k (flush_call q n [] k)"
    using call_flushes [OF Working, of "[]"] Working
    by (auto simp: advances_def call_rank_def flush_call_def flush_batch_def goto_def)
  then show ?thesis ..
next
  case (Enqueued n)
  have "advances q k (k\<lparr>cl_delivery := goto q (Kicked n) (start_lane n (cl_delivery k))\<rparr>)"
    by (rule advances_lane [OF lane_starts [OF Enqueued]]) (simp_all add: goto_def start_lane_producer Enqueued)
  then show ?thesis ..
next
  case (Kicked n)
  have "advances q k (await_call q n k)"
    using call_awaits [OF Kicked] Kicked
    by (auto simp: advances_def call_rank_def await_call_def move_defs)
  then show ?thesis ..
next
  case (Emptied n)
  have "advances q k (k\<lparr>cl_delivery := producer_done q (Unslotting n) (cl_delivery k)\<rparr>)"
    by (rule advances_lane [OF lane_empty [OF Emptied]]) (simp_all add: move_defs Emptied)
  then show ?thesis ..
next
  case (Unslotting n)
  have "advances q k (k\<lparr>cl_delivery := goto q Outside (release_slot n (cl_delivery k))\<rparr>)"
    by (rule advances_lane [OF lane_unslots [OF Unslotting]]) (simp_all add: move_defs Unslotting)
  then show ?thesis ..
qed

text \<open>Only finitely many commands are under way.\<close>

lemma waits_finite: "call_reachable k \<Longrightarrow> finite (dom (cl_wait k))"
proof (induction rule: call_reachable.induct)
  case calls_begin
  show ?case by (simp add: new_calls_def)
next
  case (calls_more s s')
  have "dom (cl_wait s') \<subseteq> dom (cl_wait s) \<or> (\<exists>p. dom (cl_wait s') \<subseteq> insert p (dom (cl_wait s)))"
    using calls_more.hyps(2)
  proof (induction rule: call_step.induct)
    case (call_works n s s')
    then show ?case using worker_call_fields(4) [OF call_works.hyps] by simp
  qed (auto simp: flush_call_def Let_def await_call_def close_enter_def close_proceed_def close_expire_def set_closer_def
      cancel_delivery_def split: closer.splits if_splits)
  then show ?case using calls_more.IH by (meson finite.insertI finite_subset)
qed

lemma commands_finite:
  assumes "call_reachable k"
  shows "finite {q. \<not> no_call k q}"
proof -
  have "delivery_inv (cl_delivery k)"
    by (rule delivery_reachable_inv [OF calls_invD(1) [OF call_reachable_inv [OF assms]]])
  then have "finite {q. dl_producer (cl_delivery k) q \<noteq> Outside}"
    using counts_okD(1) by (simp add: settled_def)
  moreover have "{q. \<not> no_call k q} \<subseteq> {q. dl_producer (cl_delivery k) q \<noteq> Outside} \<union> dom (cl_wait k)"
    by (auto simp: no_call_def)
  ultimately show ?thesis using waits_finite [OF assms] by (meson finite_Un finite_subset)
qed

lemma commands_finish:
  assumes "call_reachable k"
  shows "\<exists>k'. command_steps k k' \<and> (\<forall>q. no_call k' q)"
proof -
  have "\<exists>k'. command_steps k k' \<and> (\<forall>q. no_call k' q)"
    if "finite S" "\<And>q. q \<notin> S \<Longrightarrow> no_call k q" for S k
    using that
  proof (induction "sum (call_rank k) S" arbitrary: k rule: less_induct)
    case less
    show ?case
    proof (cases "\<forall>q. no_call k q")
      case False
      then obtain q where q: "\<not> no_call k q" by blast
      then obtain k1 where step: "advances q k k1" using command_advances by blast
      have "q \<in> S" using q less.prems(2) by blast
      moreover have "call_rank k1 x \<le> call_rank k x" for x
        using step by (cases "x = q") (simp_all add: advances_def)
      moreover have "call_rank k1 q < call_rank k q" using step by (simp add: advances_def)
      ultimately have "sum (call_rank k1) S < sum (call_rank k) S"
        using less.prems(1) by (intro sum_strict_mono_ex1) blast+
      moreover have "no_call k1 p" if "p \<notin> S" for p
        using advances_command [OF step] less.prems(2) [OF that] by (simp add: command_step_def)
      ultimately obtain k' where "command_steps k1 k'" "\<forall>q. no_call k' q"
        using less.hyps [of k1] less.prems(1) by blast
      with advances_command [OF step] show ?thesis by (blast intro: converse_rtranclp_into_rtranclp)
    qed blast
  qed
  from this [OF commands_finite [OF assms], of k] show ?thesis by blast
qed

section \<open>Workers finish\<close>

lemma worker_step_workers: "worker_step n d = Some d' \<Longrightarrow> dl_workers d' = dl_workers d"
  by (auto simp: worker_step_def move_defs split: worker.splits list.splits)

lemma worker_command:
  assumes "worker_call n k = Some k'"
  shows "command_step k k'"
  using call_works [OF assms] worker_call_fields(4,5) [OF assms] worker_step_fields(1) [OF worker_call_delivery [OF assms]]
  by (simp add: command_step_def no_call_def)

text \<open>A worker, left alone, empties its lane and leaves.\<close>

lemma lane_finishes:
  "\<exists>k'. command_steps k k' \<and> dl_worker (cl_delivery k') n = NoWorker \<and>
     (\<forall>m. m \<noteq> n \<longrightarrow> dl_worker (cl_delivery k') m = dl_worker (cl_delivery k) m) \<and>
     dl_workers (cl_delivery k') = dl_workers (cl_delivery k)"
proof (induction "lane_work n (cl_delivery k)" arbitrary: k rule: less_induct)
  case less
  show ?case
  proof (cases "worker_step n (cl_delivery k)")
    case None
    then show ?thesis using worker_step_none by blast
  next
    case (Some d)
    then obtain k1 where k1: "worker_call n k = Some k1" by (auto simp: worker_call_def)
    note d = worker_call_delivery [OF k1]
    obtain k' where k': "command_steps k1 k'" "dl_worker (cl_delivery k') n = NoWorker"
      "\<forall>m. m \<noteq> n \<longrightarrow> dl_worker (cl_delivery k') m = dl_worker (cl_delivery k1) m"
      "dl_workers (cl_delivery k') = dl_workers (cl_delivery k1)"
      using less [of k1] worker_step_work [OF d] by force
    have "command_steps k k'" using worker_command [OF k1] k'(1) by (rule converse_rtranclp_into_rtranclp)
    with k' worker_step_fields(4) [OF d] worker_step_workers [OF d] show ?thesis by (intro exI [of _ k']) simp
  qed
qed

lemma workers_finish:
  "call_reachable k \<Longrightarrow> \<exists>k'. command_steps k k' \<and> dl_workers (cl_delivery k') = 0"
proof (induction "2 * dl_workers (cl_delivery k) - dl_leaving (cl_delivery k)" arbitrary: k rule: less_induct)
  case less
  let ?d = "cl_delivery k"
  have inv: "delivery_inv (cl_delivery k)" if "call_reachable k" for k
    by (rule delivery_reachable_inv [OF calls_invD(1) [OF call_reachable_inv [OF that]]])
  note count = counts_okD(4) [OF inv]
  show ?case
  proof (cases "dl_workers ?d = 0")
    case False
    obtain k1 where k1: "command_steps k k1"
      "2 * dl_workers (cl_delivery k1) - dl_leaving (cl_delivery k1) < 2 * dl_workers ?d - dl_leaving ?d"
    proof (cases "dl_leaving ?d = 0")
      case True
      then have "tally (\<lambda>w. w \<noteq> NoWorker) (dl_worker ?d) \<noteq> 0" using False count [OF less.prems] by simp
      then obtain n where n: "dl_worker ?d n \<noteq> NoWorker" by (auto simp: tally_def card_gt_0_iff)
      obtain k1 where k1: "command_steps k k1" "dl_worker (cl_delivery k1) n = NoWorker"
        "\<forall>m. m \<noteq> n \<longrightarrow> dl_worker (cl_delivery k1) m = dl_worker ?d m"
        "dl_workers (cl_delivery k1) = dl_workers ?d"
        using lane_finishes by blast
      have "dl_worker (cl_delivery k1) = (dl_worker ?d)(n := NoWorker)" using k1(2,3) by auto
      then have "tally (\<lambda>w. w \<noteq> NoWorker) (dl_worker (cl_delivery k1)) < tally (\<lambda>w. w \<noteq> NoWorker) (dl_worker ?d)"
        using worker_moves [OF inv [OF less.prems], of n NoWorker] n by simp
      moreover have "call_reachable k1" using command_steps_keep [OF k1(1) less.prems] by blast
      ultimately have "dl_leaving ?d < dl_leaving (cl_delivery k1)"
        using count [OF less.prems] count [of k1] k1(4) by simp
      with k1(1,4) count [OF less.prems] False True that [of k1] show ?thesis by simp
    next
      case leaving: False
      let ?k = "k\<lparr>cl_delivery := worker_done ?d\<rparr>"
      have "command_step k ?k"
        using call_moves [OF lane_leaves] leaving by (simp add: command_step_def no_call_def worker_done_def)
      then have "command_steps k ?k" by blast
      with that [of ?k] leaving False count [OF less.prems] show ?thesis by (simp add: worker_done_def)
    qed
    have "call_reachable k1" using command_steps_keep [OF k1(1) less.prems] by blast
    with less.hyps [OF k1(2)] k1(1) show ?thesis by (meson rtranclp_trans)
  qed blast
qed

section \<open>The program ends\<close>

abbreviation program_steps :: "(nat \<Rightarrow> part) \<Rightarrow> program \<Rightarrow> program \<Rightarrow> bool" where
  "program_steps own \<equiv> (program_step own)\<^sup>*\<^sup>*"

lemma commands_program:
  assumes "command_steps k k'" and "pr_exit p = None"
  shows "program_steps own \<lparr>pg_process = p, pg_calls = k\<rparr> \<lparr>pg_process = p, pg_calls = k'\<rparr>"
  using assms(1)
proof (induction rule: rtranclp_induct)
  case (step k1 k2)
  then have "program_step own \<lparr>pg_process = p, pg_calls = k1\<rparr> \<lparr>pg_process = p, pg_calls = k2\<rparr>"
    using assms(2) by (intro command_moves) (auto simp: command_step_def)
  with step.IH show ?case by simp
qed simp

lemma exit_only_drained:
  "process_step p p' \<Longrightarrow> pr_exit p = None \<Longrightarrow> pr_stage p c \<noteq> Finished \<Longrightarrow> pr_exit p' = None"
  by (induction rule: process_step.induct) (auto simp: process_defs split: if_splits)

lemma parts_finish:
  assumes "process_reachable p" and "pr_exit p = None" and "\<And>q. no_call k q"
  shows "\<exists>p'. program_steps own \<lparr>pg_process = p, pg_calls = k\<rparr> \<lparr>pg_process = p', pg_calls = k\<rparr> \<and>
    pr_exit p' = None \<and> (\<forall>c. pr_stage p' c = Finished)"
  using assms(1,2)
proof (induction "process_work p" arbitrary: p rule: less_induct)
  case less
  show ?case
  proof (cases "\<forall>c. pr_stage p c = Finished")
    case False
    then obtain c where c: "pr_stage p c \<noteq> Finished" by blast
    obtain p1 where p1: "process_step p p1"
      using process_progress [OF process_reachable_inv [OF less.prems(1)] less.prems(2)] by blast
    note exit = exit_only_drained [OF p1 less.prems(2) c]
    have "program_step own \<lparr>pg_process = p, pg_calls = k\<rparr> \<lparr>pg_process = p1, pg_calls = k\<rparr>"
      by (rule part_moves [OF p1 exit]) (rule assms(3))
    with less.hyps [OF process_step_work [OF p1] process_goes_on [OF less.prems(1) p1] exit] show ?thesis
      by (blast intro: converse_rtranclp_into_rtranclp)
  qed (use less.prems in blast)
qed

text \<open>The drain ends: a wait for commands expires, a wait for workers is over when they are.\<close>

lemma drain_ends:
  assumes "program_inv own p k" and "pr_exit p = None" and "\<forall>c. pr_stage p c = Finished"
  shows "\<exists>k' r. program_steps own \<lparr>pg_process = p, pg_calls = k\<rparr> \<lparr>pg_process = p, pg_calls = k'\<rparr> \<and>
    cl_closer k' 0 = Closed r"
proof -
  note D = program_invD [OF assms(1)]
  let ?at = "\<lambda>k. \<lparr>pg_process = p, pg_calls = k\<rparr>"
  have moves: "program_step own (?at k) (?at k')" if "close_proceed 0 k = Some k' \<or> close_expire 0 k = Some k'" for k k'
    by (rule drain_moves [OF that assms(2)])
  have producers: "\<exists>k'. program_steps own (?at k) (?at k') \<and> cl_closer k' 0 = Closed (Some ErrContext)"
    if "cl_closer k 0 = AwaitProducers" for k
    using moves [of k "the (close_expire 0 k)"] that
    by (intro exI [of _ "the (close_expire 0 k)"]) (auto simp: close_expire_def set_closer_def)
  have workers: "\<exists>k'. program_steps own (?at k) (?at k') \<and> (\<exists>r. cl_closer k' 0 = Closed r)"
    if at: "cl_closer k 0 = AwaitWorkers \<or> cl_closer k 0 = Draining" and reach: "call_reachable k" for k
  proof -
    obtain k1 where k1: "command_steps k k1" "dl_workers (cl_delivery k1) = 0"
      using workers_finish [OF reach] by blast
    have "cl_closer k1 = cl_closer k" using command_steps_keep [OF k1(1) reach] by blast
    then have "\<exists>k2 r. close_proceed 0 k1 = Some k2 \<and> cl_closer k2 0 = Closed r"
      using at k1(2) by (auto simp: close_proceed_def set_closer_def)
    then obtain k2 r where "close_proceed 0 k1 = Some k2" "cl_closer k2 0 = Closed r" by blast
    with commands_program [OF k1(1) assms(2)] moves [of k1 k2] show ?thesis
      by (blast intro: rtranclp.rtrancl_into_rtrancl)
  qed
  show ?thesis
  proof (cases "cl_closer k 0")
    case NotClosing
    have step: "program_step own (?at k) (?at (close_enter 0 k))" by (rule drain_begins [OF assms(3,2) NotClosing])
    have "cl_closer (close_enter 0 k) 0 = AwaitProducers \<or> cl_closer (close_enter 0 k) 0 = Closed None"
      by (simp add: close_enter_def set_closer_def)
    with step producers [of "close_enter 0 k"] show ?thesis
      by (blast intro: converse_rtranclp_into_rtranclp)
  qed (use producers [of k] workers [of k] D(2) in blast)+
qed

end
