(* ===== verification/Shutdown_Props.thy ===== *)
theory Shutdown_Props
  imports Shutdown_Laws
begin

text \<open>
  The program can always end, and a start-up that must fail never serves a request.
\<close>

section \<open>Shutdown\<close>

lemma program_steps_reachable: "program_steps own g g' \<Longrightarrow> program_reachable own g \<Longrightarrow> program_reachable own g'"
  by (induction rule: rtranclp_induct) (auto intro: program_goes_on)

text \<open>
  C12. Shutdown never gets stuck: whatever the commands, the workers, the parts and the drain are
  doing, from every reachable state the program can exit: no order in which they take slots, send
  on channels and enter wait groups leaves it without a way to the end.
\<close>

theorem program_can_end:
  assumes "program_reachable own g"
  shows "\<exists>g' x. program_steps own g g' \<and> pr_exit (pg_process g') = Some x"
proof (cases "pr_exit (pg_process g)")
  case None
  let ?at = "\<lambda>p k. \<lparr>pg_process = p, pg_calls = k\<rparr>"
  let ?p = "pg_process g" and ?k = "pg_calls g"
  have inv: "program_inv own (pg_process h) (pg_calls h)" if "program_steps own g h" for h
    by (rule program_reachable_inv [OF program_steps_reachable [OF that assms]])
  note D = program_invD [OF inv [OF rtranclp.rtrancl_refl]]
  obtain k1 where k1: "command_steps ?k k1" "\<And>q. no_call k1 q" using commands_finish [OF D(2)] by blast
  obtain p1 where p1: "program_steps own (?at ?p k1) (?at p1 k1)" "pr_exit p1 = None" "\<forall>c. pr_stage p1 c = Finished"
    using parts_finish [OF D(1) None k1(2)] by blast
  have "program_steps own g (?at p1 k1)"
    using commands_program [OF k1(1) None, of own] p1(1) by (cases g) (simp add: rtranclp_trans)
  from inv [OF this] have "program_inv own p1 k1" by simp
  from drain_ends [OF this p1(2,3)] obtain k2 r where
    k2: "program_steps own (?at p1 k1) (?at p1 k2)" "cl_closer k2 0 = Closed r" by blast
  have "program_step own (?at p1 k2) (?at (finish_run (drain_error r) p1) k2)"
    by (rule run_returns [OF k2(2) p1(2)])
  with \<open>program_steps own g (?at p1 k1)\<close> k2(1)
  have "program_steps own g (?at (finish_run (drain_error r) p1) k2)"
    by (meson rtranclp.rtrancl_into_rtrancl rtranclp_trans)
  moreover have "pr_exit (pg_process (?at (finish_run (drain_error r) p1) k2)) = Some (drain_error r, pr_errs p1)"
    by (simp add: finish_run_def)
  ultimately show ?thesis by blast
qed blast

theorem program_can_end_witness:
  "\<exists>g' x. program_steps (\<lambda>q. TickerLoop) \<lparr>pg_process = started_process, pg_calls = sample_waiting\<rparr> g' \<and>
     pr_exit (pg_process g') = Some x"
  by (rule program_can_end [OF commands_run [OF sample_waiting_reachable]]) (simp add: call_run_defs)

section \<open>A start-up that fails\<close>

lemma engine_missing:
  assumes "b \<in> set bs"
    and "BuildEngine bd (bi_Configuration b) (findRuleSet sets (cfg_RuleSetName (bi_Configuration b))) = Inl e"
  shows "\<exists>n e. register_engines bd sets bs m = Inl (n, e)"
  using assms(1)
proof (induction bs arbitrary: m)
  case (Cons c bs)
  show ?case
  proof (cases "BuildEngine bd (bi_Configuration c) (findRuleSet sets (cfg_RuleSetName (bi_Configuration c)))")
    case (Inr eng)
    with assms(2) have "c \<noteq> b" by auto
    then show ?thesis using Cons Inr by simp
  qed simp
qed simp

text \<open>
  C20. A rule set file that holds the JSON document \<open>null\<close> passes the loading of the configuration but
  never serves: the process ends during the set-up with a failure, and by a panic when the rule
  set is that of the first configuration.
\<close>

theorem null_ruleset_panics:
  assumes "LoadFile fs path = Inr l" and "b \<in> set (ld_Configurations l)"
    and "bd_decode bd (rs_Body (findRuleSet (ld_RuleSets l) (cfg_RuleSetName (bi_Configuration b)))) = Inr None"
    and "program_ends fs path bd ou own end code"
  shows "(\<exists>e. end = NotStarted e) \<and> code \<in> {1, 2} \<and> (b = hd (ld_Configurations l) \<longrightarrow> code = 2)"
proof -
  have build: "BuildEngine bd (bi_Configuration b) (findRuleSet (ld_RuleSets l) (cfg_RuleSetName (bi_Configuration b))) =
      Inl NilMapPanic"
    by (rule null_build_panics [OF assms(3)])
  obtain n e where reg: "register_engines bd (ld_RuleSets l) (ld_Configurations l) Map.empty = Inl (n, e)"
    using engine_missing [OF assms(2) build] by blast
  then have fails: "run_setup bd ou ids mids l = Inl (EngineFailed n e)" for ids mids
    by (simp add: run_setup_def)
  have "e = NilMapPanic" if "b = hd (ld_Configurations l)"
    using that reg build assms(2) by (cases "ld_Configurations l") auto
  with fails assms(1) show ?thesis
    by (cases rule: program_ends.cases [OF assms(4)]) (auto simp: failure_code_def)
qed

text \<open>The sample file with a rule set of the document \<open>null\<close>.\<close>

definition null_files :: files where
  "null_files = toy_files\<lparr>os_ReadFile := (os_ReadFile toy_files)(''r.json'' := Inr ''null'')\<rparr>"

definition null_loaded :: loaded where
  "null_loaded = (case LoadFile null_files ''etc/config.yaml'' of Inr l \<Rightarrow> l)"

lemma null_load: "LoadFile null_files ''etc/config.yaml'' = Inr null_loaded"
  by (simp add: null_loaded_def null_files_def toy_config_defs)

theorem null_ruleset_panics_witness:
  "\<exists>e. program_ends null_files ''etc/config.yaml'' toy_builder toy_outside (\<lambda>q. ApiServer) (NotStarted e) 2"
proof -
  obtain b where b: "ld_Configurations null_loaded = [b]"
    "rs_Body (findRuleSet (ld_RuleSets null_loaded) (cfg_RuleSetName (bi_Configuration b))) = ''null''"
    by (simp add: null_loaded_def null_files_def toy_config_defs findRuleSet_def)
  then have body: "bd_decode toy_builder
      (rs_Body (findRuleSet (ld_RuleSets null_loaded) (cfg_RuleSetName (bi_Configuration b)))) = Inr None"
    by (simp add: toy_builder_def)
  obtain e where "run_setup toy_builder toy_outside (NewSequence ''t-'') (NewSequence ''m-'') null_loaded = Inl e"
    using null_build_panics [OF body] b(1) by (simp add: run_setup_def)
  from ends_unstarted [OF null_load this]
  have ends: "program_ends null_files ''etc/config.yaml'' toy_builder toy_outside (\<lambda>q. ApiServer) (NotStarted e) (failure_code e)" .
  have "b \<in> set (ld_Configurations null_loaded)" "b = hd (ld_Configurations null_loaded)" by (simp_all add: b(1))
  with null_ruleset_panics [OF null_load _ body ends] have "failure_code e = 2" by blast
  with ends show ?thesis by (intro exI [of _ e]) simp
qed

end
