(* ===== verification/Clock.thy ===== *)
theory Clock
  imports Go_Lib
begin

text \<open>
  The controllable clock of \<open>internal/app/defaults/sysclock/clock.go\<close>, whose methods are critical
  sections of one mutex, and what its readings are. The system clock itself is the environment's:
  every operation of the model takes the instant it reads as an argument.
\<close>

record fake_clock =
  fk_now :: gotime

definition NewFake :: "gotime \<Rightarrow> fake_clock" where
  "NewFake t = \<lparr>fk_now = t\<rparr>"

definition Fake_Now :: "fake_clock \<Rightarrow> gotime" where
  "Fake_Now c = fk_now c"

definition Fake_Advance :: "duration \<Rightarrow> fake_clock \<Rightarrow> fake_clock" where
  "Fake_Advance d c = c\<lparr>fk_now := fk_now c + d\<rparr>"

definition Fake_Set :: "gotime \<Rightarrow> fake_clock \<Rightarrow> fake_clock" where
  "Fake_Set t c = c\<lparr>fk_now := t\<rparr>"

text \<open>A sequence of calls, in the order the mutex lets them in, with what the readers got.\<close>

datatype clock_call = CallNow | CallAdvance duration | CallSet gotime

fun clock_run :: "clock_call list \<Rightarrow> fake_clock \<Rightarrow> gotime list \<times> fake_clock" where
  "clock_run [] c = ([], c)"
| "clock_run (CallNow # cs) c = (case clock_run cs c of (ts, c') \<Rightarrow> (Fake_Now c # ts, c'))"
| "clock_run (CallAdvance d # cs) c = clock_run cs (Fake_Advance d c)"
| "clock_run (CallSet t # cs) c = clock_run cs (Fake_Set t c)"

fun forward :: "clock_call \<Rightarrow> bool" where
  "forward CallNow = True"
| "forward (CallAdvance d) = (0 \<le> d)"
| "forward (CallSet t) = False"

text \<open>As long as the clock is only advanced, readers see time go on.\<close>

lemma readings_sorted:
  "list_all forward cs \<Longrightarrow> clock_run cs c = (ts, c') \<Longrightarrow>
     sorted ts \<and> (\<forall>t\<in>set ts. Fake_Now c \<le> t \<and> t \<le> Fake_Now c') \<and> Fake_Now c \<le> Fake_Now c'"
proof (induction cs c arbitrary: ts rule: clock_run.induct)
  case (2 cs c)
  then show ?case by (auto split: prod.splits)
next
  case (3 d cs c)
  then have "sorted ts \<and> (\<forall>t\<in>set ts. Fake_Now (Fake_Advance d c) \<le> t \<and> t \<le> Fake_Now c') \<and>
      Fake_Now (Fake_Advance d c) \<le> Fake_Now c'"
    by simp
  moreover have "Fake_Now c \<le> Fake_Now (Fake_Advance d c)"
    using 3(2) by (simp add: Fake_Now_def Fake_Advance_def)
  ultimately show ?case by force
qed simp_all

text \<open>The clock shows the last instant that was set, moved by the advances since.\<close>

fun shows_from :: "gotime \<Rightarrow> clock_call list \<Rightarrow> gotime" where
  "shows_from t [] = t"
| "shows_from t (CallNow # cs) = shows_from t cs"
| "shows_from t (CallAdvance d # cs) = shows_from (t + d) cs"
| "shows_from t (CallSet u # cs) = shows_from u cs"

lemma clock_shows: "Fake_Now (snd (clock_run cs (NewFake t))) = shows_from t cs"
proof -
  have "Fake_Now (snd (clock_run cs c)) = shows_from (fk_now c) cs" for c
    by (induction cs c rule: clock_run.induct)
      (auto simp: Fake_Now_def Fake_Advance_def Fake_Set_def split: prod.split)
  then show ?thesis by (simp add: NewFake_def)
qed

end
