(* ===== verification/Spec2Isabelle.thy ===== *)
theory Spec2Isabelle
  imports Ticket_Props Store_Props Command_Props Tick_Props System_Props Delivery_Props
    Call_Props Lifecycle_Props Notification_Props Wire_Types Config_Props Api_Props Http_Props Surface_Props
    Board_Props Page_Props Program_Props Shutdown_Props Clock
begin

text \<open>
  fmlocal is a local server compatible with AWS GameLift FlexMatch: it keeps matchmaking tickets in
  memory, drives a third-party matchmaking engine (flexi), publishes GameLift's events and answers
  the GameLift API in two wire formats. This development models its Go code and proves what makes
  each part correct. It is read from the domain outwards.

  Parts, sources under \<open>src/\<close>, and theories.

  \<^item> Foundations. \<open>Fm_Prelude\<close> has the generic lemmas and the notion of a command's run: \<open>runs\<close>
    triples over steps that can fail, used by every preservation proof. \<open>Go_Lib\<close> models instants,
    durations (signed 64 bits, with their wrap-around), \<open>time.Format\<close> for the layouts used and
    \<open>strings.Join\<close>; \<open>Go_Float\<close> models \<open>float64\<close>, its rounding and \<open>strconv\<close>'s shortest text; \<open>Json\<close> is
    the text \<open>encoding/json\<close> writes, with a reader, and \<open>Json_Laws\<close> proves that the reader inverts the
    writer on any value, up to the replacement of invalid UTF-8.
  \<^item> Domain, \<open>internal/domain/matchmaking\<close>. \<open>Ticket_Domain\<close> has the identifiers, errors, statuses with
    their transition table, and events; \<open>Ticket_Aggregate\<close> the ticket, its constructors and one
    definition per method of \<open>ticket.go\<close>; \<open>Ticket_Laws\<close> what a method does to each field;
    \<open>Ticket_Props\<close> the properties.
  \<^item> Application, \<open>internal/app/matchmaking\<close>. \<open>Proposal_Tracker\<close> is the tracker of \<open>tick.go\<close>; \<open>Ports\<close> the
    engine's interface, the identifier generators of \<open>defaults/idgen\<close> and the commands;
    \<open>Service_Store\<close> the state of \<open>service.go\<close>, its accessors and eviction; \<open>Event_Batch\<close> the batch
    and the snapshots of events; \<open>Service_Commands\<close> the files \<open>start.go\<close>, \<open>backfill.go\<close>, \<open>stop.go\<close>,
    \<open>accept.go\<close>, \<open>describe.go\<close>, \<open>required_attributes.go\<close>; \<open>Service_Tick\<close> the phases of \<open>tick.go\<close>;
    \<open>Ticker\<close> the rounds of \<open>ticker.go\<close>. \<open>Delivery\<close> is the transition system of \<open>event_delivery.go\<close>,
    \<open>Delivery_Calls\<close> lays the callers over it: the end of \<open>releaseAndFlush\<close>, which waits for the done
    channel of its batch, and \<open>CloseDelivery\<close> with its two waits and its context.
  \<^item> Publishers, \<open>internal/infrastructure/notification\<close>. \<open>Notification\<close> renders an event into its
    envelope, byte by byte; \<open>Publisher\<close> has the SNS, SQS, filter, fan-out and no-op publishers.
  \<^item> Interfaces, \<open>internal/interfaces\<close>. \<open>Cbor\<close>, \<open>Api_Dto\<close> and \<open>Api_Server\<close> are \<open>awsapi\<close>: the CBOR codec,
    the wire types with their conversions, and the handlers, checks, error classes and the two
    dispatchers; \<open>Web_Ui\<close> is what the pages of \<open>webui\<close> read; \<open>Http_Server\<close> has the routes of both servers.
    \<open>Web_Pages\<close> has the templates, one definition per file and per \<open>range\<close>, with the escapers of
    \<open>html/template\<close> from \<open>Html\<close>.
  \<^item> Start-up. \<open>Configfile\<close> is \<open>system/configfile/loader.go\<close>; \<open>Composition\<close> is \<open>cmd/fmlocal/main.go\<close> up
    to the start of the servers, with \<open>engine_build.go\<close>.
  \<^item> Life and end. \<open>Lifecycle\<close> is the rest of \<open>run\<close>: the goroutines of the two servers and the ticker,
    the \<open>Run\<close> methods of \<open>awsapi/server.go\<close> and \<open>webui/server.go\<close>, the error channel, the drain and the
    exit code. \<open>Program\<close> puts everything together: \<open>main\<close> with its ways to end, the process of
    \<open>Lifecycle\<close> beside the callers of \<open>Delivery_Calls\<close>, each command belonging to the part that runs it.
    \<open>Clock\<close> is the controllable clock of \<open>defaults/sysclock\<close>.

  How the state corresponds. Go shares tickets by pointer, so \<open>sv_heap\<close> holds tickets by reference and
  the maps \<open>sv_tickets\<close> and \<open>sv_byConfig\<close> hold references, as the maps \<open>tickets\<close> and
  \<open>ticketsByConfiguration\<close> do. A running command works on a \<open>frame\<close>: the service, the engine of its
  configuration and its event batch. A failing call is an \<open>Inl\<close> or \<open>Some\<close> error with the state it
  leaves behind, so that a partial effect before an error is kept, as in the code. A command that
  the code runs under a configuration's lock is one step (\<open>Start_locked\<close> and so on); what it does
  before the lock (resolving the configuration, finding a ticket, reserving a delivery slot) is
  separate, and the reference found there may be stale when the step runs. Where Go ranges over a
  map, the order is an arbitrary permutation given by the parameters \<open>go_range_proposals\<close> and
  \<open>go_range_tickets\<close>.

  What the lemmas show. \<open>Service_Inv\<close> has the invariant of the maps and the index, and the order in
  which service states follow one another; \<open>Frame_Laws\<close>, \<open>Command_Laws\<close> and \<open>Tick_Laws\<close> prove that
  every piece of a command and of a tick keeps both, whatever the engine answers; \<open>Service_System\<close>
  turns this into reachable services under any interleaving of locked steps, and \<open>System_Props\<close>,
  \<open>Store_Props\<close>, \<open>Command_Props\<close>, \<open>Tick_Props\<close> (over \<open>Tick_Effects\<close>) state the properties.
  \<open>Delivery_Laws\<close> has the invariant of the delivery lanes, \<open>Delivery_System\<close> composes it with the
  service, \<open>Delivery_Props\<close> states order, bounds and termination. \<open>Call_Laws\<close> and \<open>Call_Props\<close> show what
  a command and \<open>CloseDelivery\<close> may conclude when they return, and that the delivery refines a
  first-in first-out channel. \<open>Change_Laws\<close> follows the set of tickets through every step; \<open>Board\<close> is an
  abstract specification of the service as its clients see it, and \<open>Board_Props\<close> proves that the
  service refines it. \<open>Lifecycle_Props\<close> shows that the process ends and reports its failures. \<open>Notification_Props\<close> follows an event
  from the command that records it to the bytes a publisher sends; \<open>Wire_Types\<close> gives every event kind a
  schema and proves that its messages have it. \<open>Config_Props\<close> shows that
  validation accepts exactly the well-formed settings and that a validated file wires a complete
  service. \<open>Api_System\<close> describes the services that are driven only through the API, \<open>Cbor_Laws\<close> and
  \<open>Api_Props\<close> show what the checks guarantee and that both formats say the same, \<open>Http_Props\<close> what any
  request can do. \<open>Surface_Props\<close> has the data of the pages and the ticker. \<open>Page_Laws\<close> reads the pages back
  from their HTML with the small reader of \<open>Html\<close>, their cells, tags and links, and follows a link to its
  request; \<open>Page_Props\<close> shows that they say what the service says, in markup that no value can change,
  and where their links lead. \<open>Program_Props\<close> carries the outcome of the drain through the process to the
  exit code; \<open>Shutdown_Laws\<close> gives commands, workers, parts and the drain a way to their ends, and
  \<open>Shutdown_Props\<close> concludes that the program can always end. \<open>Sample_World\<close> is a small engine and service on which every
  conditional property is exercised.

  Interfaces are locales: \<open>state_order\<close> (an order that runs of steps climb), \<open>id_supply\<close> (generators),
  \<open>roster_registry\<close> (the tracker), \<open>event_publisher\<close> (what a publisher may do) and
  \<open>ordered_delivery\<close> (what the lanes promise); each is interpreted on the model's own definitions.

  Bounds and fuel. A lane has \<open>deliveryCapacity\<close> = 64 slots, and a worker left alone empties it in a
  number of steps that its batches determine. The sequence generator's counter has 64 bits and is
  distinct up to \<open>2 ^ 64 - 1\<close> calls. The JSON reader is given one unit of fuel per character and one
  more, which \<open>Json_Laws\<close> proves to be enough for any text the writer produces. Seconds of a
  configuration file become nanoseconds in 64 bits; the properties say below which value nothing
  wraps. Integers pass through CBOR as floats and are exact below \<open>2 ^ 53\<close>.

  Not modelled. The engine is a parameter (the record of its operations), and so are the decoding
  of YAML, JSON and CBOR bytes into the program's types, the HTTP and SQS clients and the file
  system: they are libraries or services outside the repository. What a number of CBOR's negative
  major type means to smithy-go is its library's matter too: the codec's arithmetic is modelled as
  written. Mutexes finer than a configuration's lock are not modelled: a ticket's method and a
  locked step are atomic. Contexts appear as an error that a reservation or a lock attempt may
  return, or that ends a wait, at any time; the length of a time-out is not modelled, nor are the logs,
  the texts of wrapped errors, and the parsing of requests of \<open>net/http\<close>. The value of the only flag is
  the argument \<open>path\<close> of \<open>LoadFile\<close>, and a signal is a step of the process. The reading of the system
  clock is an argument of every operation. The mocks of \<open>notification/mocks\<close> are generated test doubles
  and have no model.
\<close>

end
